(* ===== verification/MF_Prelude.thy ===== *)
theory MF_Prelude
  imports Main "HOL-Library.Word"
begin

text \<open>
  Shared vocabulary of the development: the byte and string types of the wire,
  Rust's \<open>Result\<close> as a sum type with the early return of the question-mark operator,
  big-endian \<open>u32\<close> conversion, decimal text of unsigned integers, and the generic
  notion of a transition system whose invariants hold in every reachable state.
\<close>

section \<open>Types\<close>

type_synonym byte = "8 word"
type_synonym bytes = "8 word list"
type_synonym u16 = "16 word"
type_synonym u32 = "32 word"

text \<open>
  An \<open>f64\<close> is carried as its 64-bit IEEE-754 pattern: the wire only copies it.
  A Rust \<open>String\<close> is the list of its UTF-8 bytes, which is what \<^typ>\<open>string\<close> is.
\<close>

type_synonym f64 = "64 word"

named_theorems result_simps \<open>evaluation of the Result combinators\<close>

section \<open>Results and the early return\<close>

definition and_then :: "'e + 'a \<Rightarrow> ('a \<Rightarrow> 'e + 'b) \<Rightarrow> 'e + 'b" where
  "and_then r f = (case r of Inl e \<Rightarrow> Inl e | Inr x \<Rightarrow> f x)"

definition map_err :: "('d \<Rightarrow> 'e) \<Rightarrow> 'd + 'a \<Rightarrow> 'e + 'a" where
  "map_err f r = (case r of Inl e \<Rightarrow> Inl (f e) | Inr x \<Rightarrow> Inr x)"

definition ok_or :: "'e \<Rightarrow> 'a option \<Rightarrow> 'e + 'a" where
  "ok_or e x = (case x of None \<Rightarrow> Inl e | Some y \<Rightarrow> Inr y)"

lemma and_then_Inl [simp, result_simps]: "and_then (Inl e) f = Inl e"
  by (simp add: and_then_def)

lemma and_then_Inr [simp, result_simps]: "and_then (Inr x) f = f x"
  by (simp add: and_then_def)

lemma map_err_Inl [simp, result_simps]: "map_err f (Inl e) = Inl (f e)"
  by (simp add: map_err_def)

lemma map_err_Inr [simp, result_simps]: "map_err f (Inr x) = Inr x"
  by (simp add: map_err_def)

lemma map_err_eq_Inr [simp]: "map_err f r = Inr x \<longleftrightarrow> r = Inr x"
  by (cases r) simp_all

lemma map_err_eq_Inl: "map_err f r = Inl e \<longleftrightarrow> (\<exists>d. r = Inl d \<and> e = f d)"
  by (cases r) auto

lemma and_then_eq_Inr: "and_then r f = Inr y \<longleftrightarrow> (\<exists>x. r = Inr x \<and> f x = Inr y)"
  by (cases r) simp_all

lemma and_then_eq_Inl:
  "and_then r f = Inl e \<longleftrightarrow> r = Inl e \<or> (\<exists>x. r = Inr x \<and> f x = Inl e)"
  by (cases r) simp_all

lemma ok_or_simps [simp, result_simps]: "ok_or e None = Inl e" "ok_or e (Some x) = Inr x"
  by (simp_all add: ok_or_def)

section \<open>Big-endian 32-bit lengths\<close>

definition to_be_bytes :: "u32 \<Rightarrow> bytes" where
  "to_be_bytes w = (let n = unat w in
     [of_nat (n div 2 ^ 24), of_nat (n div 2 ^ 16), of_nat (n div 2 ^ 8), of_nat (n mod 2 ^ 8)])"

definition from_be_bytes :: "bytes \<Rightarrow> u32" where
  "from_be_bytes bs = of_nat (foldl (\<lambda>acc b. acc * 256 + unat b) 0 bs)"

lemma length_to_be_bytes [simp]: "length (to_be_bytes w) = 4"
  by (simp add: to_be_bytes_def Let_def)

lemma base256_digits:
  fixes n :: nat
  assumes "n < 2 ^ 32"
  shows "((n div 2 ^ 24 mod 256 * 256 + n div 2 ^ 16 mod 256) * 256 + n div 2 ^ 8 mod 256) * 256
           + n mod 256 = n"
proof -
  define a where "a = n div 256"
  define b where "b = a div 256"
  define c where "c = b div 256"
  have n: "n = a * 256 + n mod 256" and a: "a = b * 256 + a mod 256"
    and b: "b = c * 256 + b mod 256"
    by (simp_all add: a_def b_def c_def)
  have "n div 2 ^ 24 = c" "n div 2 ^ 16 = b" "n div 2 ^ 8 = a"
    by (simp_all add: a_def b_def c_def flip: div_mult2_eq)
  moreover have "c < 256"
    using assms by (simp add: a_def b_def c_def less_mult_imp_div_less flip: div_mult2_eq)
  ultimately show ?thesis using n a b by simp
qed

lemma from_to_be_bytes [simp]: "from_be_bytes (to_be_bytes w) = w"
proof -
  have "unat w < 2 ^ 32" using unsigned_less [of w] by simp
  then have "foldl (\<lambda>acc b. acc * 256 + unat b) 0 (to_be_bytes w) = unat w"
    using base256_digits [of "unat w"]
    by (simp add: to_be_bytes_def Let_def unat_of_nat)
  then show ?thesis by (simp add: from_be_bytes_def)
qed

lemma to_from_be_bytes: "length bs = 4 \<Longrightarrow> to_be_bytes (from_be_bytes bs) = bs"
proof -
  assume "length bs = 4"
  then obtain a b c d where bs: "bs = [a, b, c, d]"
    by (auto simp: numeral_eq_Suc length_Suc_conv)
  define n where "n = ((unat a * 256 + unat b) * 256 + unat c) * 256 + unat d"
  have bound: "unat a < 256" "unat b < 256" "unat c < 256" "unat d < 256"
    using unsigned_less [of a] unsigned_less [of b] unsigned_less [of c] unsigned_less [of d] by simp_all
  then have "n < 2 ^ 32" by (simp add: n_def)
  moreover have "from_be_bytes bs = of_nat n"
    unfolding from_be_bytes_def bs n_def foldl.simps by simp
  ultimately have n: "unat (from_be_bytes bs) = n" by (simp add: unat_of_nat)
  have "n div 2 ^ 24 = unat a" "n div 2 ^ 16 = unat a * 256 + unat b"
    "n div 2 ^ 8 = (unat a * 256 + unat b) * 256 + unat c"
    using bound by (simp_all add: n_def)
  moreover have "n mod 2 ^ 8 = unat d"
    using bound(4) mod_mult_self3 [of "(unat a * 256 + unat b) * 256 + unat c" 256 "unat d"]
    unfolding n_def by simp
  ultimately have "to_be_bytes (from_be_bytes bs) = [of_nat (unat a), of_nat (unat a * 256 + unat b),
      of_nat ((unat a * 256 + unat b) * 256 + unat c), of_nat (unat d)]"
    unfolding to_be_bytes_def Let_def n by simp
  moreover have zero: "(256 :: byte) = 0" "(65536 :: byte) = 0" by code_simp+
  ultimately show ?thesis by (simp add: bs zero)
qed

section \<open>Decimal text of unsigned integers\<close>

fun show_nat :: "nat \<Rightarrow> string" where
  "show_nat n = (if n < 10 then [char_of (48 + n)]
                 else show_nat (n div 10) @ [char_of (48 + n mod 10)])"

declare show_nat.simps [simp del]

definition is_digit :: "char \<Rightarrow> bool" where
  "is_digit c \<longleftrightarrow> 48 \<le> (of_char c :: nat) \<and> (of_char c :: nat) \<le> 57"

definition digit_val :: "char \<Rightarrow> nat" where
  "digit_val c = (of_char c :: nat) - 48"

definition digits_val :: "string \<Rightarrow> nat" where
  "digits_val = foldl (\<lambda>acc c. acc * 10 + digit_val c) 0"

text \<open>
  \<open>str::parse\<close> for an unsigned integer with values below \<open>bound\<close>: one leading plus
  sign is accepted, then one or more decimal digits, and a value out of range is an
  error (\<open>core::num::from_str_radix\<close>).
\<close>

definition parse_unsigned :: "nat \<Rightarrow> string \<Rightarrow> nat option" where
  "parse_unsigned bound s =
     (let ds = (case s of c # cs \<Rightarrow> if c = CHR ''+'' then cs else s | [] \<Rightarrow> [])
      in if ds = [] \<or> \<not> list_all is_digit ds then None
         else if digits_val ds < bound then Some (digits_val ds) else None)"

lemma digit_char [simp]:
  assumes "n < 10"
  shows "is_digit (char_of (48 + n))" "digit_val (char_of (48 + n)) = n"
  using assms by (simp_all add: is_digit_def digit_val_def)

lemma digits_val_snoc [simp]: "digits_val (xs @ [c]) = digits_val xs * 10 + digit_val c"
  by (simp add: digits_val_def)

lemma show_nat_digits: "list_all is_digit (show_nat n) \<and> show_nat n \<noteq> []"
proof (induction n rule: show_nat.induct)
  case (1 n)
  then show ?case by (subst show_nat.simps, subst (2) show_nat.simps) auto
qed

lemma digits_val_show_nat [simp]: "digits_val (show_nat n) = n"
proof (induction n rule: show_nat.induct)
  case (1 n)
  show ?case
  proof (cases "n < 10")
    case True
    then show ?thesis by (subst show_nat.simps) (simp add: digits_val_def)
  next
    case False
    with "1.IH" show ?thesis by (subst show_nat.simps) simp
  qed
qed

lemma parse_show_nat: "n < bound \<Longrightarrow> parse_unsigned bound (show_nat n) = Some n"
proof -
  assume n: "n < bound"
  obtain c cs where cs: "show_nat n = c # cs"
    using show_nat_digits [of n] by (cases "show_nat n") auto
  have "is_digit c" using show_nat_digits [of n] cs by simp
  then have "c \<noteq> CHR ''+''" by (auto simp: is_digit_def)
  then show ?thesis
    using n show_nat_digits [of n] cs digits_val_show_nat [of n]
    by (simp add: parse_unsigned_def Let_def)
qed

lemma parse_unsigned_bound: "parse_unsigned bound s = Some n \<Longrightarrow> n < bound"
  by (auto simp: parse_unsigned_def Let_def split: if_splits)

text \<open>The accepted texts: digits, with or without a plus sign, leading zeros included.\<close>

lemma parse_unsigned_iff:
  "parse_unsigned bound s = Some n \<longleftrightarrow> (\<exists>ds. (s = ds \<or> s = ''+'' @ ds) \<and> ds \<noteq> [] \<and> list_all is_digit ds \<and>
     digits_val ds = n \<and> n < bound)"
proof -
  have plus: "\<not> is_digit CHR ''+''" by (simp add: is_digit_def)
  show ?thesis
    using plus by (cases s) (auto simp: parse_unsigned_def Let_def split: if_splits)
qed

section \<open>Transition systems\<close>

inductive reachable :: "('s \<Rightarrow> bool) \<Rightarrow> ('s \<Rightarrow> 's \<Rightarrow> bool) \<Rightarrow> 's \<Rightarrow> bool"
  for init :: "'s \<Rightarrow> bool" and step :: "'s \<Rightarrow> 's \<Rightarrow> bool" where
  reachable_init: "init s \<Longrightarrow> reachable init step s"
| reachable_step: "reachable init step s \<Longrightarrow> step s t \<Longrightarrow> reachable init step t"

locale inductive_invariant =
  fixes init :: "'s \<Rightarrow> bool" and step :: "'s \<Rightarrow> 's \<Rightarrow> bool" and inv :: "'s \<Rightarrow> bool"
  assumes init_inv: "init s \<Longrightarrow> inv s"
    and step_inv: "inv s \<Longrightarrow> step s t \<Longrightarrow> inv t"
begin

lemma reachable_inv: "reachable init step s \<Longrightarrow> inv s"
  by (induction rule: reachable.induct) (auto intro: init_inv step_inv)

lemma steps_inv: "step\<^sup>*\<^sup>* s t \<Longrightarrow> inv s \<Longrightarrow> inv t"
  by (induction rule: rtranclp_induct) (auto intro: step_inv)

end

lemma reachable_rtranclp: "reachable init step s \<Longrightarrow> step\<^sup>*\<^sup>* s t \<Longrightarrow> reachable init step t"
  by (rotate_tac, induction rule: rtranclp_induct) (auto intro: reachable_step)

text \<open>
  An invariant that is kept only in states that satisfy another one; together they are
  inductive.
\<close>

locale relative_invariant = base: inductive_invariant init step base
  for init :: "'s \<Rightarrow> bool" and step :: "'s \<Rightarrow> 's \<Rightarrow> bool" and base :: "'s \<Rightarrow> bool" +
  fixes inv :: "'s \<Rightarrow> bool"
  assumes rel_init: "init s \<Longrightarrow> inv s"
    and rel_step: "base s \<Longrightarrow> inv s \<Longrightarrow> step s t \<Longrightarrow> inv t"

sublocale relative_invariant \<subseteq> both: inductive_invariant init step "\<lambda>s. base s \<and> inv s"
  by unfold_locales (auto intro: base.init_inv base.step_inv rel_init rel_step)

text \<open>
  A part of a system that moves only by steps of its own: it is reachable by itself, and
  its invariants hold in the system.
\<close>

locale simulation =
  fixes init :: "'s \<Rightarrow> bool" and step :: "'s \<Rightarrow> 's \<Rightarrow> bool"
    and init_part :: "'p \<Rightarrow> bool" and step_part :: "'p \<Rightarrow> 'p \<Rightarrow> bool" and part :: "'s \<Rightarrow> 'p"
  assumes init_sim: "init s \<Longrightarrow> init_part (part s)"
    and step_sim: "step s t \<Longrightarrow> step_part\<^sup>*\<^sup>* (part s) (part t)"
begin

lemma reachable_part: "reachable init step s \<Longrightarrow> reachable init_part step_part (part s)"
  by (induction rule: reachable.induct)
    (auto intro: reachable_init init_sim reachable_rtranclp step_sim)

end

locale part_invariant = simulation init step init_part step_part part + own: inductive_invariant init_part step_part inv_part
  for init :: "'s \<Rightarrow> bool" and step :: "'s \<Rightarrow> 's \<Rightarrow> bool" and init_part :: "'p \<Rightarrow> bool" and step_part :: "'p \<Rightarrow> 'p \<Rightarrow> bool"
    and part :: "'s \<Rightarrow> 'p" and inv_part :: "'p \<Rightarrow> bool"

sublocale part_invariant \<subseteq> whole: inductive_invariant init step "\<lambda>s. inv_part (part s)"
  by unfold_locales (auto intro: own.init_inv init_sim own.steps_inv step_sim)

end
