(* ===== verification/Wire.thy ===== *)
theory Wire
  imports MF_Prelude
begin

text \<open>
  The data of the v5 protocol, as both crates declare it (router/src/protocol.rs and
  rust/src/message.rs have the same fields): envelope, bodies, error bodies, frames.
  MessagePack serialisation is the third-party crate \<open>rmp_serde\<close>; it enters the
  model as the record \<open>codec\<close> of its functions, one pair per message type, and
  every definition that serialises takes the codec as an argument. What the code
  relies on is the named hypothesis \<open>round_trips\<close>.
\<close>

section \<open>WebSocket messages\<close>

datatype Message =
    Text string
  | Binary bytes
  | Ping bytes
  | Pong bytes
  | Close
  | RawFrame bytes

text \<open>What \<open>source.next().await\<close> yields: a message, a transport error, or the end.\<close>

datatype ws_item = ItemOk Message | ItemErr string | ItemEnd

section \<open>Envelope and bodies\<close>

record Envelope =
  env_v :: u32
  env_kind :: string
  env_msg_id :: string
  env_from :: string
  env_to :: string
  env_ts :: f64

datatype PeerClass = Service | Caller

fun as_str :: "PeerClass \<Rightarrow> string" where
  "as_str Service = ''service''"
| "as_str Caller = ''caller''"

record RegisterBody =
  reg_peer_id :: string
  reg_class :: PeerClass

record RegisterAckBody =
  ack_accepted :: bool
  ack_reason :: "string option"

datatype QueryBody = PeerExists string | PeerGet string

record QueryExistsResponseBody =
  qe_peer_id :: string
  qe_exists :: bool
  qe_class :: "PeerClass option"
  qe_connected :: bool

record QueryGetResponseBody =
  qg_peer_id :: string
  qg_exists :: bool
  qg_class :: "PeerClass option"
  qg_connected :: bool

datatype WireValue =
    WNil
  | WBool bool
  | WInt "64 word"
  | WUInt "64 word"
  | WFloat f64
  | WText string
  | WBinary bytes
  | WArray "WireValue list"
  | WMap "(string \<times> WireValue) list"

record ErrorBody =
  err_code :: string
  err_message :: string
  err_kind :: string
  err_stack :: "string option"
  err_details :: "WireValue option"

text \<open>\<open>serde_json::Value\<close>, the dynamic values that calls and responses carry.\<close>

datatype Value =
    VNull
  | VBool bool
  | VPosInt "64 word"
  | VNegInt "64 word"
  | VFloat f64
  | VString string
  | VArray "Value list"
  | VObject "(string \<times> Value) list"

record CallBody =
  call_function :: string
  call_args :: "Value list"
  call_namespace :: "string option"

record ResponseBody =
  resp_result :: Value

record FrameParts =
  fp_envelope :: Envelope
  fp_body_bytes :: bytes

section \<open>Serialisation as a parameter\<close>

text \<open>
  \<open>rmp_serde::to_vec_named\<close> and \<open>rmp_serde::from_slice\<close> at each type; an error is
  represented by its text. \<open>fmt_message\<close> is the \<open>Debug\<close> text of a WebSocket message.
\<close>

record codec =
  enc_envelope :: "Envelope \<Rightarrow> string + bytes"
  dec_envelope :: "bytes \<Rightarrow> string + Envelope"
  enc_register :: "RegisterBody \<Rightarrow> string + bytes"
  dec_register :: "bytes \<Rightarrow> string + RegisterBody"
  enc_ack :: "RegisterAckBody \<Rightarrow> string + bytes"
  dec_ack :: "bytes \<Rightarrow> string + RegisterAckBody"
  enc_query :: "QueryBody \<Rightarrow> string + bytes"
  dec_query :: "bytes \<Rightarrow> string + QueryBody"
  enc_qexists :: "QueryExistsResponseBody \<Rightarrow> string + bytes"
  dec_qexists :: "bytes \<Rightarrow> string + QueryExistsResponseBody"
  enc_qget :: "QueryGetResponseBody \<Rightarrow> string + bytes"
  dec_qget :: "bytes \<Rightarrow> string + QueryGetResponseBody"
  enc_call :: "CallBody \<Rightarrow> string + bytes"
  dec_call :: "bytes \<Rightarrow> string + CallBody"
  enc_response :: "ResponseBody \<Rightarrow> string + bytes"
  dec_response :: "bytes \<Rightarrow> string + ResponseBody"
  enc_error :: "ErrorBody \<Rightarrow> string + bytes"
  dec_error :: "bytes \<Rightarrow> string + ErrorBody"
  fmt_message :: "Message \<Rightarrow> string"

definition round_trips :: "('a \<Rightarrow> string + bytes) \<Rightarrow> (bytes \<Rightarrow> string + 'a) \<Rightarrow> bool" where
  "round_trips enc dec \<longleftrightarrow> (\<forall>x bs. enc x = Inr bs \<longrightarrow> dec bs = Inr x)"

lemma round_tripsD: "round_trips enc dec \<Longrightarrow> enc x = Inr bs \<Longrightarrow> dec bs = Inr x"
  by (simp add: round_trips_def)

text \<open>
  The details of an error body are an untagged \<open>WireValue\<close>, whose variant is not on the
  wire: the reader takes the first variant that fits, so a small \<open>UInt\<close> is read back as
  \<open>Int\<close>, bytes that are a text as \<open>Text\<close>, a \<open>Map\<close> (a list of pairs) as \<open>Array\<close>, and
  \<open>Some(Nil)\<close> as \<open>None\<close>. The round trip is relied on only for bodies whose details are
  absent, or of a variant that is read back as itself.
\<close>

fun kept_details :: "WireValue option \<Rightarrow> bool" where
  "kept_details None \<longleftrightarrow> True"
| "kept_details (Some (WBool _)) \<longleftrightarrow> True"
| "kept_details (Some (WInt _)) \<longleftrightarrow> True"
| "kept_details (Some (WFloat _)) \<longleftrightarrow> True"
| "kept_details (Some (WText _)) \<longleftrightarrow> True"
| "kept_details _ \<longleftrightarrow> False"

definition error_round_trips :: "codec \<Rightarrow> bool" where
  "error_round_trips cd \<longleftrightarrow>
     (\<forall>b bs. kept_details (err_details b) \<longrightarrow> enc_error cd b = Inr bs \<longrightarrow> dec_error cd bs = Inr b)"

lemma error_round_tripsD:
  "error_round_trips cd \<Longrightarrow> enc_error cd b = Inr bs \<Longrightarrow> kept_details (err_details b) \<Longrightarrow> dec_error cd bs = Inr b"
  by (simp add: error_round_trips_def)

end
