(* ===== verification/Router_Protocol.thy ===== *)
theory Router_Protocol
  imports Wire
begin

text \<open>
  router/src/error.rs and router/src/protocol.rs: the router's errors, the protocol
  constants, the length-prefixed binary frame and the body codecs. The locale
  \<open>frame_format\<close> is the contract of such a frame format; it is interpreted here on
  the router's functions and in \<open>Client_Message\<close> on the client's.
\<close>

section \<open>Errors\<close>

datatype RouterError =
    Io string
  | WebSocket string
  | InvalidProtocolKey string
  | InvalidPort string
  | NonBinaryMessage
  | MalformedFrame string
  | MalformedRegisterBody string
  | MalformedQueryBody string
  | DuplicatePeerId string
  | PeerNotFound string
  | InvalidTargetClass string
  | InvalidSourceClass string
  | ConnectionClosed
  | Other string

section \<open>Constants\<close>

definition PROTOCOL_KEY :: string where "PROTOCOL_KEY = ''multifrost_ipc_v5''"
definition PROTOCOL_VERSION :: u32 where "PROTOCOL_VERSION = 5"
definition ROUTER_PEER_ID :: string where "ROUTER_PEER_ID = ''router''"
definition KIND_REGISTER :: string where "KIND_REGISTER = ''register''"
definition KIND_QUERY :: string where "KIND_QUERY = ''query''"
definition KIND_CALL :: string where "KIND_CALL = ''call''"
definition KIND_RESPONSE :: string where "KIND_RESPONSE = ''response''"
definition KIND_ERROR :: string where "KIND_ERROR = ''error''"
definition KIND_HEARTBEAT :: string where "KIND_HEARTBEAT = ''heartbeat''"
definition KIND_DISCONNECT :: string where "KIND_DISCONNECT = ''disconnect''"

lemmas kind_defs = KIND_REGISTER_def KIND_QUERY_def KIND_CALL_def KIND_RESPONSE_def
  KIND_ERROR_def KIND_HEARTBEAT_def KIND_DISCONNECT_def

section \<open>Validation\<close>

definition validate_protocol_key :: "string \<Rightarrow> RouterError + unit" where
  "validate_protocol_key value =
     (if value = PROTOCOL_KEY then Inr () else Inl (InvalidProtocolKey value))"

fun ensure_binary_ws_message :: "Message \<Rightarrow> RouterError + bytes" where
  "ensure_binary_ws_message (Binary bs) = Inr bs"
| "ensure_binary_ws_message _ = Inl NonBinaryMessage"

section \<open>Frames\<close>

definition encode_envelope :: "codec \<Rightarrow> Envelope \<Rightarrow> RouterError + bytes" where
  "encode_envelope cd e = map_err Other (enc_envelope cd e)"

definition decode_envelope :: "codec \<Rightarrow> bytes \<Rightarrow> RouterError + Envelope" where
  "decode_envelope cd bs =
     and_then (map_err MalformedFrame (dec_envelope cd bs)) (\<lambda>e.
       if env_v e \<noteq> PROTOCOL_VERSION
       then Inl (InvalidProtocolKey (''v='' @ show_nat (unat (env_v e))))
       else Inr e)"

text \<open>The length is cast to \<open>u32\<close>: an envelope of \<open>2 ^ 32\<close> bytes or more wraps.\<close>

definition encode_frame :: "codec \<Rightarrow> Envelope \<Rightarrow> bytes \<Rightarrow> RouterError + bytes" where
  "encode_frame cd e body_bytes =
     and_then (encode_envelope cd e) (\<lambda>envelope_bytes.
       Inr (to_be_bytes (of_nat (length envelope_bytes)) @ envelope_bytes @ body_bytes))"

definition decode_frame :: "codec \<Rightarrow> bytes \<Rightarrow> RouterError + FrameParts" where
  "decode_frame cd bs =
     (if length bs < 4
      then Inl (MalformedFrame ''frame too short for envelope length'')
      else
        let envelope_len = unat (from_be_bytes (take 4 bs)) in
        if length bs < 4 + envelope_len
        then Inl (MalformedFrame ''frame shorter than declared envelope length'')
        else and_then (decode_envelope cd (take envelope_len (drop 4 bs))) (\<lambda>envelope.
               Inr \<lparr>fp_envelope = envelope, fp_body_bytes = drop (4 + envelope_len) bs\<rparr>))"

section \<open>Bodies\<close>

definition encode_register_body :: "codec \<Rightarrow> RegisterBody \<Rightarrow> RouterError + bytes" where
  "encode_register_body cd b = map_err Other (enc_register cd b)"

definition decode_register_body :: "codec \<Rightarrow> bytes \<Rightarrow> RouterError + RegisterBody" where
  "decode_register_body cd bs = map_err MalformedRegisterBody (dec_register cd bs)"

definition encode_register_ack_body :: "codec \<Rightarrow> RegisterAckBody \<Rightarrow> RouterError + bytes" where
  "encode_register_ack_body cd b = map_err Other (enc_ack cd b)"

definition encode_query_body :: "codec \<Rightarrow> QueryBody \<Rightarrow> RouterError + bytes" where
  "encode_query_body cd b = map_err Other (enc_query cd b)"

definition decode_query_body :: "codec \<Rightarrow> bytes \<Rightarrow> RouterError + QueryBody" where
  "decode_query_body cd bs = map_err MalformedQueryBody (dec_query cd bs)"

definition encode_query_exists_response ::
    "codec \<Rightarrow> string \<Rightarrow> bool \<Rightarrow> PeerClass option \<Rightarrow> bool \<Rightarrow> RouterError + bytes" where
  "encode_query_exists_response cd peer_id ex class connected =
     map_err Other (enc_qexists cd
       \<lparr>qe_peer_id = peer_id, qe_exists = ex, qe_class = class, qe_connected = connected\<rparr>)"

definition encode_query_get_response ::
    "codec \<Rightarrow> string \<Rightarrow> bool \<Rightarrow> PeerClass option \<Rightarrow> bool \<Rightarrow> RouterError + bytes" where
  "encode_query_get_response cd peer_id ex class connected =
     map_err Other (enc_qget cd
       \<lparr>qg_peer_id = peer_id, qg_exists = ex, qg_class = class, qg_connected = connected\<rparr>)"

definition encode_error_body :: "codec \<Rightarrow> ErrorBody \<Rightarrow> RouterError + bytes" where
  "encode_error_body cd b = map_err Other (enc_error cd b)"

definition decode_error_body :: "codec \<Rightarrow> bytes \<Rightarrow> RouterError + ErrorBody" where
  "decode_error_body cd bs = map_err MalformedFrame (dec_error cd bs)"

section \<open>The frame contract\<close>

text \<open>
  \<open>well_framed cd e\<close>: the envelope serialises below \<open>2 ^ 32\<close> bytes and carries the
  version the decoder accepts.
\<close>

definition well_framed :: "codec \<Rightarrow> Envelope \<Rightarrow> bool" where
  "well_framed cd e \<longleftrightarrow> env_v e = PROTOCOL_VERSION \<and>
     (case enc_envelope cd e of Inl _ \<Rightarrow> False | Inr eb \<Rightarrow> length eb < 2 ^ 32)"

locale frame_format =
  fixes encode :: "codec \<Rightarrow> Envelope \<Rightarrow> bytes \<Rightarrow> 'e + bytes"
    and decode :: "codec \<Rightarrow> bytes \<Rightarrow> 'e + FrameParts"
  assumes encode_layout: "encode cd e b = Inr f \<longleftrightarrow>
      (\<exists>eb. enc_envelope cd e = Inr eb \<and> f = to_be_bytes (of_nat (length eb)) @ eb @ b)"
    and decode_layout: "decode cd f = Inr p \<longleftrightarrow>
      (\<exists>len eb. 4 \<le> length f \<and> len = unat (from_be_bytes (take 4 f)) \<and> 4 + len \<le> length f \<and>
         eb = take len (drop 4 f) \<and> dec_envelope cd eb = Inr (fp_envelope p) \<and>
         env_v (fp_envelope p) = 5 \<and> p = \<lparr>fp_envelope = fp_envelope p, fp_body_bytes = drop (4 + len) f\<rparr>)"
begin

lemma decode_encode:
  assumes rt: "round_trips (enc_envelope cd) (dec_envelope cd)"
    and wf: "well_framed cd e" and enc: "encode cd e b = Inr f"
  shows "decode cd f = Inr \<lparr>fp_envelope = e, fp_body_bytes = b\<rparr>"
proof -
  from enc obtain eb where eb: "enc_envelope cd e = Inr eb"
    and f: "f = to_be_bytes (of_nat (length eb)) @ eb @ b"
    unfolding encode_layout by blast
  from wf eb have "length eb < 2 ^ 32" and v: "env_v e = 5"
    by (simp_all add: well_framed_def PROTOCOL_VERSION_def)
  then have "unat (of_nat (length eb) :: u32) = length eb"
    by (simp add: unat_of_nat)
  then show ?thesis
    unfolding decode_layout using f eb rt v by (simp add: round_trips_def)
qed

text \<open>A frame below 4 GiB that decodes at all decodes to what was encoded.\<close>

lemma decode_own:
  assumes rt: "round_trips (enc_envelope cd) (dec_envelope cd)" and enc: "encode cd e b = Inr f"
    and short: "length f < 2 ^ 32" and dec: "decode cd f = Inr p"
  shows "p = \<lparr>fp_envelope = e, fp_body_bytes = b\<rparr>"
proof -
  from enc obtain eb where eb: "enc_envelope cd e = Inr eb"
    and f: "f = to_be_bytes (of_nat (length eb)) @ eb @ b"
    unfolding encode_layout by blast
  then have "unat (of_nat (length eb) :: u32) = length eb"
    using short by (simp add: unat_of_nat)
  then have "dec_envelope cd eb = Inr (fp_envelope p)" "fp_body_bytes p = b"
    using dec f unfolding decode_layout by (auto simp: FrameParts.ext_inject dest: arg_cong [of p _ fp_body_bytes])
  then show ?thesis using rt eb by (simp add: round_trips_def)
qed

lemma encode_succeeds: "well_framed cd e \<Longrightarrow> \<exists>f. encode cd e b = Inr f"
  unfolding encode_layout by (auto simp: well_framed_def split: sum.splits)

lemma encode_inject:
  assumes "round_trips (enc_envelope cd) (dec_envelope cd)"
    and "well_framed cd e" "well_framed cd e'"
    and "encode cd e b = Inr f" "encode cd e' b' = Inr f"
  shows "e = e' \<and> b = b'"
  using decode_encode [OF assms(1,2,4)] decode_encode [OF assms(1,3,5)] by simp

lemma decode_short: "length f < 4 \<Longrightarrow> \<exists>err. decode cd f = Inl err"
  by (cases "decode cd f") (auto simp: decode_layout)

lemma decode_version: "decode cd f = Inr p \<Longrightarrow> env_v (fp_envelope p) = 5"
  by (auto simp: decode_layout)

text \<open>The body is a suffix of the frame: routing never re-encodes it.\<close>

lemma decode_body_suffix:
  assumes "decode cd f = Inr p"
  shows "\<exists>hd. f = hd @ fp_body_bytes p \<and> 4 \<le> length hd"
proof -
  from assms obtain len where len: "4 + len \<le> length f"
    and p: "p = \<lparr>fp_envelope = fp_envelope p, fp_body_bytes = drop (4 + len) f\<rparr>"
    unfolding decode_layout by blast
  have "fp_body_bytes p = drop (4 + len) f" by (subst p) simp
  with len have "f = take (4 + len) f @ fp_body_bytes p \<and> 4 \<le> length (take (4 + len) f)"
    by simp
  then show ?thesis by blast
qed

end

interpretation router_frames: frame_format encode_frame decode_frame
proof unfold_locales
  fix cd e b f
  show "encode_frame cd e b = Inr f \<longleftrightarrow>
      (\<exists>eb. enc_envelope cd e = Inr eb \<and> f = to_be_bytes (of_nat (length eb)) @ eb @ b)"
    by (auto simp: encode_frame_def encode_envelope_def and_then_eq_Inr)
next
  fix cd f p
  show "decode_frame cd f = Inr p \<longleftrightarrow>
      (\<exists>len eb. 4 \<le> length f \<and> len = unat (from_be_bytes (take 4 f)) \<and> 4 + len \<le> length f \<and>
         eb = take len (drop 4 f) \<and> dec_envelope cd eb = Inr (fp_envelope p) \<and>
         env_v (fp_envelope p) = 5 \<and> p = \<lparr>fp_envelope = fp_envelope p, fp_body_bytes = drop (4 + len) f\<rparr>)"
    by (auto simp: decode_frame_def decode_envelope_def and_then_eq_Inr Let_def
        PROTOCOL_VERSION_def not_less split: if_splits)
qed

end
