(* ===== verification/Router_Registry.thy ===== *)
theory Router_Registry
  imports Router_Protocol
begin

text \<open>
  router/src/registry.rs: the in-memory registry of live peers, keyed by \<open>peer_id\<close>.
  Every method of \<open>PeerRegistry\<close> takes the lock once, so it is one pure function on
  the map; the time of \<open>Instant::now()\<close> is an argument. A sink is the identity of
  the connection whose WebSocket half it is. The locale \<open>live_registry\<close> is what the
  server relies on.
\<close>

type_synonym sink = nat
type_synonym instant = nat

record PeerSnapshot =
  snap_peer_id :: string
  snap_class :: PeerClass
  snap_connected :: bool

record PeerRecord =
  pr_peer_id :: string
  pr_class :: PeerClass
  pr_sender :: sink
  pr_connected :: bool
  pr_last_heartbeat :: "instant option"

type_synonym PeerRegistry = "string \<rightharpoonup> PeerRecord"

definition new_registry :: PeerRegistry where
  "new_registry = Map.empty"

definition insert_live_peer ::
    "instant \<Rightarrow> string \<Rightarrow> PeerClass \<Rightarrow> sink \<Rightarrow> PeerRegistry \<Rightarrow> (RouterError + unit) \<times> PeerRegistry" where
  "insert_live_peer now peer_id class sender peers =
     (if peers peer_id \<noteq> None then (Inl (DuplicatePeerId peer_id), peers)
      else (Inr (), peers(peer_id \<mapsto>
        \<lparr>pr_peer_id = peer_id, pr_class = class, pr_sender = sender,
         pr_connected = True, pr_last_heartbeat = Some now\<rparr>)))"

definition reject_duplicate_live_peer_id :: "string \<Rightarrow> PeerRegistry \<Rightarrow> bool" where
  "reject_duplicate_live_peer_id peer_id peers \<longleftrightarrow> peers peer_id \<noteq> None"

definition lookup_by_peer_id :: "string \<Rightarrow> PeerRegistry \<Rightarrow> PeerSnapshot option" where
  "lookup_by_peer_id peer_id peers = map_option (\<lambda>r.
     \<lparr>snap_peer_id = pr_peer_id r, snap_class = pr_class r, snap_connected = pr_connected r\<rparr>)
     (peers peer_id)"

definition sender_by_peer_id :: "string \<Rightarrow> PeerRegistry \<Rightarrow> sink option" where
  "sender_by_peer_id peer_id peers = map_option pr_sender (peers peer_id)"

definition remove_by_peer_id :: "string \<Rightarrow> PeerRegistry \<Rightarrow> PeerSnapshot option \<times> PeerRegistry" where
  "remove_by_peer_id peer_id peers = (map_option (\<lambda>r.
     \<lparr>snap_peer_id = pr_peer_id r, snap_class = pr_class r, snap_connected = False\<rparr>)
     (peers peer_id), peers(peer_id := None))"

definition snapshot_peer_exists :: "string \<Rightarrow> PeerRegistry \<Rightarrow> bool" where
  "snapshot_peer_exists peer_id peers \<longleftrightarrow> peers peer_id \<noteq> None"

definition snapshot_peer_class :: "string \<Rightarrow> PeerRegistry \<Rightarrow> PeerClass option" where
  "snapshot_peer_class peer_id peers = map_option pr_class (peers peer_id)"

definition mark_heartbeat :: "instant \<Rightarrow> string \<Rightarrow> PeerRegistry \<Rightarrow> PeerRegistry" where
  "mark_heartbeat now peer_id peers = (case peers peer_id of
     None \<Rightarrow> peers
   | Some r \<Rightarrow> peers(peer_id \<mapsto> r\<lparr>pr_last_heartbeat := Some now\<rparr>))"

definition connected_snapshot :: "string \<Rightarrow> PeerRegistry \<Rightarrow> bool option" where
  "connected_snapshot peer_id peers = map_option pr_connected (peers peer_id)"

lemmas registry_defs = insert_live_peer_def reject_duplicate_live_peer_id_def
  lookup_by_peer_id_def sender_by_peer_id_def remove_by_peer_id_def snapshot_peer_exists_def
  snapshot_peer_class_def mark_heartbeat_def connected_snapshot_def new_registry_def

section \<open>Well-formedness\<close>

text \<open>Every entry is stored under its own identity and is connected.\<close>

definition registry_wf :: "PeerRegistry \<Rightarrow> bool" where
  "registry_wf peers \<longleftrightarrow> (\<forall>pid r. peers pid = Some r \<longrightarrow> pr_peer_id r = pid \<and> pr_connected r)"

lemma registry_wf_new: "registry_wf new_registry"
  by (simp add: registry_wf_def new_registry_def)

lemma registry_wf_insert: "registry_wf peers \<Longrightarrow> registry_wf (snd (insert_live_peer t pid c s peers))"
  by (simp add: registry_wf_def insert_live_peer_def)

lemma registry_wf_remove: "registry_wf peers \<Longrightarrow> registry_wf (snd (remove_by_peer_id pid peers))"
  by (simp add: registry_wf_def remove_by_peer_id_def)

lemma registry_wf_heartbeat: "registry_wf peers \<Longrightarrow> registry_wf (mark_heartbeat t pid peers)"
  by (auto simp: registry_wf_def mark_heartbeat_def split: option.splits)

section \<open>The registry's contract\<close>

text \<open>
  What a client of the registry may observe: the class and the sink stored for an
  identity. Insertion succeeds exactly when the identity is free, and each write
  touches one identity only.
\<close>

locale live_registry =
  fixes empty :: 'r
    and insert :: "instant \<Rightarrow> string \<Rightarrow> PeerClass \<Rightarrow> sink \<Rightarrow> 'r \<Rightarrow> (RouterError + unit) \<times> 'r"
    and remove :: "string \<Rightarrow> 'r \<Rightarrow> PeerSnapshot option \<times> 'r"
    and heartbeat :: "instant \<Rightarrow> string \<Rightarrow> 'r \<Rightarrow> 'r"
    and class_of :: "string \<Rightarrow> 'r \<Rightarrow> PeerClass option"
    and sink_of :: "string \<Rightarrow> 'r \<Rightarrow> sink option"
  assumes empty_free: "class_of pid empty = None"
    and same_keys: "class_of pid r = None \<longleftrightarrow> sink_of pid r = None"
    and insert_free: "class_of pid r = None \<Longrightarrow>
      fst (insert t pid c s r) = Inr () \<and>
      class_of q (snd (insert t pid c s r)) = (if q = pid then Some c else class_of q r) \<and>
      sink_of q (snd (insert t pid c s r)) = (if q = pid then Some s else sink_of q r)"
    and insert_taken: "class_of pid r \<noteq> None \<Longrightarrow>
      insert t pid c s r = (Inl (DuplicatePeerId pid), r)"
    and remove_view: "class_of q (snd (remove pid r)) = (if q = pid then None else class_of q r)"
      "sink_of q (snd (remove pid r)) = (if q = pid then None else sink_of q r)"
    and heartbeat_view: "class_of q (heartbeat t pid r) = class_of q r"
      "sink_of q (heartbeat t pid r) = sink_of q r"
begin

lemma insert_ok_iff: "fst (insert t pid c s r) = Inr () \<longleftrightarrow> class_of pid r = None"
  using insert_free [of pid r t c s] insert_taken [of pid r t c s]
  by (cases "class_of pid r") auto

lemma insert_then_duplicate:
  assumes "class_of pid r = None"
  shows "insert t' pid c' s' (snd (insert t pid c s r)) =
           (Inl (DuplicatePeerId pid), snd (insert t pid c s r))"
  by (rule insert_taken) (simp add: insert_free [OF assms])

lemma remove_then_insert: "fst (insert t pid c s (snd (remove pid r))) = Inr ()"
  unfolding insert_ok_iff by (simp add: remove_view)

lemma insert_other: "q \<noteq> pid \<Longrightarrow> class_of q (snd (insert t pid c s r)) = class_of q r"
  using insert_free [of pid r t c s q] insert_taken [of pid r t c s]
  by (cases "class_of pid r") auto

lemma remove_remove_view: "class_of q (snd (remove pid (snd (remove pid r)))) =
    class_of q (snd (remove pid r))"
  by (simp add: remove_view)

end

interpretation reg: live_registry new_registry insert_live_peer remove_by_peer_id mark_heartbeat
  snapshot_peer_class sender_by_peer_id
  by unfold_locales (auto simp: registry_defs split: option.splits)

text \<open>
  Registering, then registering the same identity again, is refused as a
  duplicate and leaves the first registration in place; after a removal the
  identity is free again.
\<close>

theorem registry_unique_identity:
  "snapshot_peer_class pid peers = None \<Longrightarrow>
     (let peers' = snd (insert_live_peer t pid c s peers) in
      fst (insert_live_peer t pid c s peers) = Inr () \<and>
      snapshot_peer_class pid peers' = Some c \<and> sender_by_peer_id pid peers' = Some s \<and>
      insert_live_peer t' pid c' s' peers' = (Inl (DuplicatePeerId pid), peers') \<and>
      fst (insert_live_peer t' pid c' s' (snd (remove_by_peer_id pid peers'))) = Inr ())"
  using reg.insert_free [of pid peers t c s pid] reg.insert_then_duplicate [of pid peers t' c' s' t c s]
    reg.remove_then_insert [of t' pid c' s' "snd (insert_live_peer t pid c s peers)"]
    reg.insert_ok_iff [of t pid c s peers]
  by (simp add: Let_def)

theorem registry_unique_identity_witness:
  "snapshot_peer_class ''svc'' new_registry = None \<and>
   insert_live_peer 2 ''svc'' Caller 9 (snd (insert_live_peer 1 ''svc'' Service 7 new_registry)) =
     (Inl (DuplicatePeerId ''svc''), snd (insert_live_peer 1 ''svc'' Service 7 new_registry))"
  using registry_unique_identity [of "''svc''" new_registry 1 Service 7 2 Caller 9]
  by (simp add: reg.empty_free Let_def)

end
