(* ===== verification/Router_Config.thy ===== *)
theory Router_Config
  imports Router_Registry
begin

text \<open>
  router/src/config.rs and router/src/lib.rs: the router's configuration from the
  process environment, and its start-up sequence up to the accept loop. What the
  operating system answers (environment variable, home directory, file system,
  socket) is the record \<open>router_os\<close>; the effects that start-up has are returned as a
  list in their order.
\<close>

section \<open>Configuration\<close>

definition DEFAULT_PORT :: u16 where "DEFAULT_PORT = 9981"

text \<open>\<open>SocketAddr\<close> with an IPv4 address, and its \<open>Display\<close> text.\<close>

record SocketAddr =
  sa_ip :: "byte \<times> byte \<times> byte \<times> byte"
  sa_port :: u16

definition LOCALHOST :: "byte \<times> byte \<times> byte \<times> byte" where "LOCALHOST = (127, 0, 0, 1)"

fun show_socket_addr :: "SocketAddr \<Rightarrow> string" where
  "show_socket_addr a = (case sa_ip a of (b1, b2, b3, b4) \<Rightarrow>
     show_nat (unat b1) @ ''.'' @ show_nat (unat b2) @ ''.'' @ show_nat (unat b3) @ ''.'' @
     show_nat (unat b4) @ '':'' @ show_nat (unat (sa_port a)))"

text \<open>\<open>Path::join\<close> with a relative second component, on Unix.\<close>

definition path_join :: "string \<Rightarrow> string \<Rightarrow> string" where
  "path_join base rel = (if base = [] \<or> last base = CHR ''/'' then base @ rel else base @ ''/'' @ rel)"

record RouterConfig =
  cfg_protocol_key :: string
  cfg_port :: u16
  cfg_bind_addr :: SocketAddr
  cfg_home_dir :: string
  cfg_runtime_dir :: string
  cfg_log_path :: string
  cfg_lock_path :: string

definition parse_port :: "string option \<Rightarrow> RouterError + u16" where
  "parse_port value = (case value of
     Some raw \<Rightarrow> (case parse_unsigned (2 ^ 16) raw of
         None \<Rightarrow> Inl (InvalidPort raw)
       | Some n \<Rightarrow> if n = 0 then Inl (InvalidPort raw) else Inr (of_nat n))
   | None \<Rightarrow> Inr DEFAULT_PORT)"

text \<open>
  What start-up asks of the operating system. \<open>os_port_var\<close> is
  \<open>env::var(PORT_ENV_VAR).ok()\<close> and \<open>os_home_dir\<close> is \<open>dirs::home_dir()\<close>; the other
  fields are the error of the operation, if it fails.
\<close>

record router_os =
  os_port_var :: "string option"
  os_home_dir :: "string option"
  os_create_dir_all :: "string \<Rightarrow> string option"
  os_open_log :: "string \<Rightarrow> string option"
  os_write_log :: "string \<Rightarrow> string option"
  os_bind :: "SocketAddr \<Rightarrow> string option"

definition load :: "router_os \<Rightarrow> RouterError + RouterConfig" where
  "load os = and_then (parse_port (os_port_var os)) (\<lambda>port.
     let home_dir = (case os_home_dir os of Some h \<Rightarrow> h | None \<Rightarrow> ''.'');
         runtime_dir = path_join home_dir ''.multifrost'';
         log_path = path_join runtime_dir ''router.log'';
         lock_path = path_join runtime_dir ''router.lock''
     in and_then (validate_protocol_key PROTOCOL_KEY) (\<lambda>_. Inr
          \<lparr>cfg_protocol_key = PROTOCOL_KEY, cfg_port = port,
           cfg_bind_addr = \<lparr>sa_ip = LOCALHOST, sa_port = port\<rparr>, cfg_home_dir = home_dir,
           cfg_runtime_dir = runtime_dir, cfg_log_path = log_path, cfg_lock_path = lock_path\<rparr>))"

section \<open>Start-up\<close>

datatype startup_effect =
    CreateDir string
  | OpenLog string
  | WriteLog string
  | Bind SocketAddr

definition os_try :: "string option \<Rightarrow> RouterError + unit" where
  "os_try failure = (case failure of None \<Rightarrow> Inr () | Some msg \<Rightarrow> Inl (Io msg))"

definition ensure_runtime_dir :: "router_os \<Rightarrow> RouterConfig \<Rightarrow> RouterError + unit" where
  "ensure_runtime_dir os config = os_try (os_create_dir_all os (cfg_runtime_dir config))"

definition startup_line :: "RouterConfig \<Rightarrow> string" where
  "startup_line config = ''multifrost-router starting on '' @ show_socket_addr (cfg_bind_addr config) @ [CHR 0x0A]"

text \<open>
  \<open>run\<close> up to the call of \<open>serve\<close>: the result is the error that ends the process or
  the bound address with the fresh registry that \<open>serve\<close> gets. A failed operation
  has no effect of its own and none of the later ones.
\<close>

definition startup :: "router_os \<Rightarrow> (RouterError + SocketAddr \<times> PeerRegistry) \<times> startup_effect list" where
  "startup os = (case load os of
     Inl err \<Rightarrow> (Inl err, [])
   | Inr config \<Rightarrow> (case ensure_runtime_dir os config of
       Inl err \<Rightarrow> (Inl err, [])
     | Inr _ \<Rightarrow> (case os_try (os_open_log os (cfg_log_path config)) of
         Inl err \<Rightarrow> (Inl err, [CreateDir (cfg_runtime_dir config)])
       | Inr _ \<Rightarrow> (case os_try (os_write_log os (startup_line config)) of
           Inl err \<Rightarrow> (Inl err, [CreateDir (cfg_runtime_dir config), OpenLog (cfg_log_path config)])
         | Inr _ \<Rightarrow> (case os_try (os_bind os (cfg_bind_addr config)) of
             Inl err \<Rightarrow> (Inl err, [CreateDir (cfg_runtime_dir config), OpenLog (cfg_log_path config),
                WriteLog (startup_line config)])
           | Inr _ \<Rightarrow> (Inr (cfg_bind_addr config, new_registry),
                [CreateDir (cfg_runtime_dir config), OpenLog (cfg_log_path config),
                 WriteLog (startup_line config), Bind (cfg_bind_addr config)]))))))"

section \<open>Properties\<close>

lemma parse_port_nonzero: "parse_port v = Inr p \<Longrightarrow> p \<noteq> 0"
proof -
  assume p: "parse_port v = Inr p"
  show ?thesis
  proof (cases v)
    case None
    then show ?thesis using p by (simp add: parse_port_def DEFAULT_PORT_def)
  next
    case (Some raw)
    then obtain n where n: "parse_unsigned (2 ^ 16) raw = Some n" "n \<noteq> 0" "p = of_nat n"
      using p by (auto simp: parse_port_def split: option.splits if_splits)
    then have "n < 2 ^ 16" using parse_unsigned_bound by blast
    then have "unat p = n" using n(3) by (simp add: unat_of_nat)
    then show ?thesis using n(2) by auto
  qed
qed

text \<open>
  C25: the port setting. A text is accepted exactly if it consists of decimal digits, with or
  without a plus sign in front and with any leading zeros, whose value is from 1 to 65535;
  the port is that value. Every other text (empty, with a blank or a minus sign, zero, too
  large) is refused with the text in the error. The decimal text of a number is accepted
  exactly for the ports 1 to 65535 and gives that port, and no setting means 9981.
\<close>

theorem parse_port_decimal:
  "(parse_port (Some raw) = Inr port \<longleftrightarrow>
      (\<exists>ds. (raw = ds \<or> raw = ''+'' @ ds) \<and> ds \<noteq> [] \<and> list_all is_digit ds \<and>
        0 < digits_val ds \<and> digits_val ds \<le> 65535 \<and> port = of_nat (digits_val ds))) \<and>
   (parse_port (Some raw) = Inl (InvalidPort raw) \<longleftrightarrow>
      (\<nexists>ds. (raw = ds \<or> raw = ''+'' @ ds) \<and> ds \<noteq> [] \<and> list_all is_digit ds \<and>
        0 < digits_val ds \<and> digits_val ds \<le> 65535)) \<and>
   parse_port (Some (show_nat n)) =
     (if 0 < n \<and> n < 65536 then Inr (of_nat n) else Inl (InvalidPort (show_nat n))) \<and>
   parse_port None = Inr 9981"
proof (intro conjI)
  have accepted: "parse_port (Some raw) = Inr port \<longleftrightarrow>
      (\<exists>n. parse_unsigned 65536 raw = Some n \<and> 0 < n \<and> port = of_nat n)" for raw port
    by (auto simp: parse_port_def split: option.splits)
  have refused: "parse_port (Some raw) = Inl (InvalidPort raw) \<longleftrightarrow>
      (\<nexists>n. parse_unsigned 65536 raw = Some n \<and> 0 < n)" for raw
    by (auto simp: parse_port_def split: option.splits)
  show "parse_port (Some raw) = Inr port \<longleftrightarrow>
      (\<exists>ds. (raw = ds \<or> raw = ''+'' @ ds) \<and> ds \<noteq> [] \<and> list_all is_digit ds \<and>
        0 < digits_val ds \<and> digits_val ds \<le> 65535 \<and> port = of_nat (digits_val ds))"
    unfolding accepted parse_unsigned_iff by force
  show "parse_port (Some raw) = Inl (InvalidPort raw) \<longleftrightarrow>
      (\<nexists>ds. (raw = ds \<or> raw = ''+'' @ ds) \<and> ds \<noteq> [] \<and> list_all is_digit ds \<and>
        0 < digits_val ds \<and> digits_val ds \<le> 65535)"
    unfolding refused parse_unsigned_iff by force
  obtain c cs where cs: "show_nat n = c # cs" "is_digit c"
    using show_nat_digits [of n] by (cases "show_nat n") auto
  then have plus: "c \<noteq> CHR ''+''" by (auto simp: is_digit_def)
  have big: "parse_unsigned 65536 (show_nat n) = None" if "\<not> n < 65536"
    using that cs plus digits_val_show_nat [of n] by (simp add: parse_unsigned_def Let_def)
  show "parse_port (Some (show_nat n)) =
      (if 0 < n \<and> n < 65536 then Inr (of_nat n) else Inl (InvalidPort (show_nat n)))"
    using parse_show_nat [of n 65536] big by (cases "n < 65536") (simp_all add: parse_port_def)
qed (simp add: parse_port_def DEFAULT_PORT_def)

text \<open>
  C24: the router serves only after every start-up step succeeded. When \<open>startup\<close>
  hands over to \<open>serve\<close>, it listens on 127.0.0.1 at a port other than 0, the registry
  is empty, and the effects were, in this order: the runtime directory under the home
  directory was created, its log opened and one line written, the address bound. When
  any step fails nothing is bound.
\<close>

theorem startup_binds_last:
  "case startup os of
     (Inr (addr, peers), effects) \<Rightarrow> sa_ip addr = (127, 0, 0, 1) \<and> sa_port addr \<noteq> 0 \<and>
       parse_port (os_port_var os) = Inr (sa_port addr) \<and> peers = new_registry \<and>
       (\<exists>dir line. effects = [CreateDir dir, OpenLog (dir @ ''/router.log''), WriteLog line, Bind addr] \<and>
          dir = path_join (case os_home_dir os of Some h \<Rightarrow> h | None \<Rightarrow> ''.'') ''.multifrost'')
   | (Inl err, effects) \<Rightarrow> (\<forall>addr. Bind addr \<notin> set effects)"
proof -
  have dir: "path_join (path_join h ''.multifrost'') ''router.log'' = path_join h ''.multifrost'' @ ''/router.log''" for h
    by (simp add: path_join_def)
  show ?thesis
  proof (cases "parse_port (os_port_var os)")
    case (Inl e)
    then show ?thesis by (simp add: startup_def load_def)
  next
    case (Inr p)
    then show ?thesis
      using parse_port_nonzero [OF Inr]
      by (auto simp: startup_def load_def Let_def validate_protocol_key_def LOCALHOST_def dir
          split: sum.splits)
  qed
qed

end
