(* ===== verification/Prog.thy ===== *)
theory Prog
  imports MF_Prelude
begin

text \<open>
  Asynchronous Rust code as resumptions. A task is a finite tree of atomic actions on
  the shared state: every \<open>await\<close> of the source that touches shared state (a lock
  taken and released, a frame handed to a socket) is one \<open>Act\<close>, and other tasks may
  run between two of them. \<open>run\<close> is the task executed with no interleaving; \<open>guar\<close>
  says what every single action of a task does whatever the other tasks did before it.
\<close>

datatype (dead 's, 'a) prog = Ret 'a | Act "'s \<Rightarrow> ('s, 'a) prog \<times> 's"

definition act :: "('s \<Rightarrow> 'a \<times> 's) \<Rightarrow> ('s, 'a) prog" where
  "act f = Act (\<lambda>s. (Ret (fst (f s)), snd (f s)))"

primrec pbind :: "('s, 'a) prog \<Rightarrow> ('a \<Rightarrow> ('s, 'b) prog) \<Rightarrow> ('s, 'b) prog" where
  "pbind (Ret a) f = f a"
| "pbind (Act g) f = Act (\<lambda>s. map_prod (\<lambda>p. pbind p f) id (g s))"

text \<open>\<open>m.await?\<close>: an error of \<open>m\<close> is the result of the enclosing function.\<close>

definition ptry :: "('s, 'e + 'a) prog \<Rightarrow> ('a \<Rightarrow> ('s, 'e + 'b) prog) \<Rightarrow> ('s, 'e + 'b) prog" where
  "ptry m f = pbind m (\<lambda>r. case r of Inl e \<Rightarrow> Ret (Inl e) | Inr x \<Rightarrow> f x)"

text \<open>\<open>r?\<close> for a result that is already there.\<close>

definition plift :: "'e + 'a \<Rightarrow> ('a \<Rightarrow> ('s, 'e + 'b) prog) \<Rightarrow> ('s, 'e + 'b) prog" where
  "plift r f = (case r of Inl e \<Rightarrow> Ret (Inl e) | Inr x \<Rightarrow> f x)"

primrec run :: "('s, 'a) prog \<Rightarrow> 's \<Rightarrow> 'a \<times> 's" where
  "run (Ret a) = (\<lambda>s. (a, s))"
| "run (Act g) = (\<lambda>s. case map_prod run id (g s) of (k, t) \<Rightarrow> k t)"

named_theorems prog_simps \<open>evaluation of resumptions\<close>

lemma run_Act [simp, prog_simps]: "run (Act g) s = run (fst (g s)) (snd (g s))"
  by (simp add: split_beta)

declare run.simps(2) [simp del]

lemma run_act [simp, prog_simps]: "run (act f) s = f s"
  by (simp add: act_def)

lemma run_pbind [simp, prog_simps]:
  "run (pbind p f) s = run (f (fst (run p s))) (snd (run p s))"
proof (induction p arbitrary: s)
  case (Ret a)
  then show ?case by simp
next
  case (Act g)
  then show ?case
    by (simp add: Act.IH [of "g s" "fst (g s)"] fsts.intros)
qed

lemma ptry_run [prog_simps]:
  "run (ptry m f) s =
     (case fst (run m s) of Inl e \<Rightarrow> (Inl e, snd (run m s)) | Inr x \<Rightarrow> run (f x) (snd (run m s)))"
  by (simp add: ptry_def split: sum.splits)

lemma plift_simps [simp, prog_simps]:
  "plift (Inl e) f = Ret (Inl e)" "plift (Inr x) f = f x"
  by (simp_all add: plift_def)

lemma plift_run [prog_simps]:
  "run (plift r f) s = (case r of Inl e \<Rightarrow> (Inl e, s) | Inr x \<Rightarrow> run (f x) s)"
  by (cases r) simp_all

section \<open>What the actions of a task guarantee\<close>

inductive guar :: "('s \<Rightarrow> 's \<Rightarrow> bool) \<Rightarrow> ('a \<Rightarrow> bool) \<Rightarrow> ('s, 'a) prog \<Rightarrow> bool"
  for G :: "'s \<Rightarrow> 's \<Rightarrow> bool" and Q :: "'a \<Rightarrow> bool" where
  guar_Ret: "Q a \<Longrightarrow> guar G Q (Ret a)"
| guar_Act: "(\<And>s. G s (snd (g s)) \<and> guar G Q (fst (g s))) \<Longrightarrow> guar G Q (Act g)"

inductive_simps guar_Ret_iff [simp]: "guar G Q (Ret a)"
inductive_simps guar_Act_iff: "guar G Q (Act g)"

lemma guar_act [simp]: "guar G Q (act f) \<longleftrightarrow> (\<forall>s. G s (snd (f s)) \<and> Q (fst (f s)))"
  by (simp add: act_def guar_Act_iff)

lemma guar_mono:
  assumes "guar G Q p" and "\<And>s t. G s t \<Longrightarrow> G' s t" and "\<And>a. Q a \<Longrightarrow> Q' a"
  shows "guar G' Q' p"
  using assms(1)
proof (induction rule: guar.induct)
  case (guar_Ret a)
  then show ?case using assms(3) by simp
next
  case (guar_Act g)
  then show ?case using assms(2) by (simp add: guar_Act_iff)
qed

lemma guar_pbind:
  assumes "guar G P p" and "\<And>a. P a \<Longrightarrow> guar G Q (f a)"
  shows "guar G Q (pbind p f)"
  using assms(1)
proof (induction rule: guar.induct)
  case (guar_Ret a)
  then show ?case using assms(2) by simp
next
  case (guar_Act g)
  then show ?case by (simp add: guar_Act_iff)
qed

lemma guar_ptry:
  assumes "guar G (\<lambda>r. case r of Inl e \<Rightarrow> Q (Inl e) | Inr x \<Rightarrow> P x) m"
    and "\<And>x. P x \<Longrightarrow> guar G Q (f x)"
  shows "guar G Q (ptry m f)"
  unfolding ptry_def
  by (rule guar_pbind [OF assms(1)]) (auto split: sum.splits intro: assms(2))

lemma guar_plift:
  assumes "\<And>e. r = Inl e \<Longrightarrow> Q (Inl e)" and "\<And>x. r = Inr x \<Longrightarrow> guar G Q (f x)"
  shows "guar G Q (plift r f)"
  using assms by (cases r) simp_all

text \<open>A guarantee about single actions carries over to the uninterrupted run.\<close>

lemma guar_run:
  assumes "guar G Q p" and "\<And>s. G s s" and "\<And>s t u. G s t \<Longrightarrow> G t u \<Longrightarrow> G s u"
  shows "G s (snd (run p s)) \<and> Q (fst (run p s))"
  using assms(1)
proof (induction arbitrary: s rule: guar.induct)
  case (guar_Ret a)
  then show ?case using assms(2) by simp
next
  case (guar_Act g)
  then show ?case using assms(3) by simp blast
qed

end
