(* ===== verification/Router_Server.thy ===== *)
theory Router_Server
  imports Router_Registry Prog
begin

text \<open>
  router/src/server.rs: the registration handshake, the per-connection message loop and
  its handlers, as resumptions over the shared world (registry, sockets, clocks).
  Each registry call and each socket send is one atomic action. A connection is
  identified by its sink.
\<close>

section \<open>The shared world\<close>

text \<open>
  \<open>w_sent\<close> is the log of binary frames handed to sockets. Whether a socket accepts a
  frame is decided by the transport: \<open>w_send_err\<close> gives its error, if any.
  \<open>w_clock\<close> is the time since the UNIX epoch, absent if the clock is before it.
\<close>

record World =
  w_peers :: PeerRegistry
  w_sent :: "(sink \<times> bytes) list"
  w_send_err :: "sink \<Rightarrow> bytes \<Rightarrow> string option"
  w_instant :: instant
  w_clock :: "f64 option"

type_synonym 'a task = "(World, 'a) prog"

definition reg_insert :: "string \<Rightarrow> PeerClass \<Rightarrow> sink \<Rightarrow> (RouterError + unit) task" where
  "reg_insert pid class sink = act (\<lambda>w.
     case insert_live_peer (w_instant w) pid class sink (w_peers w) of
       (r, peers) \<Rightarrow> (r, w\<lparr>w_peers := peers\<rparr>))"

definition reg_lookup :: "string \<Rightarrow> PeerSnapshot option task" where
  "reg_lookup pid = act (\<lambda>w. (lookup_by_peer_id pid (w_peers w), w))"

definition reg_sender :: "string \<Rightarrow> sink option task" where
  "reg_sender pid = act (\<lambda>w. (sender_by_peer_id pid (w_peers w), w))"

definition reg_remove :: "string \<Rightarrow> PeerSnapshot option task" where
  "reg_remove pid = act (\<lambda>w.
     case remove_by_peer_id pid (w_peers w) of (r, peers) \<Rightarrow> (r, w\<lparr>w_peers := peers\<rparr>))"

definition reg_exists :: "string \<Rightarrow> bool task" where
  "reg_exists pid = act (\<lambda>w. (snapshot_peer_exists pid (w_peers w), w))"

definition reg_class_of :: "string \<Rightarrow> PeerClass option task" where
  "reg_class_of pid = act (\<lambda>w. (snapshot_peer_class pid (w_peers w), w))"

definition reg_heartbeat :: "string \<Rightarrow> unit task" where
  "reg_heartbeat pid = act (\<lambda>w. ((), w\<lparr>w_peers := mark_heartbeat (w_instant w) pid (w_peers w)\<rparr>))"

definition now_ts :: "f64 task" where
  "now_ts = act (\<lambda>w. (case w_clock w of Some t \<Rightarrow> t | None \<Rightarrow> 0, w))"

definition send_raw :: "sink \<Rightarrow> bytes \<Rightarrow> (RouterError + unit) task" where
  "send_raw sink raw = act (\<lambda>w. case w_send_err w sink raw of
     None \<Rightarrow> (Inr (), w\<lparr>w_sent := w_sent w @ [(sink, raw)]\<rparr>)
   | Some err \<Rightarrow> (Inl (WebSocket err), w))"

definition send_frame :: "codec \<Rightarrow> sink \<Rightarrow> Envelope \<Rightarrow> bytes \<Rightarrow> (RouterError + unit) task" where
  "send_frame cd sink envelope body_bytes =
     plift (encode_frame cd envelope body_bytes) (\<lambda>frame. send_raw sink frame)"

section \<open>Router-made messages\<close>

definition build_envelope :: "string \<Rightarrow> string \<Rightarrow> string \<Rightarrow> string \<Rightarrow> f64 \<Rightarrow> Envelope" where
  "build_envelope kind msg_id from to ts =
     \<lparr>env_v = PROTOCOL_VERSION, env_kind = kind, env_msg_id = msg_id, env_from = from,
      env_to = to, env_ts = ts\<rparr>"

definition build_ack_body :: RegisterAckBody where
  "build_ack_body = \<lparr>ack_accepted = True, ack_reason = None\<rparr>"

definition build_error_body :: "string \<Rightarrow> string \<Rightarrow> ErrorBody" where
  "build_error_body code message =
     \<lparr>err_code = code, err_message = message, err_kind = ''router'', err_stack = None,
      err_details = None\<rparr>"

definition send_register_ack :: "codec \<Rightarrow> sink \<Rightarrow> string \<Rightarrow> RegisterBody \<Rightarrow> (RouterError + unit) task" where
  "send_register_ack cd sink msg_id register =
     pbind now_ts (\<lambda>ts.
       plift (encode_register_ack_body cd build_ack_body) (\<lambda>body.
         send_frame cd sink
           (build_envelope KIND_RESPONSE msg_id ROUTER_PEER_ID (reg_peer_id register) ts) body))"

definition send_error_and_close ::
    "codec \<Rightarrow> sink \<Rightarrow> string \<Rightarrow> string \<Rightarrow> string \<Rightarrow> (RouterError + unit) task" where
  "send_error_and_close cd sink msg_id code message =
     pbind now_ts (\<lambda>ts.
       plift (encode_error_body cd (build_error_body code message)) (\<lambda>body.
         send_frame cd sink
           (build_envelope KIND_ERROR msg_id ROUTER_PEER_ID ROUTER_PEER_ID ts) body))"

definition send_peer_error ::
    "codec \<Rightarrow> sink \<Rightarrow> string \<Rightarrow> string \<Rightarrow> string \<Rightarrow> (RouterError + unit) task" where
  "send_peer_error cd sink msg_id code message =
     pbind now_ts (\<lambda>ts.
       plift (encode_error_body cd (build_error_body code message)) (\<lambda>body.
         send_frame cd sink
           (build_envelope KIND_ERROR msg_id ROUTER_PEER_ID ROUTER_PEER_ID ts) body))"

section \<open>Routing\<close>

datatype RouteTargetDecision = Deliver | Reject string string

definition decide_route_target :: "string \<Rightarrow> PeerClass option \<Rightarrow> RouteTargetDecision" where
  "decide_route_target kind target_class = (case target_class of
     None \<Rightarrow> Reject ''peer_not_found'' (kind @ '' target not found'')
   | Some c \<Rightarrow>
       if c = Caller \<and> kind = KIND_CALL
       then Reject ''invalid_target_class'' ''invalid target class''
       else if c = Service \<and> kind = KIND_RESPONSE
       then Reject ''invalid_target_class'' ''responses must target a caller peer''
       else if c = Service \<and> kind = KIND_ERROR
       then Reject ''invalid_target_class'' ''errors must target a caller peer''
       else Deliver)"

definition route_to_target ::
    "codec \<Rightarrow> Envelope \<Rightarrow> bytes \<Rightarrow> sink \<Rightarrow> string \<Rightarrow> (RouterError + unit) task" where
  "route_to_target cd envelope raw sink kind =
     pbind (reg_exists (env_to envelope)) (\<lambda>ex.
       if \<not> ex
       then ptry (send_peer_error cd sink (env_msg_id envelope) ''peer_not_found''
                   (kind @ '' target not found'')) (\<lambda>_. Ret (Inr ()))
       else pbind (reg_sender (env_to envelope)) (\<lambda>target. case target of
         None \<Rightarrow> ptry (send_peer_error cd sink (env_msg_id envelope) ''peer_not_found''
                   (kind @ '' target not found'')) (\<lambda>_. Ret (Inr ()))
       | Some target_sink \<Rightarrow>
           pbind (send_raw target_sink raw) (\<lambda>r. case r of
             Inr _ \<Rightarrow> Ret (Inr ())
           | Inl _ \<Rightarrow>
               pbind (reg_remove (env_to envelope)) (\<lambda>_.
                 send_peer_error cd sink (env_msg_id envelope) ''peer_not_found''
                   (kind @ '' target disconnected'')))))"

definition route_or_error ::
    "codec \<Rightarrow> Envelope \<Rightarrow> bytes \<Rightarrow> string \<Rightarrow> sink \<Rightarrow> (RouterError + unit) task" where
  "route_or_error cd envelope raw kind sink =
     pbind (reg_class_of (env_to envelope)) (\<lambda>cls. case decide_route_target kind cls of
       Deliver \<Rightarrow> ptry (route_to_target cd envelope raw sink kind) (\<lambda>_. Ret (Inr ()))
     | Reject code message \<Rightarrow>
         ptry (send_peer_error cd sink (env_msg_id envelope) code message) (\<lambda>_. Ret (Inr ())))"

section \<open>Handlers\<close>

definition validate_register_envelope :: "Envelope \<Rightarrow> RegisterBody \<Rightarrow> RouterError + unit" where
  "validate_register_envelope envelope register =
     (if env_to envelope \<noteq> ROUTER_PEER_ID
      then Inl (MalformedRegisterBody ''register target must be router'')
      else if env_from envelope \<noteq> reg_peer_id register
      then Inl (MalformedRegisterBody ''register body peer_id must match envelope.from'')
      else Inr ())"

definition handle_query ::
    "codec \<Rightarrow> sink \<Rightarrow> string \<Rightarrow> Envelope \<Rightarrow> bytes \<Rightarrow> (RouterError + unit) task" where
  "handle_query cd sink current_peer_id envelope body_bytes =
     plift (decode_query_body cd body_bytes) (\<lambda>body.
       let respond = (\<lambda>response. send_frame cd sink
             \<lparr>env_v = env_v envelope, env_kind = KIND_RESPONSE, env_msg_id = env_msg_id envelope,
              env_from = ROUTER_PEER_ID, env_to = current_peer_id, env_ts = env_ts envelope\<rparr> response)
       in case body of
         PeerExists peer_id \<Rightarrow>
           pbind (reg_lookup peer_id) (\<lambda>snapshot.
             let ex = (snapshot \<noteq> None); class = map_option snap_class snapshot
             in plift (encode_query_exists_response cd peer_id ex class ex) respond)
       | PeerGet peer_id \<Rightarrow>
           pbind (reg_lookup peer_id) (\<lambda>snapshot.
             let ex = (snapshot \<noteq> None); class = map_option snap_class snapshot
             in plift (encode_query_get_response cd peer_id ex class
                  (case snapshot of Some s \<Rightarrow> snap_connected s | None \<Rightarrow> False)) respond))"

definition handle_call ::
    "codec \<Rightarrow> sink \<Rightarrow> PeerClass \<Rightarrow> Envelope \<Rightarrow> bytes \<Rightarrow> (RouterError + unit) task" where
  "handle_call cd sink current_class envelope raw =
     (if current_class \<noteq> Caller
      then ptry (send_peer_error cd sink (env_msg_id envelope) ''invalid_source_class''
                  ''call traffic must originate from a caller peer'') (\<lambda>_. Ret (Inr ()))
      else route_or_error cd envelope raw ''call'' sink)"

definition handle_response ::
    "codec \<Rightarrow> sink \<Rightarrow> PeerClass \<Rightarrow> Envelope \<Rightarrow> bytes \<Rightarrow> (RouterError + unit) task" where
  "handle_response cd sink current_class envelope raw =
     (if current_class \<noteq> Service
      then ptry (send_peer_error cd sink (env_msg_id envelope) ''invalid_source_class''
                  ''response traffic must originate from a service peer'') (\<lambda>_. Ret (Inr ()))
      else route_to_target cd envelope raw sink ''response'')"

definition handle_error ::
    "codec \<Rightarrow> sink \<Rightarrow> PeerClass \<Rightarrow> Envelope \<Rightarrow> bytes \<Rightarrow> (RouterError + unit) task" where
  "handle_error cd sink current_class envelope raw =
     (if current_class \<noteq> Service
      then ptry (send_peer_error cd sink (env_msg_id envelope) ''invalid_source_class''
                  ''error traffic must originate from a service peer'') (\<lambda>_. Ret (Inr ()))
      else route_or_error cd envelope raw ''error'' sink)"

definition handle_heartbeat ::
    "codec \<Rightarrow> sink \<Rightarrow> string \<Rightarrow> Envelope \<Rightarrow> bytes \<Rightarrow> (RouterError + unit) task" where
  "handle_heartbeat cd sink current_peer_id envelope raw =
     pbind (reg_heartbeat current_peer_id) (\<lambda>_.
       pbind (reg_exists (env_to envelope)) (\<lambda>ex.
         if ex then route_to_target cd envelope raw sink ''heartbeat''
         else plift (encode_register_ack_body cd build_ack_body) (\<lambda>body.
           send_frame cd sink (build_envelope KIND_HEARTBEAT (env_msg_id envelope) ROUTER_PEER_ID
             current_peer_id (env_ts envelope)) body)))"

definition handle_disconnect ::
    "codec \<Rightarrow> sink \<Rightarrow> string \<Rightarrow> Envelope \<Rightarrow> bytes \<Rightarrow> (RouterError + unit) task" where
  "handle_disconnect cd sink current_peer_id envelope body_bytes =
     pbind (reg_remove current_peer_id) (\<lambda>_.
       plift (encode_register_ack_body cd build_ack_body) (\<lambda>body.
         send_frame cd sink (build_envelope KIND_RESPONSE (env_msg_id envelope) ROUTER_PEER_ID
           current_peer_id (env_ts envelope)) body))"

section \<open>One connection\<close>

text \<open>
  The registration prologue of \<open>handle_connection\<close>. It returns the value of the
  local \<open>registered_peer_id\<close> together with the result: an error, an early
  \<open>return Ok(())\<close> (\<open>Inr None\<close>), or the identity with which the loop is entered.
\<close>

definition handshake ::
    "codec \<Rightarrow> sink \<Rightarrow> ws_item \<Rightarrow> (string option \<times> (RouterError + (string \<times> PeerClass) option)) task" where
  "handshake cd sink first = (case first of
     ItemErr err \<Rightarrow> Ret (None, Inl (WebSocket err))
   | ItemEnd \<Rightarrow> Ret (None, Inl ConnectionClosed)
   | ItemOk message \<Rightarrow>
      (case and_then (ensure_binary_ws_message message) (decode_frame cd) of
         Inl err \<Rightarrow> Ret (None, Inl err)
       | Inr frame \<Rightarrow>
          let envelope = fp_envelope frame in
          if env_kind envelope \<noteq> KIND_REGISTER
          then pbind (send_error_and_close cd sink (env_msg_id envelope) ''register.required''
                 ''first message must be register'')
               (\<lambda>r. case r of Inl err \<Rightarrow> Ret (None, Inl err) | Inr _ \<Rightarrow> Ret (None, Inr None))
          else
            case and_then (decode_register_body cd (fp_body_bytes frame)) (\<lambda>register.
                   and_then (validate_register_envelope envelope register) (\<lambda>_. Inr register)) of
              Inl err \<Rightarrow> Ret (None, Inl err)
            | Inr register \<Rightarrow>
                pbind (reg_insert (reg_peer_id register) (reg_class register) sink) (\<lambda>r. case r of
                  Inr _ \<Rightarrow>
                    pbind (send_register_ack cd sink (env_msg_id envelope) register) (\<lambda>a.
                      case a of
                        Inl err \<Rightarrow> Ret (Some (reg_peer_id register), Inl err)
                      | Inr _ \<Rightarrow> Ret (Some (reg_peer_id register),
                                   Inr (Some (reg_peer_id register, reg_class register))))
                | Inl err \<Rightarrow>
                    (case err of
                       DuplicatePeerId peer_id \<Rightarrow>
                         pbind (send_error_and_close cd sink (env_msg_id envelope)
                           ''duplicate_peer_id'' (''peer_id '' @ peer_id @ '' is already live''))
                         (\<lambda>a. case a of Inl e \<Rightarrow> Ret (None, Inl e) | Inr _ \<Rightarrow> Ret (None, Inr None))
                     | _ \<Rightarrow> Ret (None, Inl err)))))"

datatype loop_ctl = Continue | Break

definition dispatch_frame ::
    "codec \<Rightarrow> sink \<Rightarrow> string \<Rightarrow> PeerClass \<Rightarrow> bytes \<Rightarrow> (RouterError + loop_ctl) task" where
  "dispatch_frame cd sink peer_id peer_class raw =
     plift (decode_frame cd raw) (\<lambda>frame.
       let envelope = fp_envelope frame; body_bytes = fp_body_bytes frame; kind = env_kind envelope
       in
       if env_from envelope \<noteq> peer_id
       then ptry (send_peer_error cd sink (env_msg_id envelope) ''invalid_source''
                   ''envelope.from does not match registered peer'') (\<lambda>_. Ret (Inr Continue))
       else if kind = KIND_QUERY
       then ptry (handle_query cd sink peer_id envelope body_bytes) (\<lambda>_. Ret (Inr Continue))
       else if kind = KIND_CALL
       then ptry (handle_call cd sink peer_class envelope raw) (\<lambda>_. Ret (Inr Continue))
       else if kind = KIND_RESPONSE
       then ptry (handle_response cd sink peer_class envelope raw) (\<lambda>_. Ret (Inr Continue))
       else if kind = KIND_ERROR
       then ptry (handle_error cd sink peer_class envelope raw) (\<lambda>_. Ret (Inr Continue))
       else if kind = KIND_HEARTBEAT
       then ptry (handle_heartbeat cd sink peer_id envelope raw) (\<lambda>_. Ret (Inr Continue))
       else if kind = KIND_DISCONNECT
       then ptry (handle_disconnect cd sink peer_id envelope body_bytes) (\<lambda>_. Ret (Inr Break))
       else ptry (send_peer_error cd sink (env_msg_id envelope) ''unsupported_kind''
                   (''unsupported message kind: '' @ kind)) (\<lambda>_. Ret (Inr Continue)))"

text \<open>The body of the \<open>while let Some(message) = source.next().await\<close> loop.\<close>

fun loop_body :: "codec \<Rightarrow> sink \<Rightarrow> string \<Rightarrow> PeerClass \<Rightarrow> ws_item \<Rightarrow> (RouterError + loop_ctl) task" where
  "loop_body cd sink peer_id peer_class (ItemOk (Binary raw)) =
     dispatch_frame cd sink peer_id peer_class raw"
| "loop_body cd sink peer_id peer_class (ItemOk Close) = Ret (Inr Break)"
| "loop_body cd sink peer_id peer_class (ItemOk (Ping _)) = Ret (Inr Continue)"
| "loop_body cd sink peer_id peer_class (ItemOk (Pong _)) = Ret (Inr Continue)"
| "loop_body cd sink peer_id peer_class (ItemOk _) =
     ptry (send_peer_error cd sink ''unknown'' ''non_binary_message''
       ''router only accepts binary websocket messages'') (\<lambda>_. Ret (Inr Break))"
| "loop_body cd sink peer_id peer_class (ItemErr err) = Ret (Inl (WebSocket err))"
| "loop_body cd sink peer_id peer_class ItemEnd = Ret (Inr Break)"

fun message_loop ::
    "codec \<Rightarrow> sink \<Rightarrow> string \<Rightarrow> PeerClass \<Rightarrow> ws_item list \<Rightarrow> (RouterError + unit) task" where
  "message_loop cd sink peer_id peer_class [] = Ret (Inr ())"
| "message_loop cd sink peer_id peer_class (item # items) =
     ptry (loop_body cd sink peer_id peer_class item) (\<lambda>ctl. case ctl of
       Break \<Rightarrow> Ret (Inr ())
     | Continue \<Rightarrow> message_loop cd sink peer_id peer_class items)"

definition cleanup :: "string option \<Rightarrow> 'a \<Rightarrow> 'a task" where
  "cleanup registered_peer_id result = (case registered_peer_id of
     None \<Rightarrow> Ret result
   | Some peer_id \<Rightarrow> pbind (reg_remove peer_id) (\<lambda>_. Ret result))"

text \<open>
  A whole connection that receives \<open>items\<close> and then the end of the stream.
\<close>

definition handle_connection :: "codec \<Rightarrow> sink \<Rightarrow> ws_item list \<Rightarrow> (RouterError + unit) task" where
  "handle_connection cd sink items =
     pbind (handshake cd sink (case items of [] \<Rightarrow> ItemEnd | i # _ \<Rightarrow> i)) (\<lambda>(registered_peer_id, start).
       pbind (case start of
                Inl err \<Rightarrow> Ret (Inl err)
              | Inr None \<Rightarrow> Ret (Inr ())
              | Inr (Some (peer_id, peer_class)) \<Rightarrow>
                  message_loop cd sink peer_id peer_class (tl items))
         (cleanup registered_peer_id))"

end
