(* ===== verification/Msgpack.thy ===== *)
theory Msgpack
  imports Router_Protocol
begin

text \<open>
  A reference MessagePack codec for the protocol's messages: structs as maps with named
  fields in declaration order, strings as fixstr or str32, \<open>u32\<close> as fixint or uint32,
  \<open>f64\<close> as float64, absent options as nil. It is not a model of a file of the
  repository: it is the concrete instance at which the hypotheses on the serialisation
  library are shown to hold, and with which concrete runs are evaluated. Structured
  values (arrays and objects nested in call arguments, error details) are refused by it.
\<close>

type_synonym 'a parser = "bytes \<Rightarrow> ('a \<times> bytes) option"

definition parses :: "('a \<Rightarrow> bytes) \<Rightarrow> 'a parser \<Rightarrow> ('a \<Rightarrow> bool) \<Rightarrow> bool" where
  "parses pr pa ok \<longleftrightarrow> (\<forall>x r. ok x \<longrightarrow> pa (pr x @ r) = Some (x, r))"

named_theorems mp_parses \<open>printer and parser agree\<close>

lemma parsesD: "parses pr pa ok \<Longrightarrow> ok x \<Longrightarrow> pa (pr x @ r) = Some (x, r)"
  by (simp add: parses_def)

definition expect :: "bytes \<Rightarrow> (bytes \<Rightarrow> ('a \<times> bytes) option) \<Rightarrow> bytes \<Rightarrow> ('a \<times> bytes) option" where
  "expect ks k bs = (if take (length ks) bs = ks then k (drop (length ks) bs) else None)"

definition pthen :: "'a parser \<Rightarrow> ('a \<Rightarrow> bytes \<Rightarrow> ('b \<times> bytes) option) \<Rightarrow> 'b parser" where
  "pthen p k bs = (case p bs of None \<Rightarrow> None | Some (x, r) \<Rightarrow> k x r)"

lemma expect_app [simp]: "expect ks k (ks @ r) = k r"
  by (simp add: expect_def)

lemma pthen_Some: "p bs = Some (x, r) \<Longrightarrow> pthen p k bs = k x r"
  by (simp add: pthen_def)

section \<open>Scalars\<close>

definition mp_char :: "char \<Rightarrow> byte" where "mp_char c = of_nat (of_char c)"
definition char_of_byte :: "byte \<Rightarrow> char" where "char_of_byte b = char_of (unat b)"

lemma char_byte [simp]: "char_of_byte (mp_char c) = c"
proof -
  have "(of_char c :: nat) < 256" by simp
  then show ?thesis by (simp add: char_of_byte_def mp_char_def unat_of_nat)
qed

lemma char_byte_comp [simp]: "char_of_byte \<circ> mp_char = id"
  by (simp add: comp_def id_def)

definition mp_str :: "string \<Rightarrow> bytes" where
  "mp_str s = (if length s < 32 then [of_nat (160 + length s)]
               else 0xdb # to_be_bytes (of_nat (length s))) @ map mp_char s"

definition take_str :: "nat \<Rightarrow> string parser" where
  "take_str n bs = (if n \<le> length bs then Some (map char_of_byte (take n bs), drop n bs) else None)"

definition rd_str :: "string parser" where
  "rd_str bs = (case bs of [] \<Rightarrow> None | b # r \<Rightarrow>
     if 160 \<le> unat b \<and> unat b < 192 then take_str (unat b - 160) r
     else if b = 0xdb \<and> 4 \<le> length r then take_str (unat (from_be_bytes (take 4 r))) (drop 4 r)
     else None)"

definition str_ok :: "string \<Rightarrow> bool" where "str_ok s \<longleftrightarrow> int (length s) < 2 ^ 32"

lemma take_str_app [simp]: "n = length s \<Longrightarrow> take_str n (map mp_char s @ r) = Some (s, r)"
  by (simp add: take_str_def)

lemma parses_str [mp_parses]: "parses mp_str rd_str str_ok"
  unfolding parses_def
proof (intro allI impI)
  fix s :: string and r
  assume "str_ok s"
  show "rd_str (mp_str s @ r) = Some (s, r)"
  proof (cases "length s < 32")
    case True
    then show ?thesis by (simp add: rd_str_def mp_str_def unat_of_nat del: of_nat_add)
  next
    case False
    with \<open>str_ok s\<close> show ?thesis
      by (simp add: rd_str_def mp_str_def str_ok_def unat_of_nat)
  qed
qed

definition mp_u32 :: "u32 \<Rightarrow> bytes" where
  "mp_u32 n = (if unat n < 128 then [of_nat (unat n)] else 0xce # to_be_bytes n)"

definition rd_u32 :: "u32 parser" where
  "rd_u32 bs = (case bs of [] \<Rightarrow> None | b # r \<Rightarrow>
     if unat b < 128 then Some (of_nat (unat b), r)
     else if b = 0xce \<and> 4 \<le> length r then Some (from_be_bytes (take 4 r), drop 4 r)
     else None)"

lemma parses_u32 [mp_parses]: "parses mp_u32 rd_u32 (\<lambda>_. True)"
  unfolding parses_def
proof (intro allI impI)
  fix n :: u32 and r
  have "unat n < 128 \<Longrightarrow> unat (of_nat (unat n) :: byte) = unat n"
    by (simp add: unat_of_nat del: of_nat_unat)
  then show "rd_u32 (mp_u32 n @ r) = Some (n, r)"
    by (cases "unat n < 128") (simp_all add: rd_u32_def mp_u32_def)
qed

definition mp_u64 :: "64 word \<Rightarrow> bytes" where
  "mp_u64 w = to_be_bytes (of_nat (unat w div 2 ^ 32)) @ to_be_bytes (of_nat (unat w mod 2 ^ 32))"

definition rd_u64 :: "64 word parser" where
  "rd_u64 bs = (if 8 \<le> length bs
     then Some (of_nat (unat (from_be_bytes (take 4 bs)) * 2 ^ 32 + unat (from_be_bytes (take 4 (drop 4 bs)))),
                drop 8 bs)
     else None)"

lemma parses_u64 [mp_parses]: "parses mp_u64 rd_u64 (\<lambda>_. True)"
  unfolding parses_def
proof (intro allI impI)
  fix w :: "64 word" and r
  have "unat w < 2 ^ 64" using unsigned_less [of w] by simp
  then have hi: "unat (of_nat (unat w div 2 ^ 32) :: u32) = unat w div 2 ^ 32"
    by (simp add: unat_of_nat less_mult_imp_div_less)
  have lo: "unat (of_nat (unat w mod 2 ^ 32) :: u32) = unat w mod 2 ^ 32"
    by (simp add: unat_of_nat)
  have eight: "drop 8 (mp_u64 w @ r) = r" "8 \<le> length (mp_u64 w @ r)"
    by (simp_all add: mp_u64_def)
  have "take 4 (mp_u64 w @ r) = to_be_bytes (of_nat (unat w div 2 ^ 32))"
    "take 4 (drop 4 (mp_u64 w @ r)) = to_be_bytes (of_nat (unat w mod 2 ^ 32))"
    by (simp_all add: mp_u64_def)
  then show "rd_u64 (mp_u64 w @ r) = Some (w, r)"
    unfolding rd_u64_def using eight hi lo by (simp only: from_to_be_bytes) simp
qed

definition mp_bool :: "bool \<Rightarrow> bytes" where "mp_bool b = [if b then 0xc3 else 0xc2]"

definition rd_bool :: "bool parser" where
  "rd_bool bs = (case bs of b # r \<Rightarrow>
     if b = 0xc3 then Some (True, r) else if b = 0xc2 then Some (False, r) else None
   | [] \<Rightarrow> None)"

lemma parses_bool [mp_parses]: "parses mp_bool rd_bool (\<lambda>_. True)"
  by (simp add: parses_def rd_bool_def mp_bool_def)

definition mp_opt :: "('a \<Rightarrow> bytes) \<Rightarrow> 'a option \<Rightarrow> bytes" where
  "mp_opt pr x = (case x of None \<Rightarrow> [0xc0] | Some y \<Rightarrow> pr y)"

definition rd_opt :: "'a parser \<Rightarrow> 'a option parser" where
  "rd_opt pa bs = (case bs of b # r \<Rightarrow> if b = 0xc0 then Some (None, r)
     else pthen pa (\<lambda>x r. Some (Some x, r)) bs | [] \<Rightarrow> None)"

definition class_str :: "PeerClass \<Rightarrow> bytes" where "class_str c = mp_str (as_str c)"

definition rd_class :: "PeerClass parser" where
  "rd_class = pthen rd_str (\<lambda>s r. if s = ''service'' then Some (Service, r)
     else if s = ''caller'' then Some (Caller, r) else None)"

definition opt_ok :: "('a \<Rightarrow> bool) \<Rightarrow> 'a option \<Rightarrow> bool" where
  "opt_ok ok x = (case x of None \<Rightarrow> True | Some y \<Rightarrow> ok y)"

lemma opt_ok_simps [simp]: "opt_ok ok None" "opt_ok ok (Some y) = ok y"
  by (simp_all add: opt_ok_def)

lemma parses_opt:
  assumes "parses pr pa ok" and "\<And>x. ok x \<Longrightarrow> pr x \<noteq> [] \<and> hd (pr x) \<noteq> 0xc0"
  shows "parses (mp_opt pr) (rd_opt pa) (opt_ok ok)"
  unfolding parses_def
proof (intro allI impI)
  fix x :: "'a option" and r
  assume ok: "opt_ok ok x"
  show "rd_opt pa (mp_opt pr x @ r) = Some (x, r)"
  proof (cases x)
    case None
    then show ?thesis by (simp add: rd_opt_def mp_opt_def)
  next
    case (Some y)
    with ok assms(2) [of y] obtain b bs where bs: "pr y = b # bs" "b \<noteq> 0xc0"
      by (cases "pr y") auto
    have "pa (pr y @ r) = Some (y, r)" using parsesD [OF assms(1)] ok Some by simp
    with Some bs show ?thesis by (simp add: rd_opt_def mp_opt_def pthen_def)
  qed
qed

lemma str_first: "mp_str s \<noteq> [] \<and> hd (mp_str s) \<noteq> 0xc0"
proof (cases "length s < 32")
  case True
  then have "unat (of_nat (160 + length s) :: byte) \<noteq> unat (0xc0 :: byte)"
    by (simp add: unat_of_nat del: of_nat_add)
  then have "(of_nat (160 + length s) :: byte) \<noteq> 0xc0" by metis
  with True show ?thesis by (simp add: mp_str_def)
qed (simp add: mp_str_def)

lemma parses_opt_str [mp_parses]: "parses (mp_opt mp_str) (rd_opt rd_str) (opt_ok str_ok)"
  by (rule parses_opt [OF parses_str]) (simp add: str_first)

lemma parses_class [mp_parses]: "parses class_str rd_class (\<lambda>_. True)"
  unfolding parses_def
proof (intro allI impI)
  fix c r
  have "str_ok (as_str c)" by (cases c) (simp_all add: str_ok_def)
  then have "rd_str (mp_str (as_str c) @ r) = Some (as_str c, r)" by (rule parsesD [OF parses_str])
  then show "rd_class (class_str c @ r) = Some (c, r)"
    by (cases c) (simp_all add: rd_class_def class_str_def pthen_def)
qed

lemma parses_opt_class [mp_parses]:
  "parses (mp_opt class_str) (rd_opt rd_class) (opt_ok (\<lambda>_. True))"
  by (rule parses_opt [OF parses_class]) (simp add: class_str_def str_first)

section \<open>Named fields\<close>

definition mp_f64 :: "f64 \<Rightarrow> bytes" where "mp_f64 w = 0xcb # mp_u64 w"
definition rd_f64 :: "f64 parser" where "rd_f64 = expect [0xcb] rd_u64"

lemma parses_f64 [mp_parses]: "parses mp_f64 rd_f64 (\<lambda>_. True)"
  using parses_u64 by (simp add: parses_def mp_f64_def rd_f64_def expect_def)

definition rd_field :: "string \<Rightarrow> 'a parser \<Rightarrow> ('a \<Rightarrow> 'b parser) \<Rightarrow> 'b parser" where
  "rd_field name pa k = expect (mp_str name) (pthen pa k)"

lemma rd_field_app:
  "parses pr pa ok \<Longrightarrow> ok x \<Longrightarrow> rd_field name pa k (mp_str name @ pr x @ r) = k x r"
  by (simp add: rd_field_def pthen_def parsesD)

lemmas rd_fields [simp] = rd_field_app [OF parses_str] rd_field_app [OF parses_u32]
  rd_field_app [OF parses_f64] rd_field_app [OF parses_bool] rd_field_app [OF parses_opt_str]
  rd_field_app [OF parses_class] rd_field_app [OF parses_opt_class]

lemma expect_hd [simp]: "expect [b] k (b # r) = k r"
  by (simp add: expect_def)

section \<open>Messages\<close>

definition mp_envelope :: "Envelope \<Rightarrow> bytes" where
  "mp_envelope e = 0x86 # mp_str ''v'' @ mp_u32 (env_v e) @ mp_str ''kind'' @ mp_str (env_kind e) @
     mp_str ''msg_id'' @ mp_str (env_msg_id e) @ mp_str ''from'' @ mp_str (env_from e) @
     mp_str ''to'' @ mp_str (env_to e) @ mp_str ''ts'' @ mp_f64 (env_ts e)"

definition rd_envelope :: "Envelope parser" where
  "rd_envelope = expect [0x86] (rd_field ''v'' rd_u32 (\<lambda>v. rd_field ''kind'' rd_str (\<lambda>kind.
     rd_field ''msg_id'' rd_str (\<lambda>msg_id. rd_field ''from'' rd_str (\<lambda>from.
     rd_field ''to'' rd_str (\<lambda>to. rd_field ''ts'' rd_f64 (\<lambda>ts r.
       Some (\<lparr>env_v = v, env_kind = kind, env_msg_id = msg_id, env_from = from, env_to = to,
              env_ts = ts\<rparr>, r))))))))"

definition envelope_ok :: "Envelope \<Rightarrow> bool" where
  "envelope_ok e \<longleftrightarrow> str_ok (env_kind e) \<and> str_ok (env_msg_id e) \<and> str_ok (env_from e) \<and> str_ok (env_to e)"

lemma parses_envelope: "parses mp_envelope rd_envelope envelope_ok"
  by (simp add: parses_def mp_envelope_def rd_envelope_def envelope_ok_def)

definition mp_register :: "RegisterBody \<Rightarrow> bytes" where
  "mp_register b = 0x82 # mp_str ''peer_id'' @ mp_str (reg_peer_id b) @ mp_str ''class'' @ class_str (reg_class b)"

definition rd_register :: "RegisterBody parser" where
  "rd_register = expect [0x82] (rd_field ''peer_id'' rd_str (\<lambda>pid. rd_field ''class'' rd_class (\<lambda>c r.
     Some (\<lparr>reg_peer_id = pid, reg_class = c\<rparr>, r))))"

lemma parses_register: "parses mp_register rd_register (\<lambda>b. str_ok (reg_peer_id b))"
  by (simp add: parses_def mp_register_def rd_register_def)

definition mp_ack :: "RegisterAckBody \<Rightarrow> bytes" where
  "mp_ack b = 0x82 # mp_str ''accepted'' @ mp_bool (ack_accepted b) @ mp_str ''reason'' @
     mp_opt mp_str (ack_reason b)"

definition rd_ack :: "RegisterAckBody parser" where
  "rd_ack = expect [0x82] (rd_field ''accepted'' rd_bool (\<lambda>a. rd_field ''reason'' (rd_opt rd_str) (\<lambda>m r.
     Some (\<lparr>ack_accepted = a, ack_reason = m\<rparr>, r))))"

lemma parses_ack: "parses mp_ack rd_ack (\<lambda>b. opt_ok str_ok (ack_reason b))"
  by (simp add: parses_def mp_ack_def rd_ack_def)

definition mp_query :: "QueryBody \<Rightarrow> bytes" where
  "mp_query b = (case b of
     PeerExists pid \<Rightarrow> 0x82 # mp_str ''query'' @ mp_str ''peer.exists'' @ mp_str ''peer_id'' @ mp_str pid
   | PeerGet pid \<Rightarrow> 0x82 # mp_str ''query'' @ mp_str ''peer.get'' @ mp_str ''peer_id'' @ mp_str pid)"

definition rd_query :: "QueryBody parser" where
  "rd_query = expect [0x82] (rd_field ''query'' rd_str (\<lambda>q. rd_field ''peer_id'' rd_str (\<lambda>pid r.
     if q = ''peer.exists'' then Some (PeerExists pid, r)
     else if q = ''peer.get'' then Some (PeerGet pid, r) else None)))"

definition query_ok :: "QueryBody \<Rightarrow> bool" where
  "query_ok b = (case b of PeerExists pid \<Rightarrow> str_ok pid | PeerGet pid \<Rightarrow> str_ok pid)"

lemma parses_query: "parses mp_query rd_query query_ok"
proof -
  have "str_ok ''peer.exists''" "str_ok ''peer.get''" by (simp_all add: str_ok_def)
  then show ?thesis
    by (simp add: parses_def mp_query_def rd_query_def query_ok_def split: QueryBody.splits)
qed

definition mp_qexists :: "QueryExistsResponseBody \<Rightarrow> bytes" where
  "mp_qexists b = 0x84 # mp_str ''peer_id'' @ mp_str (qe_peer_id b) @ mp_str ''exists'' @
     mp_bool (qe_exists b) @ mp_str ''class'' @ mp_opt class_str (qe_class b) @
     mp_str ''connected'' @ mp_bool (qe_connected b)"

definition rd_qexists :: "QueryExistsResponseBody parser" where
  "rd_qexists = expect [0x84] (rd_field ''peer_id'' rd_str (\<lambda>pid. rd_field ''exists'' rd_bool (\<lambda>ex.
     rd_field ''class'' (rd_opt rd_class) (\<lambda>c. rd_field ''connected'' rd_bool (\<lambda>con r.
       Some (\<lparr>qe_peer_id = pid, qe_exists = ex, qe_class = c, qe_connected = con\<rparr>, r))))))"

lemma opt_ok_True [simp]: "opt_ok (\<lambda>_. True) x"
  by (cases x) simp_all

lemma parses_qexists: "parses mp_qexists rd_qexists (\<lambda>b. str_ok (qe_peer_id b))"
  by (simp add: parses_def mp_qexists_def rd_qexists_def)

definition mp_qget :: "QueryGetResponseBody \<Rightarrow> bytes" where
  "mp_qget b = 0x84 # mp_str ''peer_id'' @ mp_str (qg_peer_id b) @ mp_str ''exists'' @
     mp_bool (qg_exists b) @ mp_str ''class'' @ mp_opt class_str (qg_class b) @
     mp_str ''connected'' @ mp_bool (qg_connected b)"

definition rd_qget :: "QueryGetResponseBody parser" where
  "rd_qget = expect [0x84] (rd_field ''peer_id'' rd_str (\<lambda>pid. rd_field ''exists'' rd_bool (\<lambda>ex.
     rd_field ''class'' (rd_opt rd_class) (\<lambda>c. rd_field ''connected'' rd_bool (\<lambda>con r.
       Some (\<lparr>qg_peer_id = pid, qg_exists = ex, qg_class = c, qg_connected = con\<rparr>, r))))))"

lemma parses_qget: "parses mp_qget rd_qget (\<lambda>b. str_ok (qg_peer_id b))"
  by (simp add: parses_def mp_qget_def rd_qget_def)

definition mp_error :: "ErrorBody \<Rightarrow> bytes" where
  "mp_error b = 0x84 # mp_str ''code'' @ mp_str (err_code b) @ mp_str ''message'' @ mp_str (err_message b) @
     mp_str ''kind'' @ mp_str (err_kind b) @ mp_str ''stack'' @ mp_opt mp_str (err_stack b)"

definition rd_error :: "ErrorBody parser" where
  "rd_error = expect [0x84] (rd_field ''code'' rd_str (\<lambda>code. rd_field ''message'' rd_str (\<lambda>msg.
     rd_field ''kind'' rd_str (\<lambda>kind. rd_field ''stack'' (rd_opt rd_str) (\<lambda>stack r.
       Some (\<lparr>err_code = code, err_message = msg, err_kind = kind, err_stack = stack,
              err_details = None\<rparr>, r))))))"

definition error_ok :: "ErrorBody \<Rightarrow> bool" where
  "error_ok b \<longleftrightarrow> str_ok (err_code b) \<and> str_ok (err_message b) \<and> str_ok (err_kind b) \<and>
     opt_ok str_ok (err_stack b) \<and> err_details b = None"

lemma parses_error: "parses mp_error rd_error error_ok"
  by (simp add: parses_def mp_error_def rd_error_def error_ok_def)

section \<open>Calls and responses with scalar values\<close>

definition mp_value :: "Value \<Rightarrow> bytes" where
  "mp_value v = (case v of
     VNull \<Rightarrow> [0xc0]
   | VBool b \<Rightarrow> mp_bool b
   | VPosInt n \<Rightarrow> 0xcf # mp_u64 n
   | VNegInt n \<Rightarrow> 0xd3 # mp_u64 n
   | VFloat f \<Rightarrow> 0xcb # mp_u64 f
   | VString s \<Rightarrow> 0xdb # to_be_bytes (of_nat (length s)) @ map mp_char s
   | _ \<Rightarrow> [])"

definition rd_value :: "Value parser" where
  "rd_value bs = (case bs of [] \<Rightarrow> None | b # r \<Rightarrow>
     if b = 0xc0 then Some (VNull, r)
     else if b = 0xc2 then Some (VBool False, r)
     else if b = 0xc3 then Some (VBool True, r)
     else if b = 0xcf then pthen rd_u64 (\<lambda>n r. Some (VPosInt n, r)) r
     else if b = 0xd3 then pthen rd_u64 (\<lambda>n r. Some (VNegInt n, r)) r
     else if b = 0xcb then pthen rd_u64 (\<lambda>n r. Some (VFloat n, r)) r
     else if b = 0xdb \<and> 4 \<le> length r
     then pthen (take_str (unat (from_be_bytes (take 4 r)))) (\<lambda>s r. Some (VString s, r)) (drop 4 r)
     else None)"

fun value_ok :: "Value \<Rightarrow> bool" where
  "value_ok (VString s) = str_ok s"
| "value_ok (VArray _) = False"
| "value_ok (VObject _) = False"
| "value_ok _ = True"

lemma parses_value: "parses mp_value rd_value value_ok"
  unfolding parses_def
proof (intro allI impI)
  fix v r assume "value_ok v"
  then show "rd_value (mp_value v @ r) = Some (v, r)"
    by (cases v) (auto simp: mp_value_def rd_value_def mp_bool_def pthen_def str_ok_def unat_of_nat
        parsesD [OF parses_u64])
qed

fun rd_values :: "nat \<Rightarrow> Value list parser" where
  "rd_values 0 r = Some ([], r)"
| "rd_values (Suc n) r = pthen rd_value (\<lambda>v. pthen (rd_values n) (\<lambda>vs r. Some (v # vs, r))) r"

lemma rd_values_app:
  "list_all value_ok vs \<Longrightarrow> rd_values (length vs) (concat (map mp_value vs) @ r) = Some (vs, r)"
  by (induction vs) (simp_all add: pthen_def parsesD [OF parses_value])

definition mp_args :: "Value list \<Rightarrow> bytes" where
  "mp_args vs = 0xdd # to_be_bytes (of_nat (length vs)) @ concat (map mp_value vs)"

definition rd_args :: "Value list parser" where
  "rd_args = expect [0xdd] (\<lambda>r. if 4 \<le> length r
     then rd_values (unat (from_be_bytes (take 4 r))) (drop 4 r) else None)"

definition args_ok :: "Value list \<Rightarrow> bool" where
  "args_ok vs \<longleftrightarrow> list_all value_ok vs \<and> int (length vs) < 2 ^ 32"

lemma parses_args: "parses mp_args rd_args args_ok"
  by (simp add: parses_def mp_args_def rd_args_def args_ok_def rd_values_app unat_of_nat)

lemmas rd_value_fields [simp] = rd_field_app [OF parses_args] rd_field_app [OF parses_value]

definition mp_call :: "CallBody \<Rightarrow> bytes" where
  "mp_call b = 0x83 # mp_str ''function'' @ mp_str (call_function b) @ mp_str ''args'' @ mp_args (call_args b) @
     mp_str ''namespace'' @ mp_opt mp_str (call_namespace b)"

definition rd_call :: "CallBody parser" where
  "rd_call = expect [0x83] (rd_field ''function'' rd_str (\<lambda>f. rd_field ''args'' rd_args (\<lambda>args.
     rd_field ''namespace'' (rd_opt rd_str) (\<lambda>ns r.
       Some (\<lparr>call_function = f, call_args = args, call_namespace = ns\<rparr>, r)))))"

definition call_ok :: "CallBody \<Rightarrow> bool" where
  "call_ok b \<longleftrightarrow> str_ok (call_function b) \<and> args_ok (call_args b) \<and> opt_ok str_ok (call_namespace b)"

lemma parses_call: "parses mp_call rd_call call_ok"
  by (simp add: parses_def mp_call_def rd_call_def call_ok_def)

definition mp_response :: "ResponseBody \<Rightarrow> bytes" where
  "mp_response b = 0x81 # mp_str ''result'' @ mp_value (resp_result b)"

definition rd_response :: "ResponseBody parser" where
  "rd_response = expect [0x81] (rd_field ''result'' rd_value (\<lambda>v r. Some (\<lparr>resp_result = v\<rparr>, r)))"

lemma parses_response: "parses mp_response rd_response (\<lambda>b. value_ok (resp_result b))"
  unfolding parses_def
proof (intro allI impI)
  fix b :: ResponseBody and r assume "value_ok (resp_result b)"
  then show "rd_response (mp_response b @ r) = Some (b, r)"
    by (cases b) (simp add: mp_response_def rd_response_def)
qed

section \<open>The codec\<close>

definition mk_enc :: "('a \<Rightarrow> bool) \<Rightarrow> ('a \<Rightarrow> bytes) \<Rightarrow> 'a \<Rightarrow> string + bytes" where
  "mk_enc ok pr x = (if ok x then Inr (pr x) else Inl ''unsupported value'')"

definition mk_dec :: "'a parser \<Rightarrow> bytes \<Rightarrow> string + 'a" where
  "mk_dec pa bs = (case pa bs of Some (x, _) \<Rightarrow> Inr x | None \<Rightarrow> Inl ''invalid MessagePack'')"

lemma round_trips_mk: "parses pr pa ok \<Longrightarrow> round_trips (mk_enc ok pr) (mk_dec pa)"
  using parsesD [of pr pa ok _ "[]"]
  by (auto simp: round_trips_def mk_enc_def mk_dec_def split: if_splits)

definition msgpack :: codec where
  "msgpack =
    \<lparr>enc_envelope = mk_enc envelope_ok mp_envelope, dec_envelope = mk_dec rd_envelope,
     enc_register = mk_enc (\<lambda>b. str_ok (reg_peer_id b)) mp_register, dec_register = mk_dec rd_register,
     enc_ack = mk_enc (\<lambda>b. opt_ok str_ok (ack_reason b)) mp_ack, dec_ack = mk_dec rd_ack,
     enc_query = mk_enc query_ok mp_query, dec_query = mk_dec rd_query,
     enc_qexists = mk_enc (\<lambda>b. str_ok (qe_peer_id b)) mp_qexists, dec_qexists = mk_dec rd_qexists,
     enc_qget = mk_enc (\<lambda>b. str_ok (qg_peer_id b)) mp_qget, dec_qget = mk_dec rd_qget,
     enc_call = mk_enc call_ok mp_call, dec_call = mk_dec rd_call,
     enc_response = mk_enc (\<lambda>b. value_ok (resp_result b)) mp_response, dec_response = mk_dec rd_response,
     enc_error = mk_enc error_ok mp_error, dec_error = mk_dec rd_error,
     fmt_message = (\<lambda>_. ''message'')\<rparr>"

lemma msgpack_round_trips [simp]:
  "round_trips (enc_envelope msgpack) (dec_envelope msgpack)"
  "round_trips (enc_register msgpack) (dec_register msgpack)"
  "round_trips (enc_ack msgpack) (dec_ack msgpack)"
  "round_trips (enc_query msgpack) (dec_query msgpack)"
  "round_trips (enc_qexists msgpack) (dec_qexists msgpack)"
  "round_trips (enc_qget msgpack) (dec_qget msgpack)"
  "round_trips (enc_call msgpack) (dec_call msgpack)"
  "round_trips (enc_response msgpack) (dec_response msgpack)"
  "error_round_trips msgpack"
  using round_tripsD [OF round_trips_mk [OF parses_error]]
  by (simp_all add: msgpack_def error_round_trips_def round_trips_mk parses_envelope parses_register parses_ack
      parses_query parses_qexists parses_qget parses_call parses_response)

section \<open>Frames of the reference codec\<close>

definition frame_bytes :: "codec \<Rightarrow> Envelope \<Rightarrow> bytes \<Rightarrow> bytes" where
  "frame_bytes cd e b = (case encode_frame cd e b of Inr f \<Rightarrow> f | Inl _ \<Rightarrow> [])"

lemma decode_frame_bytes:
  assumes "round_trips (enc_envelope cd) (dec_envelope cd)" and "well_framed cd e"
  shows "decode_frame cd (frame_bytes cd e b) = Inr \<lparr>fp_envelope = e, fp_body_bytes = b\<rparr>"
  using router_frames.encode_succeeds [OF assms(2), of b] router_frames.decode_encode [OF assms]
  by (auto simp: frame_bytes_def)

lemma length_mp_str: "length (mp_str s) \<le> length s + 5"
  by (simp add: mp_str_def)

lemma length_mp_scalars: "length (mp_u32 n) \<le> 5" "length (mp_f64 t) = 9"
  by (simp_all add: mp_u32_def mp_f64_def mp_u64_def)

lemma length_mp_envelope:
  "length (mp_envelope e) \<le> 100 + (length (env_kind e) + length (env_msg_id e) + length (env_from e) + length (env_to e))"
  using length_mp_str [of "env_kind e"] length_mp_str [of "env_msg_id e"] length_mp_str [of "env_from e"]
    length_mp_str [of "env_to e"] length_mp_scalars(1) [of "env_v e"]
    length_mp_str [of "''v''"] length_mp_str [of "''kind''"] length_mp_str [of "''msg_id''"]
    length_mp_str [of "''from''"] length_mp_str [of "''to''"] length_mp_str [of "''ts''"]
  by (simp add: mp_envelope_def length_mp_scalars(2))

lemma msgpack_well_framed:
  assumes "env_v e = PROTOCOL_VERSION"
    and "length (env_kind e) + length (env_msg_id e) + length (env_from e) + length (env_to e) < 2 ^ 31"
  shows "well_framed msgpack e"
proof -
  have "length (mp_envelope e) < 2 ^ 32" using length_mp_envelope [of e] assms(2) by simp
  moreover have "envelope_ok e" using assms(2) by (simp add: envelope_ok_def str_ok_def)
  ultimately show ?thesis
    using assms(1) by (simp add: well_framed_def msgpack_def mk_enc_def)
qed

lemma msgpack_small_frame:
  assumes "length (env_kind e) + length (env_msg_id e) + length (env_from e) + length (env_to e) + length b < 1000"
  shows "\<exists>f. encode_frame msgpack e b = Inr f \<and> length f < 2 ^ 32"
proof -
  have "envelope_ok e" using assms by (simp add: envelope_ok_def str_ok_def)
  then have "encode_frame msgpack e b = Inr (to_be_bytes (of_nat (length (mp_envelope e))) @ mp_envelope e @ b)"
    by (simp add: router_frames.encode_layout msgpack_def mk_enc_def)
  then show ?thesis using assms length_mp_envelope [of e] by simp
qed

end
