(* ===== verification/Router_Routing.thy ===== *)
theory Router_Routing
  imports Router_Server Msgpack
begin

text \<open>
  What the handlers of router/src/server.rs do when a connection's frame is handled
  without interruption. An abstract router (live identities with class and sink, a
  verdict per frame) specifies the routing; the handlers refine it. The handshake,
  queries, heartbeats, disconnects and the whole connection are characterised on
  every branch.
\<close>

section \<open>Elementary effects\<close>

definition transmit :: "sink \<Rightarrow> bytes \<Rightarrow> World \<Rightarrow> (RouterError + unit) \<times> World" where
  "transmit sink frame w = (case w_send_err w sink frame of
     None \<Rightarrow> (Inr (), w\<lparr>w_sent := w_sent w @ [(sink, frame)]\<rparr>)
   | Some err \<Rightarrow> (Inl (WebSocket err), w))"

definition transmit_result :: "sink \<Rightarrow> RouterError + bytes \<Rightarrow> World \<Rightarrow> (RouterError + unit) \<times> World" where
  "transmit_result sink r w = (case r of Inl e \<Rightarrow> (Inl e, w) | Inr f \<Rightarrow> transmit sink f w)"

definition clock_ts :: "World \<Rightarrow> f64" where
  "clock_ts w = (case w_clock w of Some t \<Rightarrow> t | None \<Rightarrow> 0)"

definition error_frame :: "codec \<Rightarrow> f64 \<Rightarrow> string \<Rightarrow> string \<Rightarrow> string \<Rightarrow> RouterError + bytes" where
  "error_frame cd ts msg_id code message =
     and_then (encode_error_body cd (build_error_body code message))
       (encode_frame cd (build_envelope KIND_ERROR msg_id ROUTER_PEER_ID ROUTER_PEER_ID ts))"

definition ack_frame :: "codec \<Rightarrow> string \<Rightarrow> f64 \<Rightarrow> string \<Rightarrow> string \<Rightarrow> RouterError + bytes" where
  "ack_frame cd kind ts msg_id peer_id =
     and_then (encode_register_ack_body cd build_ack_body)
       (encode_frame cd (build_envelope kind msg_id ROUTER_PEER_ID peer_id ts))"

definition reply_error ::
    "codec \<Rightarrow> sink \<Rightarrow> string \<Rightarrow> string \<Rightarrow> string \<Rightarrow> World \<Rightarrow> (RouterError + unit) \<times> World" where
  "reply_error cd sink msg_id code message w =
     transmit_result sink (error_frame cd (clock_ts w) msg_id code message) w"

definition with_ctl :: "'c \<Rightarrow> ('e + unit) \<times> 'w \<Rightarrow> ('e + 'c) \<times> 'w" where
  "with_ctl c r = (map_sum id (\<lambda>_. c) (fst r), snd r)"

lemma with_ctl_simps [simp]:
  "with_ctl c (Inl e, w) = (Inl e, w)" "with_ctl c (Inr u, w) = (Inr c, w)"
  by (simp_all add: with_ctl_def)

named_theorems run_simps \<open>runs of the router's tasks\<close>

lemma run_reg [simp, run_simps]:
  "run (reg_lookup pid) w = (lookup_by_peer_id pid (w_peers w), w)"
  "run (reg_sender pid) w = (sender_by_peer_id pid (w_peers w), w)"
  "run (reg_exists pid) w = (snapshot_peer_exists pid (w_peers w), w)"
  "run (reg_class_of pid) w = (snapshot_peer_class pid (w_peers w), w)"
  "run (reg_remove pid) w = (fst (remove_by_peer_id pid (w_peers w)),
     w\<lparr>w_peers := (w_peers w)(pid := None)\<rparr>)"
  "run (reg_insert pid c s) w = (fst (insert_live_peer (w_instant w) pid c s (w_peers w)),
     w\<lparr>w_peers := snd (insert_live_peer (w_instant w) pid c s (w_peers w))\<rparr>)"
  "run (reg_heartbeat pid) w = ((), w\<lparr>w_peers := mark_heartbeat (w_instant w) pid (w_peers w)\<rparr>)"
  "run now_ts w = (clock_ts w, w)"
  by (simp_all add: reg_lookup_def reg_sender_def reg_exists_def reg_class_of_def reg_remove_def
      reg_insert_def reg_heartbeat_def now_ts_def clock_ts_def remove_by_peer_id_def split_beta)

lemma run_send_raw [simp, run_simps]: "run (send_raw s raw) w = transmit s raw w"
  by (simp add: send_raw_def transmit_def)

lemma run_send_frame [simp, run_simps]:
  "run (send_frame cd s e b) w = transmit_result s (encode_frame cd e b) w"
  by (cases "encode_frame cd e b") (simp_all add: send_frame_def transmit_result_def)

lemma run_send_peer_error [simp, run_simps]:
  "run (send_peer_error cd s m code msg) w = reply_error cd s m code msg w"
  by (cases "encode_error_body cd (build_error_body code msg)")
    (simp_all add: send_peer_error_def reply_error_def error_frame_def transmit_result_def)

lemma run_send_error_and_close [simp, run_simps]:
  "run (send_error_and_close cd s m code msg) w = reply_error cd s m code msg w"
  by (cases "encode_error_body cd (build_error_body code msg)")
    (simp_all add: send_error_and_close_def reply_error_def error_frame_def transmit_result_def)

lemma run_send_register_ack [simp, run_simps]:
  "run (send_register_ack cd s m register) w =
     transmit_result s (ack_frame cd KIND_RESPONSE (clock_ts w) m (reg_peer_id register)) w"
  by (cases "encode_register_ack_body cd build_ack_body")
    (simp_all add: send_register_ack_def ack_frame_def transmit_result_def)

lemma run_ptry_ctl [simp, run_simps]:
  "run (ptry m (\<lambda>_. Ret (Inr c))) w = with_ctl c (run m w)"
  by (cases "fst (run m w)") (simp_all add: ptry_run with_ctl_def)

lemma with_ctl_unit [simp]: "with_ctl () r = r"
  by (cases r; cases "fst r") simp_all

lemma transmit_peers [simp]: "w_peers (snd (transmit s f w)) = w_peers w"
  by (simp add: transmit_def split: option.splits)

lemma transmit_result_peers [simp]: "w_peers (snd (transmit_result s r w)) = w_peers w"
  by (simp add: transmit_result_def split: sum.splits)

lemma reply_error_peers [simp]: "w_peers (snd (reply_error cd s m c msg w)) = w_peers w"
  by (simp add: reply_error_def)

lemma with_ctl_snd [simp]: "snd (with_ctl c r) = snd r"
  by (simp add: with_ctl_def)

section \<open>Abstract routing\<close>

type_synonym live_peers = "string \<rightharpoonup> PeerClass \<times> sink"

definition live :: "World \<Rightarrow> live_peers" where
  "live w pid = map_option (\<lambda>r. (pr_class r, pr_sender r)) (w_peers w pid)"

datatype verdict = Forward sink | Refuse string string

definition routing_verdict :: "PeerClass \<Rightarrow> string \<Rightarrow> (PeerClass \<times> sink) option \<Rightarrow> verdict" where
  "routing_verdict from_class kind target =
     (if kind = KIND_CALL then
        (if from_class = Service
         then Refuse ''invalid_source_class'' ''call traffic must originate from a caller peer''
         else case target of
           None \<Rightarrow> Refuse ''peer_not_found'' ''call target not found''
         | Some (Caller, _) \<Rightarrow> Refuse ''invalid_target_class'' ''invalid target class''
         | Some (Service, s) \<Rightarrow> Forward s)
      else if kind = KIND_RESPONSE then
        (if from_class = Caller
         then Refuse ''invalid_source_class'' ''response traffic must originate from a service peer''
         else case target of
           None \<Rightarrow> Refuse ''peer_not_found'' ''response target not found''
         | Some (_, s) \<Rightarrow> Forward s)
      else
        (if from_class = Caller
         then Refuse ''invalid_source_class'' ''error traffic must originate from a service peer''
         else case target of
           None \<Rightarrow> Refuse ''peer_not_found'' ''error target not found''
         | Some (Service, _) \<Rightarrow> Refuse ''invalid_target_class'' ''errors must target a caller peer''
         | Some (Caller, s) \<Rightarrow> Forward s))"

text \<open>Delivery hands over the received bytes; a broken target is evicted and reported.\<close>

definition deliver :: "codec \<Rightarrow> sink \<Rightarrow> Envelope \<Rightarrow> bytes \<Rightarrow> sink \<Rightarrow> World \<Rightarrow> (RouterError + unit) \<times> World" where
  "deliver cd sink envelope raw target w = (case w_send_err w target raw of
     None \<Rightarrow> (Inr (), w\<lparr>w_sent := w_sent w @ [(target, raw)]\<rparr>)
   | Some _ \<Rightarrow> reply_error cd sink (env_msg_id envelope) ''peer_not_found''
       (env_kind envelope @ '' target disconnected'')
       (w\<lparr>w_peers := (w_peers w)(env_to envelope := None)\<rparr>))"

definition spec_route :: "codec \<Rightarrow> sink \<Rightarrow> PeerClass \<Rightarrow> Envelope \<Rightarrow> bytes \<Rightarrow> World \<Rightarrow> (RouterError + unit) \<times> World" where
  "spec_route cd sink from_class envelope raw w =
     (case routing_verdict from_class (env_kind envelope) (live w (env_to envelope)) of
        Forward target \<Rightarrow> deliver cd sink envelope raw target w
      | Refuse code message \<Rightarrow> reply_error cd sink (env_msg_id envelope) code message w)"

lemma run_route_to_target:
  "run (route_to_target cd envelope raw sink kind) w =
     (case live w (env_to envelope) of
        None \<Rightarrow> reply_error cd sink (env_msg_id envelope) ''peer_not_found'' (kind @ '' target not found'') w
      | Some (_, target) \<Rightarrow> (case w_send_err w target raw of
          None \<Rightarrow> (Inr (), w\<lparr>w_sent := w_sent w @ [(target, raw)]\<rparr>)
        | Some _ \<Rightarrow> reply_error cd sink (env_msg_id envelope) ''peer_not_found''
            (kind @ '' target disconnected'') (w\<lparr>w_peers := (w_peers w)(env_to envelope := None)\<rparr>)))"
  by (auto simp: route_to_target_def live_def snapshot_peer_exists_def sender_by_peer_id_def
      transmit_def split: option.splits sum.splits)

lemma run_route_or_error:
  "run (route_or_error cd envelope raw kind sink) w =
     (case decide_route_target kind (map_option fst (live w (env_to envelope))) of
        Deliver \<Rightarrow> run (route_to_target cd envelope raw sink kind) w
      | Reject code message \<Rightarrow> reply_error cd sink (env_msg_id envelope) code message w)"
  by (auto simp: route_or_error_def live_def snapshot_peer_class_def option.map_comp comp_def
      split: RouteTargetDecision.splits)

lemma run_dispatch:
  assumes "decode_frame cd raw = Inr p"
  shows "run (dispatch_frame cd sink pid cls raw) w =
    (let envelope = fp_envelope p; kind = env_kind envelope in
     if env_from envelope \<noteq> pid
     then with_ctl Continue (reply_error cd sink (env_msg_id envelope) ''invalid_source''
            ''envelope.from does not match registered peer'' w)
     else if kind = KIND_QUERY
     then with_ctl Continue (run (handle_query cd sink pid envelope (fp_body_bytes p)) w)
     else if kind = KIND_CALL
     then with_ctl Continue (run (handle_call cd sink cls envelope raw) w)
     else if kind = KIND_RESPONSE
     then with_ctl Continue (run (handle_response cd sink cls envelope raw) w)
     else if kind = KIND_ERROR
     then with_ctl Continue (run (handle_error cd sink cls envelope raw) w)
     else if kind = KIND_HEARTBEAT
     then with_ctl Continue (run (handle_heartbeat cd sink pid envelope raw) w)
     else if kind = KIND_DISCONNECT
     then with_ctl Break (run (handle_disconnect cd sink pid envelope (fp_body_bytes p)) w)
     else with_ctl Continue (reply_error cd sink (env_msg_id envelope) ''unsupported_kind''
            (''unsupported message kind: '' @ kind) w))"
  using assms by (simp add: dispatch_frame_def Let_def)

lemma route_call: "env_kind e = KIND_CALL \<Longrightarrow>
    run (handle_call cd sink cls e raw) w = spec_route cd sink cls e raw w"
  by (cases cls; cases "live w (env_to e)")
    (auto simp: handle_call_def run_route_or_error run_route_to_target spec_route_def
      routing_verdict_def decide_route_target_def deliver_def kind_defs split: PeerClass.splits option.splits)

lemma route_response: "env_kind e = KIND_RESPONSE \<Longrightarrow>
    run (handle_response cd sink cls e raw) w = spec_route cd sink cls e raw w"
  by (cases cls; cases "live w (env_to e)")
    (auto simp: handle_response_def run_route_to_target spec_route_def
      routing_verdict_def deliver_def kind_defs split: PeerClass.splits option.splits)

lemma route_error: "env_kind e = KIND_ERROR \<Longrightarrow>
    run (handle_error cd sink cls e raw) w = spec_route cd sink cls e raw w"
  by (cases cls; cases "live w (env_to e)")
    (auto simp: handle_error_def run_route_or_error run_route_to_target spec_route_def
      routing_verdict_def decide_route_target_def deliver_def kind_defs split: PeerClass.splits option.splits)

lemma run_routed_frame:
  assumes "decode_frame cd raw = Inr p" and "env_from (fp_envelope p) = pid"
    and "env_kind (fp_envelope p) \<in> {KIND_CALL, KIND_RESPONSE, KIND_ERROR}"
  shows "run (loop_body cd sink pid cls (ItemOk (Binary raw))) w =
     with_ctl Continue (spec_route cd sink cls (fp_envelope p) raw w)"
  using assms by (auto simp: run_dispatch Let_def kind_defs route_call route_response route_error)

text \<open>
  C5: routing refines its abstract specification. For a frame of kind \<open>call\<close>,
  \<open>response\<close> or \<open>error\<close> whose \<open>from\<close> is the registered identity, one iteration of
  the message loop computes exactly the abstract router's effect: the verdict depends
  only on the sender's class, the kind and the live entry of \<open>to\<close>; a forwarded frame
  is the received byte string; a refusal is one error frame back to the sender; a
  target whose socket fails is evicted and reported; and the loop goes on.
\<close>

theorem routing_refines_spec:
  assumes "decode_frame cd raw = Inr p" and "env_from (fp_envelope p) = pid"
    and "env_kind (fp_envelope p) \<in> {KIND_CALL, KIND_RESPONSE, KIND_ERROR}"
  shows "run (loop_body cd sink pid cls (ItemOk (Binary raw))) w =
     with_ctl Continue (spec_route cd sink cls (fp_envelope p) raw w)"
  using assms by (rule run_routed_frame)

section \<open>A concrete scene\<close>

text \<open>
  One service and one caller that are live, sockets that accept every frame, and the
  reference codec: the inputs at which the properties with hypotheses are exercised.
\<close>

definition scene_record :: "string \<Rightarrow> PeerClass \<Rightarrow> sink \<Rightarrow> PeerRecord" where
  "scene_record pid c s = \<lparr>pr_peer_id = pid, pr_class = c, pr_sender = s, pr_connected = True,
     pr_last_heartbeat = None\<rparr>"

definition scene :: World where
  "scene = \<lparr>w_peers = [''svc'' \<mapsto> scene_record ''svc'' Service 7, ''aux'' \<mapsto> scene_record ''aux'' Service 8,
       ''cli'' \<mapsto> scene_record ''cli'' Caller 9],
     w_sent = [], w_send_err = (\<lambda>_ _. None), w_instant = 0, w_clock = Some 0\<rparr>"

definition scene_envelope :: "string \<Rightarrow> string \<Rightarrow> string \<Rightarrow> Envelope" where
  "scene_envelope kind from to = \<lparr>env_v = 5, env_kind = kind, env_msg_id = ''m1'', env_from = from,
     env_to = to, env_ts = 0\<rparr>"

lemma scene_envelope_sel [simp]:
  "env_kind (scene_envelope k f t) = k" "env_from (scene_envelope k f t) = f"
  "env_to (scene_envelope k f t) = t" "env_msg_id (scene_envelope k f t) = ''m1''"
  by (simp_all add: scene_envelope_def)

lemma scene_decode:
  "length k + length f + length t < 1000 \<Longrightarrow>
   decode_frame msgpack (frame_bytes msgpack (scene_envelope k f t) b) =
     Inr \<lparr>fp_envelope = scene_envelope k f t, fp_body_bytes = b\<rparr>"
  by (intro decode_frame_bytes msgpack_round_trips msgpack_well_framed)
    (simp_all add: scene_envelope_def PROTOCOL_VERSION_def)

lemma scene_send_err [simp]: "w_send_err scene = (\<lambda>_ _. None)"
  by (simp add: scene_def)

lemma scene_live: "live scene ''svc'' = Some (Service, 7)" "live scene ''aux'' = Some (Service, 8)"
  "live scene ''cli'' = Some (Caller, 9)"
  by (simp_all add: live_def scene_def scene_record_def)

text \<open>The call of \<open>cli\<close> to \<open>svc\<close> reaches the sink of \<open>svc\<close> byte for byte.\<close>

theorem routing_refines_spec_witness:
  "let raw = frame_bytes msgpack (scene_envelope KIND_CALL ''cli'' ''svc'') [1, 2] in
   run (loop_body msgpack 9 ''cli'' Caller (ItemOk (Binary raw))) scene =
     (Inr Continue, scene\<lparr>w_sent := [(7, raw)]\<rparr>)"
proof -
  define raw where "raw = frame_bytes msgpack (scene_envelope KIND_CALL ''cli'' ''svc'') [1, 2]"
  have d: "decode_frame msgpack raw =
      Inr \<lparr>fp_envelope = scene_envelope KIND_CALL ''cli'' ''svc'', fp_body_bytes = [1, 2]\<rparr>"
    unfolding raw_def by (rule scene_decode) (simp add: KIND_CALL_def)
  have "run (loop_body msgpack 9 ''cli'' Caller (ItemOk (Binary raw))) scene =
      with_ctl Continue (spec_route msgpack 9 Caller (scene_envelope KIND_CALL ''cli'' ''svc'') raw scene)"
    using routing_refines_spec [OF d, of "''cli''" 9 Caller scene] by simp
  also have "\<dots> = (Inr Continue, scene\<lparr>w_sent := [(7, raw)]\<rparr>)"
    by (simp add: spec_route_def routing_verdict_def scene_live deliver_def)
      (simp add: scene_def)
  finally show ?thesis by (simp add: raw_def Let_def)
qed

section \<open>Class rules\<close>

text \<open>
  The router forwards a \<open>response\<close> to a target of any class. A response that a
  service addresses to another service is delivered to it, although
  \<open>decide_route_target\<close> holds a rule that refuses exactly this case:
  \<open>handle_response\<close> routes without consulting it.
\<close>

theorem response_to_service_is_delivered:
  assumes "decode_frame cd raw = Inr p" and "env_from (fp_envelope p) = pid"
    and "env_kind (fp_envelope p) = KIND_RESPONSE"
    and "live w (env_to (fp_envelope p)) = Some (Service, target)"
    and "w_send_err w target raw = None"
  shows "run (loop_body cd sink pid Service (ItemOk (Binary raw))) w =
      (Inr Continue, w\<lparr>w_sent := w_sent w @ [(target, raw)]\<rparr>) \<and>
    decide_route_target (env_kind (fp_envelope p)) (snapshot_peer_class (env_to (fp_envelope p)) (w_peers w)) =
      Reject ''invalid_target_class'' ''responses must target a caller peer''"
proof
  have "spec_route cd sink Service (fp_envelope p) raw w = (Inr (), w\<lparr>w_sent := w_sent w @ [(target, raw)]\<rparr>)"
    using assms by (simp add: spec_route_def routing_verdict_def deliver_def kind_defs)
  then show "run (loop_body cd sink pid Service (ItemOk (Binary raw))) w =
      (Inr Continue, w\<lparr>w_sent := w_sent w @ [(target, raw)]\<rparr>)"
    using assms(1-3) by (simp add: run_dispatch Let_def kind_defs route_response)
  show "decide_route_target (env_kind (fp_envelope p)) (snapshot_peer_class (env_to (fp_envelope p)) (w_peers w)) =
      Reject ''invalid_target_class'' ''responses must target a caller peer''"
    using assms(3,4) by (auto simp: decide_route_target_def snapshot_peer_class_def live_def kind_defs)
qed

theorem response_to_service_is_delivered_witness:
  "let raw = frame_bytes msgpack (scene_envelope KIND_RESPONSE ''svc'' ''aux'') [1] in
   run (loop_body msgpack 7 ''svc'' Service (ItemOk (Binary raw))) scene =
     (Inr Continue, scene\<lparr>w_sent := w_sent scene @ [(8, raw)]\<rparr>)"
proof -
  define raw where "raw = frame_bytes msgpack (scene_envelope KIND_RESPONSE ''svc'' ''aux'') [1]"
  have d: "decode_frame msgpack raw =
      Inr \<lparr>fp_envelope = scene_envelope KIND_RESPONSE ''svc'' ''aux'', fp_body_bytes = [1]\<rparr>"
    unfolding raw_def by (rule scene_decode) (simp add: KIND_RESPONSE_def)
  show ?thesis
    using response_to_service_is_delivered [OF d, of "''svc''" scene 8 7]
    by (simp add: scene_live raw_def Let_def)
qed

end
