(* ===== verification/Router_Connection.thy ===== *)
theory Router_Connection
  imports Router_Routing
begin

text \<open>
  The rest of router/src/server.rs run without interruption: the registration
  handshake, queries, heartbeats, disconnects, and a whole connection from its first
  frame to the removal of its entry.
\<close>

section \<open>Registration\<close>

definition fresh_record :: "instant \<Rightarrow> string \<Rightarrow> PeerClass \<Rightarrow> sink \<Rightarrow> PeerRecord" where
  "fresh_record t pid c s = \<lparr>pr_peer_id = pid, pr_class = c, pr_sender = s, pr_connected = True,
     pr_last_heartbeat = Some t\<rparr>"

text \<open>The first item is a well-formed registration of \<open>pid\<close> with class \<open>c\<close>.\<close>

definition registers_as :: "codec \<Rightarrow> ws_item \<Rightarrow> string \<Rightarrow> PeerClass \<Rightarrow> bool" where
  "registers_as cd item pid c \<longleftrightarrow> (\<exists>raw p. item = ItemOk (Binary raw) \<and> decode_frame cd raw = Inr p \<and>
     env_kind (fp_envelope p) = KIND_REGISTER \<and>
     dec_register cd (fp_body_bytes p) = Inr \<lparr>reg_peer_id = pid, reg_class = c\<rparr> \<and>
     env_to (fp_envelope p) = ROUTER_PEER_ID \<and> env_from (fp_envelope p) = pid)"

lemma validate_ok_iff:
  "validate_register_envelope e b = Inr () \<longleftrightarrow> env_to e = ROUTER_PEER_ID \<and> env_from e = reg_peer_id b"
  by (simp add: validate_register_envelope_def)

lemma run_handshake_register:
  assumes "decode_frame cd raw = Inr p" and "env_kind (fp_envelope p) = KIND_REGISTER"
    and "dec_register cd (fp_body_bytes p) = Inr b"
    and "validate_register_envelope (fp_envelope p) b = Inr ()"
  shows "run (handshake cd sink (ItemOk (Binary raw))) w =
    (if w_peers w (reg_peer_id b) \<noteq> None
     then (case reply_error cd sink (env_msg_id (fp_envelope p)) ''duplicate_peer_id''
             (''peer_id '' @ reg_peer_id b @ '' is already live'') w of
           (r, w') \<Rightarrow> ((None, map_sum id (\<lambda>_. None) r), w'))
     else (case transmit_result sink (ack_frame cd KIND_RESPONSE (clock_ts w)
               (env_msg_id (fp_envelope p)) (reg_peer_id b))
             (w\<lparr>w_peers := (w_peers w)(reg_peer_id b \<mapsto>
                 fresh_record (w_instant w) (reg_peer_id b) (reg_class b) sink)\<rparr>) of
           (r, w') \<Rightarrow> ((Some (reg_peer_id b),
             map_sum id (\<lambda>_. Some (reg_peer_id b, reg_class b)) r), w')))"
  using assms
  by (auto simp: handshake_def Let_def decode_register_body_def insert_live_peer_def fresh_record_def
      clock_ts_def split_beta split: sum.splits)

lemma handshake_no_register:
  assumes "\<not> (\<exists>pid c. registers_as cd item pid c)"
  shows "fst (fst (run (handshake cd sink item) w)) = None \<and>
    w_peers (snd (run (handshake cd sink item) w)) = w_peers w"
proof -
  have fp_eta: "\<lparr>reg_peer_id = reg_peer_id b, reg_class = reg_class b\<rparr> = b" for b :: RegisterBody
    by simp
  show ?thesis
  proof (cases item)
    case (ItemOk m)
    show ?thesis
    proof (cases "and_then (ensure_binary_ws_message m) (decode_frame cd)")
      case (Inl e)
      then show ?thesis using ItemOk by (simp add: handshake_def)
    next
      case (Inr p)
      then obtain raw where raw: "m = Binary raw" "decode_frame cd raw = Inr p"
        by (cases m) auto
      show ?thesis
      proof (cases "env_kind (fp_envelope p) = KIND_REGISTER")
        case False
        then show ?thesis using ItemOk raw
          by (auto simp: handshake_def Let_def split: sum.splits)
      next
        case True
        have "\<exists>e. and_then (decode_register_body cd (fp_body_bytes p)) (\<lambda>register.
            and_then (validate_register_envelope (fp_envelope p) register) (\<lambda>_. Inr register)) = Inl e"
        proof (rule ccontr)
          assume "\<not> ?thesis"
          then obtain b where "dec_register cd (fp_body_bytes p) = Inr b"
            "validate_register_envelope (fp_envelope p) b = Inr ()"
            by (auto simp: decode_register_body_def and_then_def split: sum.splits)
          then have "registers_as cd item (reg_peer_id b) (reg_class b)"
            using ItemOk raw True fp_eta [of b] unfolding registers_as_def validate_ok_iff by auto
          then show False using assms by blast
        qed
        then show ?thesis using ItemOk raw True by (auto simp: handshake_def Let_def)
      qed
    qed
  qed (simp_all add: handshake_def)
qed

lemma handshake_register:
  assumes "registers_as cd item pid c"
  shows "fst (fst (run (handshake cd sink item) w)) = (if w_peers w pid = None then Some pid else None) \<and>
    w_peers (snd (run (handshake cd sink item) w)) =
      (if w_peers w pid = None then (w_peers w)(pid \<mapsto> fresh_record (w_instant w) pid c sink)
       else w_peers w)"
proof -
  from assms obtain raw p where item: "item = ItemOk (Binary raw)"
    and p: "decode_frame cd raw = Inr p" "env_kind (fp_envelope p) = KIND_REGISTER"
      "dec_register cd (fp_body_bytes p) = Inr \<lparr>reg_peer_id = pid, reg_class = c\<rparr>"
    and env: "env_to (fp_envelope p) = ROUTER_PEER_ID" "env_from (fp_envelope p) = pid"
    unfolding registers_as_def by blast
  have v: "validate_register_envelope (fp_envelope p) \<lparr>reg_peer_id = pid, reg_class = c\<rparr> = Inr ()"
    using env by (simp add: validate_ok_iff)
  show ?thesis
    unfolding item run_handshake_register [OF p v] by (simp add: split_beta)
qed

lemma handshake_effect:
  "(fst (fst (run (handshake cd sink item) w)) = Some pid \<longleftrightarrow>
      (\<exists>c. registers_as cd item pid c) \<and> w_peers w pid = None) \<and>
   w_peers (snd (run (handshake cd sink item) w)) =
     (case fst (fst (run (handshake cd sink item) w)) of
        None \<Rightarrow> w_peers w
      | Some q \<Rightarrow> (w_peers w)(q \<mapsto>
          fresh_record (w_instant w) q (if registers_as cd item q Service then Service else Caller) sink))"
proof (cases "\<exists>q c. registers_as cd item q c")
  case False
  then show ?thesis using handshake_no_register [OF False, of sink w] by auto
next
  case True
  then obtain q c where q: "registers_as cd item q c" by blast
  then have unique: "registers_as cd item q' c' \<longleftrightarrow> q' = q \<and> c' = c" for q' c'
    by (auto simp: registers_as_def)
  show ?thesis
    using handshake_register [OF q, of sink w] by (cases c) (auto simp: unique)
qed

text \<open>
  C15: an identity becomes live through the handshake exactly when the first item is a
  binary frame of kind \<open>register\<close> for the router, its body decodes, its \<open>from\<close> is
  the registered identity and that identity is free. The handshake then stores exactly
  one new entry for this connection, and in every other case (transport error, text
  message, malformed frame or body, wrong kind, wrong target, wrong \<open>from\<close>, duplicate)
  leaves the registry as it was.
\<close>

theorem handshake_registers_iff:
  "(fst (fst (run (handshake cd sink item) w)) = Some pid \<longleftrightarrow>
      (\<exists>c. registers_as cd item pid c) \<and> w_peers w pid = None) \<and>
   w_peers (snd (run (handshake cd sink item) w)) =
     (case fst (fst (run (handshake cd sink item) w)) of
        None \<Rightarrow> w_peers w
      | Some q \<Rightarrow> (w_peers w)(q \<mapsto>
          fresh_record (w_instant w) q (if registers_as cd item q Service then Service else Caller) sink))"
  by (rule handshake_effect)

text \<open>
  A connection whose first frame is not \<open>register\<close> gets one error frame with code
  \<open>register.required\<close>, never enters the message loop and registers nothing.
\<close>

theorem first_frame_must_register:
  assumes "decode_frame cd raw = Inr p" and "env_kind (fp_envelope p) \<noteq> KIND_REGISTER"
  shows "run (handle_connection cd sink (ItemOk (Binary raw) # items)) w =
    reply_error cd sink (env_msg_id (fp_envelope p)) ''register.required''
      ''first message must be register'' w"
  using assms
  by (cases "reply_error cd sink (env_msg_id (fp_envelope p)) ''register.required''
        ''first message must be register'' w")
    (auto simp: handle_connection_def handshake_def Let_def cleanup_def split: sum.splits)

theorem first_frame_must_register_witness:
  "let raw = frame_bytes msgpack (scene_envelope KIND_CALL ''new'' ''svc'') [] in
   run (handle_connection msgpack 4 [ItemOk (Binary raw), ItemOk Close]) scene =
     reply_error msgpack 4 ''m1'' ''register.required'' ''first message must be register'' scene"
proof -
  define raw where "raw = frame_bytes msgpack (scene_envelope KIND_CALL ''new'' ''svc'') []"
  have d: "decode_frame msgpack raw =
      Inr \<lparr>fp_envelope = scene_envelope KIND_CALL ''new'' ''svc'', fp_body_bytes = []\<rparr>"
    unfolding raw_def by (rule scene_decode) (simp add: KIND_CALL_def)
  show ?thesis
    using first_frame_must_register [OF d, of 4 "[ItemOk Close]" scene]
    by (simp add: raw_def Let_def kind_defs)
qed

text \<open>
  A registration that decodes but targets another peer than the router, or whose
  \<open>from\<close> is not the registered identity, ends the connection with an error in the
  router's log and no frame at all to the peer.
\<close>

theorem invalid_registration_is_silent:
  assumes "decode_frame cd raw = Inr p" and "env_kind (fp_envelope p) = KIND_REGISTER"
    and "dec_register cd (fp_body_bytes p) = Inr b"
    and "env_to (fp_envelope p) \<noteq> ROUTER_PEER_ID \<or> env_from (fp_envelope p) \<noteq> reg_peer_id b"
  shows "\<exists>m. run (handle_connection cd sink (ItemOk (Binary raw) # items)) w =
    (Inl (MalformedRegisterBody m), w)"
  using assms
  by (auto simp: handle_connection_def handshake_def Let_def cleanup_def decode_register_body_def
      validate_register_envelope_def)

definition scene_register :: "string \<Rightarrow> PeerClass \<Rightarrow> bytes" where
  "scene_register pid c = mp_register \<lparr>reg_peer_id = pid, reg_class = c\<rparr>"

lemma scene_register_body:
  "length pid < 1000 \<Longrightarrow>
   dec_register msgpack (scene_register pid c) = Inr \<lparr>reg_peer_id = pid, reg_class = c\<rparr>"
proof -
  assume "length pid < 1000"
  then have "enc_register msgpack \<lparr>reg_peer_id = pid, reg_class = c\<rparr> = Inr (scene_register pid c)"
    by (simp add: msgpack_def mk_enc_def str_ok_def scene_register_def)
  then show ?thesis by (rule round_tripsD [OF msgpack_round_trips(2)])
qed

theorem invalid_registration_is_silent_witness:
  "\<exists>m. run (handle_connection msgpack 4
      [ItemOk (Binary (frame_bytes msgpack (scene_envelope KIND_REGISTER ''a'' ''router'') (scene_register ''b'' Caller)))])
      scene = (Inl (MalformedRegisterBody m), scene)"
proof -
  have d: "decode_frame msgpack
        (frame_bytes msgpack (scene_envelope KIND_REGISTER ''a'' ''router'') (scene_register ''b'' Caller)) =
      Inr \<lparr>fp_envelope = scene_envelope KIND_REGISTER ''a'' ''router'', fp_body_bytes = scene_register ''b'' Caller\<rparr>"
    by (rule scene_decode) (simp add: KIND_REGISTER_def)
  show ?thesis
    using invalid_registration_is_silent [OF d, of "\<lparr>reg_peer_id = ''b'', reg_class = Caller\<rparr>" 4 "[]" scene]
    by (simp add: scene_register_body)
qed

section \<open>Queries\<close>

text \<open>What the registry's observable content says about an identity.\<close>

definition spec_answer :: "codec \<Rightarrow> live_peers \<Rightarrow> QueryBody \<Rightarrow> string + bytes" where
  "spec_answer cd l q = (case q of
     PeerExists x \<Rightarrow> enc_qexists cd \<lparr>qe_peer_id = x, qe_exists = (l x \<noteq> None),
       qe_class = map_option fst (l x), qe_connected = (l x \<noteq> None)\<rparr>
   | PeerGet x \<Rightarrow> enc_qget cd \<lparr>qg_peer_id = x, qg_exists = (l x \<noteq> None),
       qg_class = map_option fst (l x), qg_connected = (l x \<noteq> None)\<rparr>)"

definition reply_envelope :: "Envelope \<Rightarrow> string \<Rightarrow> Envelope" where
  "reply_envelope e pid = e\<lparr>env_kind := KIND_RESPONSE, env_from := ROUTER_PEER_ID, env_to := pid\<rparr>"

lemma run_handle_query:
  assumes "dec_query cd body = Inr q" and "registry_wf (w_peers w)"
  shows "run (handle_query cd sink pid e body) w =
    transmit_result sink (and_then (map_err Other (spec_answer cd (live w) q))
      (encode_frame cd (reply_envelope e pid))) w"
proof -
  have env: "\<lparr>env_v = env_v e, env_kind = KIND_RESPONSE, env_msg_id = env_msg_id e,
      env_from = ROUTER_PEER_ID, env_to = pid, env_ts = env_ts e\<rparr> = reply_envelope e pid"
    by (cases e) (simp add: reply_envelope_def)
  have snap: "(lookup_by_peer_id x (w_peers w) \<noteq> None) = (live w x \<noteq> None)"
    "map_option snap_class (lookup_by_peer_id x (w_peers w)) = map_option fst (live w x)"
    "(case lookup_by_peer_id x (w_peers w) of Some s \<Rightarrow> snap_connected s | None \<Rightarrow> False) = (live w x \<noteq> None)" for x
    using assms(2) by (cases "w_peers w x"; simp add: lookup_by_peer_id_def live_def registry_wf_def)+
  have pl: "run (plift r (\<lambda>b. send_frame cd sink f b)) w = transmit_result sink (and_then r (encode_frame cd f)) w"
    for r f by (cases r) (simp_all add: transmit_result_def)
  show ?thesis
    using assms(1)
    by (cases q) (simp_all add: handle_query_def decode_query_body_def Let_def env snap pl spec_answer_def
        encode_query_exists_response_def encode_query_get_response_def del: not_None_eq)
qed

text \<open>
  C20: a query from a registered peer is answered from the current registry. The loop
  sends the sender one \<open>response\<close> frame with the query's \<open>msg_id\<close>, whose body says
  whether the asked identity is live, with which class, and (for \<open>peer.exists\<close> and
  \<open>peer.get\<close> alike) that a live entry is connected; an unknown identity is a negative
  answer, not an error. The registry is not changed.
\<close>

theorem query_answers_registry:
  assumes "decode_frame cd raw = Inr p" and "env_from (fp_envelope p) = pid"
    and "env_kind (fp_envelope p) = KIND_QUERY" and "dec_query cd (fp_body_bytes p) = Inr q"
    and "registry_wf (w_peers w)"
  shows "run (loop_body cd sink pid cls (ItemOk (Binary raw))) w =
      with_ctl Continue (transmit_result sink (and_then (map_err Other (spec_answer cd (live w) q))
        (encode_frame cd (reply_envelope (fp_envelope p) pid))) w) \<and>
    w_peers (snd (run (loop_body cd sink pid cls (ItemOk (Binary raw))) w)) = w_peers w"
  using assms(1-3) run_handle_query [OF assms(4,5), of sink pid "fp_envelope p"]
  by (simp add: run_dispatch Let_def kind_defs)

lemma scene_wf: "registry_wf (w_peers scene)"
  by (simp add: registry_wf_def scene_def scene_record_def)

definition scene_query :: "string \<Rightarrow> bytes" where
  "scene_query pid = mp_query (PeerGet pid)"

lemma scene_query_body: "length pid < 1000 \<Longrightarrow> dec_query msgpack (scene_query pid) = Inr (PeerGet pid)"
proof -
  assume "length pid < 1000"
  then have "enc_query msgpack (PeerGet pid) = Inr (scene_query pid)"
    by (simp add: msgpack_def mk_enc_def query_ok_def str_ok_def scene_query_def)
  then show ?thesis by (rule round_tripsD [OF msgpack_round_trips(4)])
qed

theorem query_answers_registry_witness:
  "run (loop_body msgpack 9 ''cli'' Caller (ItemOk (Binary
      (frame_bytes msgpack (scene_envelope KIND_QUERY ''cli'' ''router'') (scene_query ''svc''))))) scene =
    with_ctl Continue (transmit_result 9 (and_then (map_err Other (enc_qget msgpack
        \<lparr>qg_peer_id = ''svc'', qg_exists = True, qg_class = Some Service, qg_connected = True\<rparr>))
      (encode_frame msgpack (scene_envelope KIND_RESPONSE ''router'' ''cli''))) scene)"
proof -
  have d: "decode_frame msgpack (frame_bytes msgpack (scene_envelope KIND_QUERY ''cli'' ''router'') (scene_query ''svc'')) =
      Inr \<lparr>fp_envelope = scene_envelope KIND_QUERY ''cli'' ''router'', fp_body_bytes = scene_query ''svc''\<rparr>"
    by (rule scene_decode) (simp add: KIND_QUERY_def)
  show ?thesis
    using query_answers_registry [OF d, of "''cli''" "PeerGet ''svc''" scene 9 Caller]
    by (simp add: scene_query_body scene_wf spec_answer_def scene_live reply_envelope_def
        scene_envelope_def ROUTER_PEER_ID_def)
qed

text \<open>
  A query whose body does not decode ends the connection: the peer gets no error
  frame, and once the connection is cleaned up its identity is no longer live.
\<close>

theorem malformed_query_drops_peer:
  assumes "decode_frame cd raw = Inr p" and "env_from (fp_envelope p) = pid"
    and "env_kind (fp_envelope p) = KIND_QUERY" and "dec_query cd (fp_body_bytes p) = Inl err"
  shows "run (pbind (message_loop cd sink pid cls (ItemOk (Binary raw) # items)) (cleanup (Some pid))) w =
    (Inl (MalformedQueryBody err), w\<lparr>w_peers := (w_peers w)(pid := None)\<rparr>)"
  using assms
  by (simp add: ptry_run run_dispatch Let_def kind_defs handle_query_def decode_query_body_def cleanup_def)

theorem malformed_query_drops_peer_witness:
  "run (pbind (message_loop msgpack 9 ''cli'' Caller [ItemOk (Binary
      (frame_bytes msgpack (scene_envelope KIND_QUERY ''cli'' ''router'') []))]) (cleanup (Some ''cli''))) scene =
    (Inl (MalformedQueryBody ''invalid MessagePack''), scene\<lparr>w_peers := (w_peers scene)(''cli'' := None)\<rparr>)"
proof -
  have d: "decode_frame msgpack (frame_bytes msgpack (scene_envelope KIND_QUERY ''cli'' ''router'') []) =
      Inr \<lparr>fp_envelope = scene_envelope KIND_QUERY ''cli'' ''router'', fp_body_bytes = []\<rparr>"
    by (rule scene_decode) (simp add: KIND_QUERY_def)
  have "dec_query msgpack [] = Inl ''invalid MessagePack''"
    by (simp add: msgpack_def mk_dec_def rd_query_def expect_def)
  then show ?thesis
    using malformed_query_drops_peer [OF d, of "''cli''" "''invalid MessagePack''" 9 Caller "[]" scene] by simp
qed

section \<open>Heartbeats and disconnects\<close>

lemma run_handle_disconnect:
  "run (handle_disconnect cd sink pid e b) w =
     transmit_result sink (ack_frame cd KIND_RESPONSE (env_ts e) (env_msg_id e) pid)
       (w\<lparr>w_peers := (w_peers w)(pid := None)\<rparr>)"
  by (cases "encode_register_ack_body cd build_ack_body")
    (simp_all add: handle_disconnect_def ack_frame_def transmit_result_def)

text \<open>
  C22: a \<open>disconnect\<close> removes the sender's own entry and no other, acknowledges with
  one \<open>response\<close> frame, and ends the loop; if the acknowledgement cannot be sent the
  entry is removed all the same.
\<close>

theorem disconnect_evicts_sender:
  assumes "decode_frame cd raw = Inr p" and "env_from (fp_envelope p) = pid"
    and "env_kind (fp_envelope p) = KIND_DISCONNECT"
  shows "run (loop_body cd sink pid cls (ItemOk (Binary raw))) w =
      with_ctl Break (transmit_result sink
        (ack_frame cd KIND_RESPONSE (env_ts (fp_envelope p)) (env_msg_id (fp_envelope p)) pid)
        (w\<lparr>w_peers := (w_peers w)(pid := None)\<rparr>)) \<and>
    w_peers (snd (run (loop_body cd sink pid cls (ItemOk (Binary raw))) w)) = (w_peers w)(pid := None)"
  using assms by (simp add: run_dispatch Let_def kind_defs run_handle_disconnect)

theorem disconnect_evicts_sender_witness:
  "w_peers (snd (run (loop_body msgpack 9 ''cli'' Caller (ItemOk (Binary
      (frame_bytes msgpack (scene_envelope KIND_DISCONNECT ''cli'' ''router'') [])))) scene)) =
    (w_peers scene)(''cli'' := None)"
proof -
  have d: "decode_frame msgpack (frame_bytes msgpack (scene_envelope KIND_DISCONNECT ''cli'' ''router'') []) =
      Inr \<lparr>fp_envelope = scene_envelope KIND_DISCONNECT ''cli'' ''router'', fp_body_bytes = []\<rparr>"
    by (rule scene_decode) (simp add: KIND_DISCONNECT_def)
  show ?thesis
    using disconnect_evicts_sender [OF d, of "''cli''" 9 Caller scene] by simp
qed

lemma run_handle_heartbeat:
  "run (handle_heartbeat cd sink pid e raw) w =
    (let w' = w\<lparr>w_peers := mark_heartbeat (w_instant w) pid (w_peers w)\<rparr> in
     if live w (env_to e) \<noteq> None then run (route_to_target cd e raw sink ''heartbeat'') w'
     else transmit_result sink (ack_frame cd KIND_HEARTBEAT (env_ts e) (env_msg_id e) pid) w')"
proof -
  have ex: "snapshot_peer_exists x (mark_heartbeat t pid m) = snapshot_peer_exists x m" for x t m
    by (auto simp: snapshot_peer_exists_def mark_heartbeat_def split: option.splits)
  have "live w (env_to e) \<noteq> None \<longleftrightarrow> snapshot_peer_exists (env_to e) (w_peers w)"
    by (simp add: live_def snapshot_peer_exists_def)
  then show ?thesis
    by (cases "encode_register_ack_body cd build_ack_body")
      (simp_all add: handle_heartbeat_def Let_def ex ack_frame_def transmit_result_def)
qed

text \<open>
  C23: a heartbeat sets the sender's last-heartbeat time and is passed on, whatever the
  sockets do. If its target is not live (the router's own identity, unless some peer
  registered it) it is echoed to the sender as a \<open>heartbeat\<close> frame with the same
  \<open>msg_id\<close> and timestamp. If the target is live, the received bytes go to its socket; when
  that socket refuses them, the target is evicted and the sender gets a \<open>peer_not_found\<close>
  error frame instead. Nothing else of the registry changes, and the loop goes on unless a
  frame for the sender cannot be encoded or sent.
\<close>

theorem heartbeat_echo_or_forward:
  assumes "decode_frame cd raw = Inr p" and "env_from (fp_envelope p) = pid"
    and "env_kind (fp_envelope p) = KIND_HEARTBEAT"
  shows "run (loop_body cd sink pid cls (ItemOk (Binary raw))) w =
    (let e = fp_envelope p;
         w' = w\<lparr>w_peers := (w_peers w)(pid :=
            map_option (\<lambda>r. r\<lparr>pr_last_heartbeat := Some (w_instant w)\<rparr>) (w_peers w pid))\<rparr> in
     with_ctl Continue (case live w (env_to e) of
       None \<Rightarrow> transmit_result sink (ack_frame cd KIND_HEARTBEAT (env_ts e) (env_msg_id e) pid) w'
     | Some (_, target) \<Rightarrow> (case w_send_err w target raw of
         None \<Rightarrow> (Inr (), w'\<lparr>w_sent := w_sent w @ [(target, raw)]\<rparr>)
       | Some _ \<Rightarrow> reply_error cd sink (env_msg_id e) ''peer_not_found'' ''heartbeat target disconnected''
           (w'\<lparr>w_peers := (w_peers w')(env_to e := None)\<rparr>))))"
proof -
  have mark: "mark_heartbeat t pid m =
      m(pid := map_option (\<lambda>r. r\<lparr>pr_last_heartbeat := Some t\<rparr>) (m pid))" for t m
    by (auto simp: mark_heartbeat_def fun_eq_iff split: option.splits)
  have lv: "live (w\<lparr>w_peers := (w_peers w)(pid :=
      map_option (\<lambda>r. r\<lparr>pr_last_heartbeat := t\<rparr>) (w_peers w pid))\<rparr>) x = live w x" for x t
    by (auto simp: live_def option.map_comp comp_def)
  show ?thesis
    using assms
    by (cases "live w (env_to (fp_envelope p))")
      (auto simp: run_dispatch Let_def kind_defs run_handle_heartbeat run_route_to_target mark lv
        split: option.splits)
qed

theorem heartbeat_echo_or_forward_witness:
  "let raw = frame_bytes msgpack (scene_envelope KIND_HEARTBEAT ''cli'' ''svc'') [];
       broken = scene\<lparr>w_send_err := (\<lambda>s f. if s = 7 then Some ''broken pipe'' else None)\<rparr> in
   fst (run (loop_body msgpack 9 ''cli'' Caller (ItemOk (Binary raw))) scene) = Inr Continue \<and>
   w_sent (snd (run (loop_body msgpack 9 ''cli'' Caller (ItemOk (Binary raw))) scene)) = [(7, raw)] \<and>
   live (snd (run (loop_body msgpack 9 ''cli'' Caller (ItemOk (Binary raw))) broken)) ''svc'' = None"
proof -
  define raw where "raw = frame_bytes msgpack (scene_envelope KIND_HEARTBEAT ''cli'' ''svc'') []"
  define broken where "broken = scene\<lparr>w_send_err := (\<lambda>s f. if s = 7 then Some ''broken pipe'' else None)\<rparr>"
  have d: "decode_frame msgpack raw =
      Inr \<lparr>fp_envelope = scene_envelope KIND_HEARTBEAT ''cli'' ''svc'', fp_body_bytes = []\<rparr>"
    unfolding raw_def by (rule scene_decode) (simp add: KIND_HEARTBEAT_def)
  have w: "w_sent scene = []" "live broken = live scene"
    by (simp_all add: scene_def broken_def live_def fun_eq_iff)
  note step = heartbeat_echo_or_forward [OF d, of "''cli''" 9 Caller]
  have "fst (run (loop_body msgpack 9 ''cli'' Caller (ItemOk (Binary raw))) scene) = Inr Continue"
    "w_sent (snd (run (loop_body msgpack 9 ''cli'' Caller (ItemOk (Binary raw))) scene)) = [(7, raw)]"
    using step [of scene] w(1) by (simp_all add: scene_live Let_def)
  moreover have "w_send_err broken 7 raw = Some ''broken pipe''" by (simp add: broken_def)
  then have "w_peers (snd (run (loop_body msgpack 9 ''cli'' Caller (ItemOk (Binary raw))) broken)) ''svc'' = None"
    using step [of broken] w(2) by (simp add: scene_live Let_def)
  then have "live (snd (run (loop_body msgpack 9 ''cli'' Caller (ItemOk (Binary raw))) broken)) ''svc'' = None"
    by (simp only: live_def) simp
  ultimately show ?thesis by (simp add: Let_def flip: raw_def broken_def)
qed

section \<open>A whole connection\<close>

lemma transmit_send_err [simp]: "w_send_err (snd (transmit s f w)) = w_send_err w"
  by (simp add: transmit_def split: option.splits)

lemma transmit_result_send_err [simp]: "w_send_err (snd (transmit_result s r w)) = w_send_err w"
  by (simp add: transmit_result_def split: sum.splits)

lemma reply_error_send_err [simp]: "w_send_err (snd (reply_error cd s m c msg w)) = w_send_err w"
  by (simp add: reply_error_def)

text \<open>\<open>keeps_others pid w w'\<close>: sockets behave as before and no other entry changed.\<close>

definition keeps_others :: "string \<Rightarrow> World \<Rightarrow> World \<Rightarrow> bool" where
  "keeps_others pid w w' \<longleftrightarrow> w_send_err w' = w_send_err w \<and> (\<forall>q. q \<noteq> pid \<longrightarrow> w_peers w' q = w_peers w q)"

definition sockets_ok :: "World \<Rightarrow> bool" where
  "sockets_ok w \<longleftrightarrow> w_send_err w = (\<lambda>_ _. None)"

lemma keeps_others_trans: "keeps_others pid w w' \<Longrightarrow> keeps_others pid w' w'' \<Longrightarrow> keeps_others pid w w''"
  by (simp add: keeps_others_def)

lemma route_keeps_others: "sockets_ok w \<Longrightarrow> keeps_others pid w (snd (run (route_to_target cd e raw sink k) w))"
  by (auto simp: sockets_ok_def keeps_others_def run_route_to_target split: option.splits)

lemma spec_route_keeps_others: "sockets_ok w \<Longrightarrow> keeps_others pid w (snd (spec_route cd sink cls e raw w))"
  by (auto simp: sockets_ok_def keeps_others_def spec_route_def deliver_def split: verdict.splits)

lemma query_keeps_others: "keeps_others pid w (snd (run (handle_query cd sink pid e body) w))"
proof -
  have "run (plift r (\<lambda>b. send_frame cd sink f b)) w = transmit_result sink (and_then r (encode_frame cd f)) w"
    for r f by (cases r) (simp_all add: transmit_result_def)
  then show ?thesis
    by (cases "decode_query_body cd body")
      (auto simp: handle_query_def Let_def keeps_others_def split: QueryBody.splits)
qed

lemma heartbeat_keeps_others:
  assumes "sockets_ok w"
  shows "keeps_others pid w (snd (run (handle_heartbeat cd sink pid e raw) w))"
proof -
  let ?w = "w\<lparr>w_peers := mark_heartbeat (w_instant w) pid (w_peers w)\<rparr>"
  have "keeps_others pid w ?w"
    by (auto simp: keeps_others_def mark_heartbeat_def split: option.splits)
  moreover have "keeps_others pid ?w (snd (run (route_to_target cd e raw sink ''heartbeat'') ?w))"
    using assms by (intro route_keeps_others) (simp add: sockets_ok_def)
  ultimately have "keeps_others pid w (snd (run (route_to_target cd e raw sink ''heartbeat'') ?w))"
    by (rule keeps_others_trans)
  with \<open>keeps_others pid w ?w\<close> show ?thesis
    by (auto simp: run_handle_heartbeat Let_def keeps_others_def)
qed

lemma dispatch_keeps_others:
  assumes "sockets_ok w"
  shows "keeps_others pid w (snd (run (dispatch_frame cd sink pid cls raw) w))"
proof (cases "decode_frame cd raw")
  case (Inl e)
  then show ?thesis by (simp add: dispatch_frame_def keeps_others_def)
next
  case (Inr p)
  have [simp]: "keeps_others pid w (snd (reply_error cd sink m c msg w))" for m c msg
    by (simp add: keeps_others_def)
  have [simp]: "keeps_others pid w (snd (run (handle_disconnect cd sink pid e b) w))" for e b
    by (cases "encode_register_ack_body cd build_ack_body") (simp_all add: handle_disconnect_def keeps_others_def)
  show ?thesis
    using spec_route_keeps_others [OF assms] query_keeps_others heartbeat_keeps_others [OF assms]
    by (simp add: run_dispatch [OF Inr] Let_def route_call route_response route_error)
qed

lemma loop_body_keeps_others:
  "sockets_ok w \<Longrightarrow> keeps_others pid w (snd (run (loop_body cd sink pid cls item) w))"
  by (cases "(cd, sink, pid, cls, item)" rule: loop_body.cases)
    (simp_all add: dispatch_keeps_others, simp_all add: keeps_others_def)

lemma message_loop_keeps_others:
  "sockets_ok w \<Longrightarrow> keeps_others pid w (snd (run (message_loop cd sink pid cls items) w))"
proof (induction items arbitrary: w)
  case Nil
  then show ?case by (simp add: keeps_others_def)
next
  case (Cons item items)
  let ?w = "snd (run (loop_body cd sink pid cls item) w)"
  have body: "keeps_others pid w ?w" using Cons.prems by (rule loop_body_keeps_others)
  then have "sockets_ok ?w" using Cons.prems by (simp add: keeps_others_def sockets_ok_def)
  then have "keeps_others pid w (snd (run (message_loop cd sink pid cls items) ?w))"
    using Cons.IH body keeps_others_trans by blast
  with body show ?case by (auto simp: ptry_run split: sum.splits loop_ctl.splits)
qed

text \<open>
  C8: an undisturbed connection cleans up after itself. If no other task of the router runs
  between its first item and its end, and sockets accept every frame, a connection leaves
  the registry exactly as it found it, whatever items it receives and however it ends: an
  identity it registered is removed again and no other entry is touched. (Interleaved with
  other connections this is not so: see the schedule in which a cleanup removes the entry
  of a successor.)
\<close>

theorem undisturbed_connection_restores_registry:
  assumes "\<And>s f. w_send_err w s f = None"
  shows "w_peers (snd (run (handle_connection cd sink items) w)) = w_peers w"
proof -
  define item where "item = (case items of [] \<Rightarrow> ItemEnd | i # _ \<Rightarrow> i)"
  define hs where "hs = run (handshake cd sink item) w"
  have ok: "sockets_ok w" using assms by (simp add: sockets_ok_def fun_eq_iff)
  show ?thesis
  proof (cases "fst (fst hs)")
    case None
    have "\<And>q. snd (fst hs) \<noteq> Inr (Some q)"
      using None unfolding hs_def
      by (auto simp: handshake_def Let_def split: ws_item.splits sum.splits RouterError.splits if_splits)
    moreover have "w_peers (snd hs) = w_peers w"
      using None handshake_effect [of cd sink item w] by (simp add: hs_def)
    ultimately show ?thesis
      using None by (auto simp: handle_connection_def cleanup_def split_beta
          simp flip: item_def hs_def split: sum.splits option.splits)
  next
    case (Some pid)
    then have free: "w_peers w pid = None" and reg: "\<forall>q. q \<noteq> pid \<longrightarrow> w_peers (snd hs) q = w_peers w q"
      using handshake_effect [of cd sink item w pid] by (simp_all add: hs_def)
    have send: "w_send_err (snd hs) = w_send_err w" and
      start: "snd (fst hs) = Inr s \<Longrightarrow> \<exists>c. s = Some (pid, c)" for s
      using Some unfolding hs_def
      by (auto simp: handshake_def Let_def split: ws_item.splits sum.splits RouterError.splits if_splits)
    have "sockets_ok (snd hs)" using ok send by (simp add: sockets_ok_def)
    then have loop: "w_peers (snd (run (message_loop cd sink pid c its) (snd hs))) q = w_peers w q"
      if "q \<noteq> pid" for c its q
      using that reg message_loop_keeps_others [of "snd hs" pid cd sink c its] by (simp add: keeps_others_def)
    show ?thesis
      using Some free reg loop start
      by (auto simp: handle_connection_def cleanup_def split_beta fun_eq_iff
          simp flip: item_def hs_def split: sum.splits option.splits)
  qed
qed

theorem undisturbed_connection_restores_registry_witness:
  "w_peers (snd (run (handle_connection msgpack 4
     [ItemOk (Binary (frame_bytes msgpack (scene_envelope KIND_REGISTER ''new'' ''router'') (scene_register ''new'' Caller))),
      ItemOk (Binary (frame_bytes msgpack (scene_envelope KIND_CALL ''new'' ''svc'') [1])), ItemOk Close]) scene)) =
   w_peers scene"
  by (rule undisturbed_connection_restores_registry) simp

end
