(* ===== verification/Router_System.thy ===== *)
theory Router_System
  imports Router_Connection
begin

text \<open>
  The whole router: \<open>serve\<close> accepts connections and spawns one task per connection;
  the tasks of all connections interleave at every atomic action, sockets may start to
  fail and clocks may move at any time, and peers may send anything. The system is a
  step relation over the world and the tasks. Its invariant ties every registry entry
  to an unfinished connection that registered it.
\<close>

section \<open>Tasks and steps\<close>

datatype conn_task =
    AwaitFirst
  | Shaking "(string option \<times> (RouterError + (string \<times> PeerClass) option)) task"
  | Looping string PeerClass
  | Handling string PeerClass ws_item "(RouterError + loop_ctl) task"
  | Closing "string option" "RouterError + unit"
  | Finished "RouterError + unit"

record System =
  sys_world :: World
  sys_conns :: "sink \<rightharpoonup> conn_task"

definition after_handshake ::
    "string option \<Rightarrow> RouterError + (string \<times> PeerClass) option \<Rightarrow> conn_task" where
  "after_handshake registered_peer_id start = (case start of
     Inl err \<Rightarrow> Closing registered_peer_id (Inl err)
   | Inr None \<Rightarrow> Closing registered_peer_id (Inr ())
   | Inr (Some (peer_id, peer_class)) \<Rightarrow> Looping peer_id peer_class)"

definition after_body :: "string \<Rightarrow> PeerClass \<Rightarrow> RouterError + loop_ctl \<Rightarrow> conn_task" where
  "after_body peer_id peer_class r = (case r of
     Inl err \<Rightarrow> Closing (Some peer_id) (Inl err)
   | Inr Break \<Rightarrow> Closing (Some peer_id) (Inr ())
   | Inr Continue \<Rightarrow> Looping peer_id peer_class)"

definition set_task :: "System \<Rightarrow> sink \<Rightarrow> conn_task \<Rightarrow> World \<Rightarrow> System" where
  "set_task s c t w = s\<lparr>sys_world := w, sys_conns := (sys_conns s)(c \<mapsto> t)\<rparr>"

inductive router_step :: "codec \<Rightarrow> System \<Rightarrow> System \<Rightarrow> bool" for cd :: codec where
  accept: "sys_conns s c = None \<Longrightarrow> router_step cd s (set_task s c AwaitFirst (sys_world s))"
| first_item: "sys_conns s c = Some AwaitFirst \<Longrightarrow>
    router_step cd s (set_task s c (Shaking (handshake cd c item)) (sys_world s))"
| shake_act: "sys_conns s c = Some (Shaking (Act g)) \<Longrightarrow>
    router_step cd s (set_task s c (Shaking (fst (g (sys_world s)))) (snd (g (sys_world s))))"
| shake_done: "sys_conns s c = Some (Shaking (Ret (rp, start))) \<Longrightarrow>
    router_step cd s (set_task s c (after_handshake rp start) (sys_world s))"
| next_item: "sys_conns s c = Some (Looping pid cls) \<Longrightarrow>
    router_step cd s (set_task s c (Handling pid cls item (loop_body cd c pid cls item)) (sys_world s))"
| handle_act: "sys_conns s c = Some (Handling pid cls item (Act g)) \<Longrightarrow>
    router_step cd s (set_task s c (Handling pid cls item (fst (g (sys_world s)))) (snd (g (sys_world s))))"
| handle_done: "sys_conns s c = Some (Handling pid cls item (Ret r)) \<Longrightarrow>
    router_step cd s (set_task s c (after_body pid cls r) (sys_world s))"
| close: "sys_conns s c = Some (Closing rp res) \<Longrightarrow>
    router_step cd s (set_task s c (Finished res) (snd (run (cleanup rp res) (sys_world s))))"
| environment: "router_step cd s (s\<lparr>sys_world := (sys_world s)
    \<lparr>w_send_err := errs, w_instant := i, w_clock := k\<rparr>\<rparr>)"

definition router_init :: "System \<Rightarrow> bool" where
  "router_init s \<longleftrightarrow> w_peers (sys_world s) = new_registry \<and> w_sent (sys_world s) = [] \<and>
     sys_conns s = Map.empty"

lemma set_task_sel [simp]: "sys_world (set_task s c t w) = w"
  "sys_conns (set_task s c t w) = (sys_conns s)(c \<mapsto> t)"
  by (simp_all add: set_task_def)

section \<open>Guarantees of the tasks\<close>

text \<open>No entry appears, and entries keep identity, class, sink and connection state.\<close>

definition same_view :: "PeerRecord \<Rightarrow> PeerRecord \<Rightarrow> bool" where
  "same_view r r' \<longleftrightarrow> pr_peer_id r = pr_peer_id r' \<and> pr_class r = pr_class r' \<and>
     pr_sender r = pr_sender r' \<and> pr_connected r = pr_connected r'"

definition peers_shrink :: "World \<Rightarrow> World \<Rightarrow> bool" where
  "peers_shrink w w' \<longleftrightarrow> (\<forall>pid r. w_peers w' pid = Some r \<longrightarrow>
     (\<exists>r'. w_peers w pid = Some r' \<and> same_view r r'))"

text \<open>
  A frame logged by one action while connection \<open>c\<close> handles \<open>item\<close>: either a frame for
  \<open>c\<close> itself, or the very bytes of \<open>item\<close>, for a kind its class may originate.
\<close>

definition may_forward :: "codec \<Rightarrow> string \<Rightarrow> PeerClass \<Rightarrow> bytes \<Rightarrow> bool" where
  "may_forward cd pid cls raw \<longleftrightarrow> (\<exists>p. decode_frame cd raw = Inr p \<and> env_from (fp_envelope p) = pid \<and>
     (env_kind (fp_envelope p) = KIND_CALL \<and> cls = Caller \<or>
      env_kind (fp_envelope p) \<in> {KIND_RESPONSE, KIND_ERROR} \<and> cls = Service \<or>
      env_kind (fp_envelope p) = KIND_HEARTBEAT))"

definition log_step :: "sink \<Rightarrow> (bytes \<Rightarrow> bool) \<Rightarrow> World \<Rightarrow> World \<Rightarrow> bool" where
  "log_step c fwd w w' \<longleftrightarrow> w_sent w' = w_sent w \<or>
     (\<exists>d f. w_sent w' = w_sent w @ [(d, f)] \<and> (d = c \<or> fwd f))"

definition task_step :: "sink \<Rightarrow> (bytes \<Rightarrow> bool) \<Rightarrow> World \<Rightarrow> World \<Rightarrow> bool" where
  "task_step c fwd w w' \<longleftrightarrow> peers_shrink w w' \<and> log_step c fwd w w'"

lemma same_view_refl [simp]: "same_view r r"
  by (simp add: same_view_def)

lemma peers_shrink_refl [simp]: "peers_shrink w w"
  by (auto simp: peers_shrink_def)

lemma task_step_refl [simp]: "task_step c fwd w w"
  by (simp add: task_step_def log_step_def)

lemma task_step_log [simp]:
  "d = c \<or> fwd f \<Longrightarrow> task_step c fwd w (w\<lparr>w_sent := w_sent w @ [(d, f)]\<rparr>)"
  by (auto simp: task_step_def log_step_def peers_shrink_def)

abbreviation any :: "'a \<Rightarrow> bool" where "any \<equiv> (\<lambda>_. True)"

named_theorems guar_intros \<open>guarantees of the router's tasks\<close>

lemma guar_reads [simp, guar_intros]:
  "guar (task_step c fwd) any (reg_lookup pid)" "guar (task_step c fwd) any (reg_sender pid)"
  "guar (task_step c fwd) any (reg_exists pid)" "guar (task_step c fwd) any (reg_class_of pid)"
  "guar (task_step c fwd) any now_ts"
  by (simp_all add: reg_lookup_def reg_sender_def reg_exists_def reg_class_of_def now_ts_def)

lemma guar_remove [simp, guar_intros]: "guar (task_step c fwd) any (reg_remove pid)"
  by (auto simp: reg_remove_def remove_by_peer_id_def task_step_def peers_shrink_def log_step_def)

lemma guar_heartbeat [simp, guar_intros]: "guar (task_step c fwd) any (reg_heartbeat pid)"
  by (auto simp: reg_heartbeat_def mark_heartbeat_def task_step_def peers_shrink_def log_step_def
      same_view_def split: option.splits)

lemma guar_send_raw [guar_intros]: "d = c \<or> fwd f \<Longrightarrow> guar (task_step c fwd) any (send_raw d f)"
  by (simp add: send_raw_def split: option.split)

lemma guar_bind_any:
  assumes "guar G any p" and "\<And>a. guar G any (f a)"
  shows "guar G any (pbind p f)"
  by (rule guar_pbind [OF assms(1)]) (rule assms(2))

lemma guar_ptry_any:
  assumes "guar G any p" and "\<And>a. guar G any (f a)"
  shows "guar G any (ptry p f)"
  unfolding ptry_def by (rule guar_bind_any [OF assms(1)]) (auto split: sum.splits intro: assms(2))

lemma guar_plift_any: "(\<And>x. guar G any (f x)) \<Longrightarrow> guar G any (plift r f)"
  by (rule guar_plift) simp_all

lemmas guar_any = guar_bind_any guar_ptry_any guar_plift_any

lemma guar_send_frame [guar_intros]: "guar (task_step c fwd) any (send_frame cd c e b)"
  unfolding send_frame_def by (intro guar_any guar_send_raw) simp

lemma guar_send_errors [guar_intros]:
  "guar (task_step c fwd) any (send_peer_error cd c m code msg)"
  "guar (task_step c fwd) any (send_error_and_close cd c m code msg)"
  "guar (task_step c fwd) any (send_register_ack cd c m b)"
  unfolding send_peer_error_def send_error_and_close_def send_register_ack_def
  by (intro guar_any guar_send_frame guar_reads)+

lemma guar_route_to_target [guar_intros]:
  assumes "fwd raw"
  shows "guar (task_step c fwd) any (route_to_target cd e raw c k)"
proof -
  have Ret: "guar (task_step c fwd) any (Ret (Inr ()))" by simp
  have deliver: "guar (task_step c fwd) any (pbind (send_raw d raw) (\<lambda>r. case r of
      Inr _ \<Rightarrow> Ret (Inr ())
    | Inl _ \<Rightarrow> pbind (reg_remove (env_to e)) (\<lambda>_. send_peer_error cd c (env_msg_id e) ''peer_not_found''
          (k @ '' target disconnected''))))" for d
    by (intro guar_bind_any guar_send_raw) (auto split: sum.splits intro: assms guar_any guar_intros)
  show ?thesis
    unfolding route_to_target_def
    by (intro guar_bind_any guar_reads)
      (auto split: option.splits intro!: guar_any guar_intros deliver)
qed

lemma guar_route_or_error [guar_intros]:
  assumes "fwd raw"
  shows "guar (task_step c fwd) any (route_or_error cd e raw k c)"
  unfolding route_or_error_def
  by (intro guar_bind_any guar_reads)
    (auto split: RouteTargetDecision.splits intro!: guar_any guar_intros assms)

lemma guar_handle_query [guar_intros]: "guar (task_step c fwd) any (handle_query cd c pid e body)"
  unfolding handle_query_def Let_def
  by (intro guar_plift_any) (auto split: QueryBody.splits intro!: guar_any guar_intros)

lemma guar_handle_disconnect [guar_intros]: "guar (task_step c fwd) any (handle_disconnect cd c pid e body)"
  unfolding handle_disconnect_def by (intro guar_any guar_intros)

lemma guar_handle_heartbeat [guar_intros]:
  assumes "fwd raw"
  shows "guar (task_step c fwd) any (handle_heartbeat cd c pid e raw)"
  unfolding handle_heartbeat_def
  by (intro guar_bind_any guar_intros) (auto intro!: guar_any guar_intros assms)

lemma guar_handle_call [guar_intros]:
  assumes "cls = Caller \<Longrightarrow> fwd raw"
  shows "guar (task_step c fwd) any (handle_call cd c cls e raw)"
  using assms unfolding handle_call_def by (auto intro!: guar_any guar_intros)

lemma guar_handle_service_traffic [guar_intros]:
  assumes "cls = Service \<Longrightarrow> fwd raw"
  shows "guar (task_step c fwd) any (handle_response cd c cls e raw)"
    and "guar (task_step c fwd) any (handle_error cd c cls e raw)"
  using assms unfolding handle_response_def handle_error_def by (auto intro!: guar_any guar_intros)

lemma guar_dispatch:
  "guar (task_step c (\<lambda>f. f = raw \<and> may_forward cd pid cls raw)) any (dispatch_frame cd c pid cls raw)"
proof (cases "decode_frame cd raw")
  case (Inl e)
  then show ?thesis by (simp add: dispatch_frame_def)
next
  case (Inr p)
  then show ?thesis
    by (auto simp: dispatch_frame_def Let_def may_forward_def intro!: guar_ptry_any guar_intros)
qed

definition forwards :: "codec \<Rightarrow> string \<Rightarrow> PeerClass \<Rightarrow> ws_item \<Rightarrow> bytes \<Rightarrow> bool" where
  "forwards cd pid cls item f \<longleftrightarrow> item = ItemOk (Binary f) \<and> may_forward cd pid cls f"

lemma loop_body_task_step:
  "guar (task_step c (forwards cd pid cls item)) any (loop_body cd c pid cls item)"
proof (cases "(cd, c, pid, cls, item)" rule: loop_body.cases)
  case (1 cd' c' pid' cls' raw)
  then have "item = ItemOk (Binary raw)" by simp
  moreover have "guar (task_step c (forwards cd pid cls (ItemOk (Binary raw)))) any (dispatch_frame cd c pid cls raw)"
    by (rule guar_mono [OF guar_dispatch]) (auto simp: task_step_def log_step_def forwards_def)
  ultimately show ?thesis by simp
qed (auto intro!: guar_ptry_any guar_intros)

text \<open>
  Source-class enforcement and body preservation under every interleaving. Each
  atomic action of handling one received item, started in any state of the router that
  other connections may have produced, logs at most one frame; a frame for another
  connection than the sender's is byte for byte the received frame, whose envelope
  carries the sender's registered identity as \<open>from\<close> and a kind that the sender's class
  may originate (\<open>call\<close> from callers, \<open>response\<close> and \<open>error\<close> from services,
  \<open>heartbeat\<close> from both). The action adds no registry entry and changes no entry's
  identity, class or socket.
\<close>

theorem loop_body_guarantee:
  "guar (task_step c (forwards cd pid cls item)) (\<lambda>_. True) (loop_body cd c pid cls item)"
  by (rule loop_body_task_step)

section \<open>The handshake as a task\<close>

text \<open>
  A handshake task is \<open>fresh\<close> until it stores its entry and \<open>registered\<close> from then on:
  a fresh one returns no identity, a registered one returns the identity it stored.
\<close>

definition registered_result :: "string \<Rightarrow> PeerClass \<Rightarrow>
    string option \<times> (RouterError + (string \<times> PeerClass) option) \<Rightarrow> bool" where
  "registered_result pid cls r \<longleftrightarrow> fst r = Some pid \<and> snd r \<noteq> Inr None \<and>
     (\<forall>q. snd r = Inr (Some q) \<longrightarrow> q = (pid, cls))"

abbreviation registered_prog :: "string \<Rightarrow> PeerClass \<Rightarrow>
    (string option \<times> (RouterError + (string \<times> PeerClass) option)) task \<Rightarrow> bool" where
  "registered_prog pid cls \<equiv> guar peers_shrink (registered_result pid cls)"

inductive fresh_prog :: "sink \<Rightarrow> (string option \<times> (RouterError + (string \<times> PeerClass) option)) task \<Rightarrow> bool"
  for c :: sink where
  fresh_Ret: "(\<And>q. start \<noteq> Inr (Some q)) \<Longrightarrow> fresh_prog c (Ret (None, start))"
| fresh_Act: "(\<And>w. fresh_prog c (fst (g w)) \<and> peers_shrink w (snd (g w)) \<or>
     (\<exists>pid cls. w_peers w pid = None \<and>
        w_peers (snd (g w)) = (w_peers w)(pid \<mapsto> fresh_record (w_instant w) pid cls c) \<and>
        registered_prog pid cls (fst (g w)))) \<Longrightarrow> fresh_prog c (Act g)"

inductive_cases fresh_ActE: "fresh_prog c (Act g)"
inductive_cases fresh_RetE: "fresh_prog c (Ret r)"

lemma peers_shrink_insert:
  "w_peers w pid = None \<Longrightarrow> w_peers w' = (w_peers w)(pid \<mapsto> r) \<Longrightarrow> \<not> peers_shrink w w'"
  by (auto simp: peers_shrink_def)

lemma fresh_not_registered: "fresh_prog c p \<Longrightarrow> registered_prog pid cls p \<Longrightarrow> False"
proof (induction rule: fresh_prog.induct)
  case (fresh_Ret start)
  then show ?case by (simp add: registered_result_def)
next
  case (fresh_Act g)
  then have "peers_shrink w (snd (g w))" and "registered_prog pid cls (fst (g w))" for w
    by (simp_all add: guar_Act_iff)
  then show ?case using fresh_Act.IH peers_shrink_insert by meson
qed

lemma guar_shrink: "guar (task_step c fwd) Q p \<Longrightarrow> guar peers_shrink Q p"
  by (erule guar_mono) (simp_all add: task_step_def)

lemma fresh_bind:
  assumes "guar peers_shrink any m" and "\<And>a. fresh_prog c (f a)"
  shows "fresh_prog c (pbind m f)"
  using assms(1)
proof (induction rule: guar.induct)
  case (guar_Ret a)
  then show ?case using assms(2) by simp
next
  case (guar_Act g)
  then show ?case by (simp add: fresh_Act)
qed

lemma send_shrink: "guar peers_shrink any (send_error_and_close cd c m code msg)"
  "guar peers_shrink any (send_register_ack cd c m b)"
  using guar_send_errors(2,3) guar_shrink by blast+

lemma fresh_handshake: "fresh_prog c (handshake cd c item)"
proof -
  have close: "fresh_prog c (pbind (send_error_and_close cd c m code msg)
      (\<lambda>a. case a of Inl e \<Rightarrow> Ret (None, Inl e) | Inr _ \<Rightarrow> Ret (None, Inr None)))" for m code msg
    by (intro fresh_bind send_shrink) (auto split: sum.splits intro: fresh_Ret)
  have ack: "registered_prog (reg_peer_id b) (reg_class b) (pbind (send_register_ack cd c m b) (\<lambda>a. case a of
      Inl err \<Rightarrow> Ret (Some (reg_peer_id b), Inl err)
    | Inr _ \<Rightarrow> Ret (Some (reg_peer_id b), Inr (Some (reg_peer_id b, reg_class b)))))" for m b
    by (rule guar_pbind [OF send_shrink(2)]) (auto simp: registered_result_def split: sum.splits)
  have reg: "fresh_prog c (pbind (reg_insert (reg_peer_id b) (reg_class b) c) (\<lambda>r. case r of
      Inr _ \<Rightarrow> pbind (send_register_ack cd c m b) (\<lambda>a. case a of
          Inl err \<Rightarrow> Ret (Some (reg_peer_id b), Inl err)
        | Inr _ \<Rightarrow> Ret (Some (reg_peer_id b), Inr (Some (reg_peer_id b, reg_class b))))
    | Inl err \<Rightarrow> (case err of
          DuplicatePeerId peer_id \<Rightarrow>
            pbind (send_error_and_close cd c m ''duplicate_peer_id'' (''peer_id '' @ peer_id @ '' is already live''))
              (\<lambda>a. case a of Inl e \<Rightarrow> Ret (None, Inl e) | Inr _ \<Rightarrow> Ret (None, Inr None))
        | _ \<Rightarrow> Ret (None, Inl err))))" for m b
    unfolding reg_insert_def act_def
    by (simp, rule fresh_Act)
      (auto simp: insert_live_peer_def fresh_record_def split_beta intro: close ack)
  show ?thesis
    unfolding handshake_def Let_def
    by (auto split: ws_item.splits sum.splits intro!: fresh_Ret close reg)
qed

section \<open>The invariant\<close>

fun owner_ok :: "conn_task option \<Rightarrow> string \<Rightarrow> PeerClass \<Rightarrow> bool" where
  "owner_ok (Some (Shaking p)) pid cls = registered_prog pid cls p"
| "owner_ok (Some (Looping q k)) pid cls = (q = pid \<and> k = cls)"
| "owner_ok (Some (Handling q k item p)) pid cls = (q = pid \<and> k = cls)"
| "owner_ok (Some (Closing rp res)) pid cls = (rp = Some pid)"
| "owner_ok _ pid cls = False"

fun task_ok :: "sink \<Rightarrow> conn_task \<Rightarrow> bool" where
  "task_ok c (Shaking p) \<longleftrightarrow> fresh_prog c p \<or> (\<exists>pid cls. registered_prog pid cls p)"
| "task_ok c (Handling pid cls item p) \<longleftrightarrow> guar peers_shrink any p"
| "task_ok c _ \<longleftrightarrow> True"

definition sys_inv :: "System \<Rightarrow> bool" where
  "sys_inv s \<longleftrightarrow> registry_wf (w_peers (sys_world s)) \<and>
     (\<forall>pid r. w_peers (sys_world s) pid = Some r \<longrightarrow>
        owner_ok (sys_conns s (pr_sender r)) pid (pr_class r)) \<and>
     (\<forall>c t. sys_conns s c = Some t \<longrightarrow> task_ok c t)"

lemma registry_wf_shrink: "registry_wf (w_peers w) \<Longrightarrow> peers_shrink w w' \<Longrightarrow> registry_wf (w_peers w')"
  by (fastforce simp: registry_wf_def peers_shrink_def same_view_def)

lemma sys_inv_wf: "sys_inv s \<Longrightarrow> registry_wf (w_peers (sys_world s))"
  by (simp add: sys_inv_def)

lemma sys_inv_owner:
  "sys_inv s \<Longrightarrow> w_peers (sys_world s) pid = Some r \<Longrightarrow> owner_ok (sys_conns s (pr_sender r)) pid (pr_class r)"
  by (simp add: sys_inv_def)

lemma sys_inv_task: "sys_inv s \<Longrightarrow> sys_conns s c = Some t \<Longrightarrow> task_ok c t"
  by (simp add: sys_inv_def)

lemma inv_shrink:
  assumes inv: "sys_inv s" and shrink: "peers_shrink (sys_world s) w" and ok: "task_ok c t"
    and own: "\<And>pid cls r. owner_ok (sys_conns s c) pid cls \<Longrightarrow> w_peers w pid = Some r \<Longrightarrow>
      owner_ok (Some t) pid cls"
  shows "sys_inv (set_task s c t w)"
  unfolding sys_inv_def
proof (intro conjI allI impI)
  show "registry_wf (w_peers (sys_world (set_task s c t w)))"
    using registry_wf_shrink [OF sys_inv_wf [OF inv] shrink] by simp
next
  fix pid r
  assume "w_peers (sys_world (set_task s c t w)) pid = Some r"
  then have r: "w_peers w pid = Some r" by simp
  then obtain r' where r': "w_peers (sys_world s) pid = Some r'" "same_view r r'"
    using shrink by (auto simp: peers_shrink_def)
  then have "owner_ok (sys_conns s (pr_sender r)) pid (pr_class r)"
    using inv by (auto simp: sys_inv_def same_view_def)
  then show "owner_ok (sys_conns (set_task s c t w) (pr_sender r)) pid (pr_class r)"
    using own [OF _ r] by (cases "pr_sender r = c") auto
next
  fix d u
  assume "sys_conns (set_task s c t w) d = Some u"
  then show "task_ok d u"
    using inv ok by (auto simp: sys_inv_def split: if_splits)
qed

lemma inv_insert:
  assumes inv: "sys_inv s" and fresh: "sys_conns s c = Some (Shaking p)" "fresh_prog c p"
    and peers: "w_peers w = (w_peers (sys_world s))(pid \<mapsto> fresh_record i pid cls c)"
    and reg: "registered_prog pid cls q"
  shows "sys_inv (set_task s c (Shaking q) w)"
proof -
  have none: "pr_sender r \<noteq> c" if "w_peers (sys_world s) x = Some r" for x r
    using that inv fresh fresh_not_registered by (fastforce simp: sys_inv_def)
  have "registry_wf (w_peers w)"
    using inv peers by (auto simp: sys_inv_def registry_wf_def fresh_record_def)
  then show ?thesis
    using inv reg none peers unfolding sys_inv_def
    by (auto simp: fresh_record_def split: if_splits)
qed

lemma step_inv:
  assumes "sys_inv s" and "router_step cd s t"
  shows "sys_inv t"
  using assms(2)
proof cases
  case (accept c)
  then show ?thesis using assms(1) by (auto intro!: inv_shrink)
next
  case (first_item c item)
  then show ?thesis using assms(1) by (auto intro!: inv_shrink fresh_handshake)
next
  case (shake_act c g)
  then have "fresh_prog c (Act g) \<or> (\<exists>pid cls. registered_prog pid cls (Act g))"
    using sys_inv_task [OF assms(1), of c] by simp
  then consider (reg) pid cls where "registered_prog pid cls (Act g)"
    | (keep) "fresh_prog c (Act g)" "fresh_prog c (fst (g (sys_world s)))"
        "peers_shrink (sys_world s) (snd (g (sys_world s)))"
    | (new) pid cls where "fresh_prog c (Act g)"
        "w_peers (snd (g (sys_world s))) =
           (w_peers (sys_world s))(pid \<mapsto> fresh_record (w_instant (sys_world s)) pid cls c)"
        "registered_prog pid cls (fst (g (sys_world s)))"
    by (blast elim: fresh_ActE)
  then show ?thesis
  proof cases
    case reg
    then have all: "peers_shrink (sys_world s) (snd (g (sys_world s)))"
      "\<And>q k. registered_prog q k (Act g) \<Longrightarrow> registered_prog q k (fst (g (sys_world s)))"
      by (simp_all add: guar_Act_iff)
    show ?thesis unfolding shake_act(1)
      by (rule inv_shrink [OF assms(1)]) (use all reg shake_act(2) in auto)
  next
    case keep
    show ?thesis unfolding shake_act(1)
      by (rule inv_shrink [OF assms(1)]) (use keep shake_act(2) fresh_not_registered in auto)
  next
    case new
    then show ?thesis unfolding shake_act(1) using inv_insert [OF assms(1) shake_act(2)] by blast
  qed
next
  case (shake_done c rp start)
  then show ?thesis using assms(1)
    by (auto intro!: inv_shrink simp: after_handshake_def registered_result_def
        split: sum.splits option.splits)
next
  case (next_item c pid cls item)
  then show ?thesis using assms(1) guar_shrink [OF loop_body_task_step] by (auto intro!: inv_shrink)
next
  case (handle_act c pid cls item g)
  then have "guar peers_shrink any (Act g)" using sys_inv_task [OF assms(1), of c] by simp
  then have "peers_shrink (sys_world s) (snd (g (sys_world s)))"
    "guar peers_shrink any (fst (g (sys_world s)))" by (simp_all add: guar_Act_iff)
  then show ?thesis using handle_act assms(1) by (auto intro!: inv_shrink)
next
  case (handle_done c pid cls item r)
  then show ?thesis using assms(1)
    by (auto intro!: inv_shrink simp: after_body_def split: sum.splits loop_ctl.splits)
next
  case (close c rp res)
  have "peers_shrink (sys_world s) (snd (run (cleanup rp res) (sys_world s)))"
    by (auto simp: cleanup_def peers_shrink_def split: option.splits)
  then show ?thesis using close assms(1)
    by (auto intro!: inv_shrink simp: cleanup_def split: option.splits)
next
  case (environment errs i k)
  then show ?thesis using assms(1) by (simp add: sys_inv_def)
qed

interpretation router: inductive_invariant router_init "router_step cd" sys_inv for cd
proof unfold_locales
  show "router_init s \<Longrightarrow> sys_inv s" for s
    by (simp add: router_init_def sys_inv_def registry_wf_def new_registry_def)
  show "sys_inv s \<Longrightarrow> router_step cd s t \<Longrightarrow> sys_inv t" for s t
    by (rule step_inv)
qed

section \<open>Connections running alone\<close>

text \<open>
  An uninterrupted \<open>run\<close> of a handshake, of one received item or of the cleanup is one
  of the schedules of the system.
\<close>

lemma set_task_twice [simp]: "set_task (set_task s c t w) c t' w' = set_task s c t' w'"
  by (simp add: set_task_def)

lemma set_task_same [simp]: "sys_conns s c = Some t \<Longrightarrow> set_task s c t (sys_world s) = s"
  by (simp add: set_task_def fun_upd_idem)

lemma steps_shake:
  "sys_conns s c = Some (Shaking p) \<Longrightarrow>
   (router_step cd)\<^sup>*\<^sup>* s (set_task s c
      (after_handshake (fst (fst (run p (sys_world s)))) (snd (fst (run p (sys_world s)))))
      (snd (run p (sys_world s))))"
proof (induction p arbitrary: s)
  case (Ret r)
  then show ?case using shake_done [of s c "fst r" "snd r" cd] by auto
next
  case (Act g)
  let ?s = "set_task s c (Shaking (fst (g (sys_world s)))) (snd (g (sys_world s)))"
  have "router_step cd s ?s" using shake_act [OF Act.prems] .
  also have "(router_step cd)\<^sup>*\<^sup>* ?s (set_task ?s c
      (after_handshake (fst (fst (run (Act g) (sys_world s)))) (snd (fst (run (Act g) (sys_world s)))))
      (snd (run (Act g) (sys_world s))))"
    using Act.IH [of "g (sys_world s)" "fst (g (sys_world s))" ?s] by (simp add: fsts.intros)
  finally (converse_rtranclp_into_rtranclp) show ?case by simp
qed

lemma steps_handle:
  "sys_conns s c = Some (Handling pid cls item p) \<Longrightarrow>
   (router_step cd)\<^sup>*\<^sup>* s (set_task s c (after_body pid cls (fst (run p (sys_world s))))
      (snd (run p (sys_world s))))"
proof (induction p arbitrary: s)
  case (Ret r)
  then show ?case using handle_done [of s c pid cls item r cd] by auto
next
  case (Act g)
  let ?s = "set_task s c (Handling pid cls item (fst (g (sys_world s)))) (snd (g (sys_world s)))"
  have "router_step cd s ?s" using handle_act [OF Act.prems] .
  also have "(router_step cd)\<^sup>*\<^sup>* ?s (set_task ?s c
      (after_body pid cls (fst (run (Act g) (sys_world s)))) (snd (run (Act g) (sys_world s))))"
    using Act.IH [of "g (sys_world s)" "fst (g (sys_world s))" ?s] by (simp add: fsts.intros)
  finally (converse_rtranclp_into_rtranclp) show ?case by simp
qed

lemma run_frame_steps:
  assumes "sys_conns s c = None"
  shows "(router_step cd)\<^sup>*\<^sup>* s (set_task s c
    (after_handshake (fst (fst (run (handshake cd c item) (sys_world s))))
       (snd (fst (run (handshake cd c item) (sys_world s)))))
    (snd (run (handshake cd c item) (sys_world s))))"
proof -
  let ?a = "set_task s c AwaitFirst (sys_world s)" and ?b = "set_task s c (Shaking (handshake cd c item)) (sys_world s)"
  have "router_step cd s ?a" using assms by (rule accept)
  moreover have "router_step cd ?a ?b" using first_item [of ?a c cd item] by simp
  moreover have "(router_step cd)\<^sup>*\<^sup>* ?b (set_task s c
      (after_handshake (fst (fst (run (handshake cd c item) (sys_world s))))
         (snd (fst (run (handshake cd c item) (sys_world s)))))
      (snd (run (handshake cd c item) (sys_world s))))"
    using steps_shake [of ?b c "handshake cd c item" cd] by simp
  ultimately show ?thesis by (meson converse_rtranclp_into_rtranclp)
qed

lemma item_steps:
  assumes "sys_conns s c = Some (Looping pid cls)"
  shows "(router_step cd)\<^sup>*\<^sup>* s (set_task s c
    (after_body pid cls (fst (run (loop_body cd c pid cls item) (sys_world s))))
    (snd (run (loop_body cd c pid cls item) (sys_world s))))"
proof -
  let ?b = "set_task s c (Handling pid cls item (loop_body cd c pid cls item)) (sys_world s)"
  have "router_step cd s ?b" using assms by (rule next_item)
  moreover have "(router_step cd)\<^sup>*\<^sup>* ?b (set_task s c
      (after_body pid cls (fst (run (loop_body cd c pid cls item) (sys_world s))))
      (snd (run (loop_body cd c pid cls item) (sys_world s))))"
    using steps_handle [of ?b c pid cls item "loop_body cd c pid cls item" cd] by simp
  ultimately show ?thesis by (meson converse_rtranclp_into_rtranclp)
qed

section \<open>What every reachable state satisfies\<close>

lemma registered_prog_unique:
  assumes "registered_prog pid cls p" and "registered_prog pid' cls' p"
  shows "pid = pid'"
  using assms
proof (induction p rule: prog.induct)
  case (Ret r)
  then show ?case by (simp add: registered_result_def)
next
  case (Act g)
  then show ?case by (simp add: guar_Act_iff) (meson fsts.intros rangeI)
qed

lemma owner_unique: "owner_ok t pid cls \<Longrightarrow> owner_ok t pid' cls' \<Longrightarrow> pid = pid'"
  by (cases "(t, pid, cls)" rule: owner_ok.cases) (auto dest: registered_prog_unique)

text \<open>
  C6: in every reachable state of the router, under every interleaving of any number of
  connections and any socket failures, each registry entry is stored under its own
  identity, is marked connected, and belongs to a connection that is registered and has
  not finished; no two entries share a connection.
\<close>

theorem live_entries_are_owned:
  assumes "reachable router_init (router_step cd) s"
    and "w_peers (sys_world s) pid = Some r"
  shows "pr_peer_id r = pid \<and> pr_connected r \<and>
    (\<exists>t. sys_conns s (pr_sender r) = Some t \<and> t \<noteq> AwaitFirst \<and> (\<forall>res. t \<noteq> Finished res)) \<and>
    (\<forall>pid' r'. w_peers (sys_world s) pid' = Some r' \<and> pr_sender r' = pr_sender r \<longrightarrow> pid' = pid)"
proof -
  have inv: "sys_inv s" using assms(1) by (rule router.reachable_inv)
  have wf: "pr_peer_id r = pid" "pr_connected r"
    using sys_inv_wf [OF inv] assms(2) by (auto simp: registry_wf_def)
  have own: "owner_ok (sys_conns s (pr_sender r)) pid (pr_class r)"
    using inv assms(2) by (rule sys_inv_owner)
  then have task: "\<exists>t. sys_conns s (pr_sender r) = Some t \<and> t \<noteq> AwaitFirst \<and> (\<forall>res. t \<noteq> Finished res)"
    by (cases "(sys_conns s (pr_sender r), pid, pr_class r)" rule: owner_ok.cases) auto
  have "pid' = pid" if "w_peers (sys_world s) pid' = Some r'" "pr_sender r' = pr_sender r" for pid' r'
    using sys_inv_owner [OF inv that(1)] own that(2) by (metis owner_unique)
  with wf task show ?thesis by blast
qed

section \<open>Concrete executions\<close>

definition boot :: System where
  "boot = \<lparr>sys_world = scene\<lparr>w_peers := new_registry\<rparr>, sys_conns = Map.empty\<rparr>"

definition register_item :: "string \<Rightarrow> PeerClass \<Rightarrow> ws_item" where
  "register_item pid cls = ItemOk (Binary
     (frame_bytes msgpack (scene_envelope KIND_REGISTER pid ''router'') (scene_register pid cls)))"

definition disconnect_item :: "string \<Rightarrow> ws_item" where
  "disconnect_item pid = ItemOk (Binary
     (frame_bytes msgpack (scene_envelope KIND_DISCONNECT pid ''router'') []))"

lemma boot_reachable: "reachable router_init (router_step cd) boot"
  by (rule reachable_init) (simp add: router_init_def boot_def scene_def new_registry_def)

lemma msgpack_ack_frame:
  assumes "length k + length m + length pid < 1000"
  shows "ack_frame msgpack k ts m pid \<in> range Inr"
proof -
  have "well_framed msgpack (build_envelope k m ROUTER_PEER_ID pid ts)"
    using assms by (intro msgpack_well_framed) (simp_all add: build_envelope_def ROUTER_PEER_ID_def)
  moreover have "encode_register_ack_body msgpack build_ack_body \<in> range Inr"
    by (simp add: encode_register_ack_body_def build_ack_body_def msgpack_def mk_enc_def)
  ultimately show ?thesis
    using router_frames.encode_succeeds by (fastforce simp: ack_frame_def)
qed

lemma register_item_run:
  assumes "length pid < 900" and "w_peers w pid = None" and "sockets_ok w"
  shows "\<exists>f. run (handshake msgpack c (register_item pid cls)) w =
    ((Some pid, Inr (Some (pid, cls))),
     w\<lparr>w_peers := (w_peers w)(pid \<mapsto> fresh_record (w_instant w) pid cls c), w_sent := w_sent w @ [(c, f)]\<rparr>)"
proof -
  have d: "decode_frame msgpack (frame_bytes msgpack (scene_envelope KIND_REGISTER pid ''router'') (scene_register pid cls)) =
      Inr \<lparr>fp_envelope = scene_envelope KIND_REGISTER pid ''router'', fp_body_bytes = scene_register pid cls\<rparr>"
    using assms(1) by (intro scene_decode) (simp add: KIND_REGISTER_def)
  obtain f where "ack_frame msgpack KIND_RESPONSE (clock_ts w) ''m1'' pid = Inr f"
    using msgpack_ack_frame [of KIND_RESPONSE "''m1''" pid "clock_ts w"] assms(1)
    by (auto simp: KIND_RESPONSE_def)
  then show ?thesis
    using run_handshake_register [OF d, of "\<lparr>reg_peer_id = pid, reg_class = cls\<rparr>" c w] assms
    by (intro exI [of _ f]) (simp add: register_item_def scene_register_body validate_ok_iff
        ROUTER_PEER_ID_def transmit_result_def transmit_def sockets_ok_def)
qed

lemma register_steps:
  assumes "reachable router_init (router_step msgpack) s" and "length pid < 900"
    and "w_peers (sys_world s) pid = None" and "sockets_ok (sys_world s)" and "sys_conns s c = None"
  shows "\<exists>f. reachable router_init (router_step msgpack) (set_task s c (Looping pid cls)
    ((sys_world s)\<lparr>w_peers := (w_peers (sys_world s))(pid \<mapsto> fresh_record (w_instant (sys_world s)) pid cls c),
       w_sent := w_sent (sys_world s) @ [(c, f)]\<rparr>))"
proof -
  obtain f where f: "run (handshake msgpack c (register_item pid cls)) (sys_world s) =
    ((Some pid, Inr (Some (pid, cls))),
     (sys_world s)\<lparr>w_peers := (w_peers (sys_world s))(pid \<mapsto> fresh_record (w_instant (sys_world s)) pid cls c),
       w_sent := w_sent (sys_world s) @ [(c, f)]\<rparr>)"
    using register_item_run [OF assms(2-4)] by blast
  show ?thesis
    using reachable_rtranclp [OF assms(1) run_frame_steps [OF assms(5), of msgpack "register_item pid cls"]]
    unfolding f by (auto simp: after_handshake_def)
qed

theorem live_entries_are_owned_witness:
  "\<exists>s r. reachable router_init (router_step msgpack) s \<and> w_peers (sys_world s) ''a'' = Some r \<and>
     sys_conns s 1 = Some (Looping ''a'' Caller) \<and> pr_peer_id r = ''a'' \<and> pr_connected r \<and>
     (\<exists>t. sys_conns s (pr_sender r) = Some t \<and> t \<noteq> AwaitFirst \<and> (\<forall>res. t \<noteq> Finished res))"
proof -
  obtain f where "reachable router_init (router_step msgpack) (set_task boot 1 (Looping ''a'' Caller)
      ((sys_world boot)\<lparr>w_peers := (w_peers (sys_world boot))(''a'' \<mapsto>
          fresh_record (w_instant (sys_world boot)) ''a'' Caller 1),
        w_sent := w_sent (sys_world boot) @ [(1, f)]\<rparr>))" (is "reachable _ _ ?s")
    using register_steps [OF boot_reachable, of "''a''" 1 Caller]
    by (auto simp: boot_def sockets_ok_def new_registry_def)
  moreover have "w_peers (sys_world ?s) ''a'' = Some (fresh_record (w_instant (sys_world boot)) ''a'' Caller 1)"
    by simp
  moreover have "sys_conns ?s 1 = Some (Looping ''a'' Caller)" by simp
  ultimately show ?thesis using live_entries_are_owned by blast
qed

lemma disconnect_steps:
  assumes "reachable router_init (router_step msgpack) s" and "length pid < 900"
    and "sockets_ok (sys_world s)" and "sys_conns s c = Some (Looping pid cls)"
  shows "\<exists>f. reachable router_init (router_step msgpack) (set_task s c (Closing (Some pid) (Inr ()))
    ((sys_world s)\<lparr>w_peers := (w_peers (sys_world s))(pid := None),
       w_sent := w_sent (sys_world s) @ [(c, f)]\<rparr>))"
proof -
  let ?w = "sys_world s"
  have d: "decode_frame msgpack (frame_bytes msgpack (scene_envelope KIND_DISCONNECT pid ''router'') []) =
      Inr \<lparr>fp_envelope = scene_envelope KIND_DISCONNECT pid ''router'', fp_body_bytes = []\<rparr>"
    using assms(2) by (intro scene_decode) (simp add: KIND_DISCONNECT_def)
  obtain f where f: "ack_frame msgpack KIND_RESPONSE 0 ''m1'' pid = Inr f"
    using msgpack_ack_frame [of KIND_RESPONSE "''m1''" pid 0] assms(2) by (auto simp: KIND_RESPONSE_def)
  have "run (loop_body msgpack c pid cls (disconnect_item pid)) ?w =
      (Inr Break, ?w\<lparr>w_peers := (w_peers ?w)(pid := None), w_sent := w_sent ?w @ [(c, f)]\<rparr>)"
    using assms(3) f d run_handle_disconnect [of msgpack c pid "scene_envelope KIND_DISCONNECT pid ''router''" "[]" ?w]
    by (simp add: disconnect_item_def run_dispatch Let_def kind_defs scene_envelope_def sockets_ok_def
        transmit_result_def transmit_def)
  then show ?thesis
    using reachable_rtranclp [OF assms(1) item_steps [OF assms(4), of msgpack "disconnect_item pid"]]
    by (auto simp: after_body_def)
qed

lemma register_reach:
  assumes "reachable router_init (router_step msgpack) s" and "length pid < 900"
    and "w_peers (sys_world s) pid = None" and "sockets_ok (sys_world s)" and "sys_conns s c = None"
  obtains t where "reachable router_init (router_step msgpack) t" and "sockets_ok (sys_world t)"
    and "sys_conns t = (sys_conns s)(c \<mapsto> Looping pid cls)"
    and "w_peers (sys_world t) = (w_peers (sys_world s))(pid \<mapsto> fresh_record (w_instant (sys_world s)) pid cls c)"
proof -
  obtain f where "reachable router_init (router_step msgpack) (set_task s c (Looping pid cls)
    ((sys_world s)\<lparr>w_peers := (w_peers (sys_world s))(pid \<mapsto> fresh_record (w_instant (sys_world s)) pid cls c),
       w_sent := w_sent (sys_world s) @ [(c, f)]\<rparr>))"
    using register_steps [OF assms] by blast
  then show ?thesis by (rule that) (use assms(4) in \<open>simp_all add: sockets_ok_def\<close>)
qed

lemma disconnect_reach:
  assumes "reachable router_init (router_step msgpack) s" and "length pid < 900"
    and "sockets_ok (sys_world s)" and "sys_conns s c = Some (Looping pid cls)"
  obtains t where "reachable router_init (router_step msgpack) t" and "sockets_ok (sys_world t)"
    and "sys_conns t = (sys_conns s)(c \<mapsto> Closing (Some pid) (Inr ()))"
    and "w_peers (sys_world t) pid = None"
proof -
  obtain f where "reachable router_init (router_step msgpack) (set_task s c (Closing (Some pid) (Inr ()))
    ((sys_world s)\<lparr>w_peers := (w_peers (sys_world s))(pid := None),
       w_sent := w_sent (sys_world s) @ [(c, f)]\<rparr>))"
    using disconnect_steps [OF assms] by blast
  then show ?thesis by (rule that) (use assms(3) in \<open>simp_all add: sockets_ok_def\<close>)
qed

text \<open>
  C34: removal by identity can hit another connection's entry. There is a reachable state
  in which connection 1, registered as \<open>a\<close>, has disconnected and is about to clean up,
  while connection 2 has registered the freed identity and owns the entry of \<open>a\<close>; the step
  that is the cleanup of connection 1 then removes that entry: connection 2 is still serving
  as \<open>a\<close>, with every socket working, but \<open>a\<close> is no longer live.
\<close>

theorem stale_cleanup_evicts_successor:
  "\<exists>s t r. reachable router_init (router_step msgpack) s \<and>
     sys_conns s 1 = Some (Closing (Some ''a'') (Inr ())) \<and> sys_conns s 2 = Some (Looping ''a'' Service) \<and>
     w_peers (sys_world s) ''a'' = Some r \<and> pr_sender r = 2 \<and>
     router_step msgpack s t \<and>
     t = set_task s 1 (Finished (Inr ())) (snd (run (cleanup (Some ''a'') (Inr () :: RouterError + unit)) (sys_world s))) \<and>
     sys_conns t 2 = Some (Looping ''a'' Service) \<and> sockets_ok (sys_world t) \<and>
     \<not> snapshot_peer_exists ''a'' (w_peers (sys_world t))"
proof -
  let ?R = "reachable router_init (router_step msgpack)"
  have boot: "sockets_ok (sys_world boot)" "w_peers (sys_world boot) = Map.empty" "sys_conns boot = Map.empty"
    by (simp_all add: boot_def sockets_ok_def new_registry_def)
  obtain s1 where s1: "?R s1" "sockets_ok (sys_world s1)" "sys_conns s1 = [1 \<mapsto> Looping ''a'' Caller]"
    by (rule register_reach [OF boot_reachable, of "''a''" 1 Caller]) (use boot in auto)
  obtain s2 where s2: "?R s2" "sockets_ok (sys_world s2)" "sys_conns s2 = [1 \<mapsto> Closing (Some ''a'') (Inr ())]"
      "w_peers (sys_world s2) ''a'' = None"
    by (rule disconnect_reach [OF s1(1), of "''a''" 1 Caller]) (use s1 in auto)
  obtain s3 where s3: "?R s3" "sockets_ok (sys_world s3)"
      "sys_conns s3 = [1 \<mapsto> Closing (Some ''a'') (Inr ()), 2 \<mapsto> Looping ''a'' Service]"
      "w_peers (sys_world s3) ''a'' = Some (fresh_record (w_instant (sys_world s2)) ''a'' Service 2)"
    by (rule register_reach [OF s2(1), of "''a''" 2 Service]) (use s2 in auto)
  have "router_step msgpack s3 (set_task s3 1 (Finished (Inr ()))
      (snd (run (cleanup (Some ''a'') (Inr () :: RouterError + unit)) (sys_world s3))))" (is "router_step _ _ ?s4")
    using s3(3) by (intro close) simp
  then show ?thesis
    using s3 by (intro exI [of _ s3] exI [of _ ?s4] exI [of _ "fresh_record (w_instant (sys_world s2)) ''a'' Service 2"])
      (simp add: cleanup_def snapshot_peer_exists_def sockets_ok_def fresh_record_def)
qed

end
