(* ===== verification/Router_Delivery.thy ===== *)
theory Router_Delivery
  imports Router_System "HOL-Library.Sublist"
begin

text \<open>
  Who receives what from the concurrent router. The steps of the router are labelled
  with the connection that moves and the item it takes; an audited run records beside
  the router's state which items each connection took, which task wrote each frame of
  the log, and which registrations were ever live.
\<close>

section \<open>Labelled steps\<close>

datatype label = Take sink ws_item | Move sink | Outside

inductive router_move :: "codec \<Rightarrow> System \<Rightarrow> label \<Rightarrow> System \<Rightarrow> bool" for cd :: codec where
  mv_accept: "sys_conns s c = None \<Longrightarrow> router_move cd s (Move c) (set_task s c AwaitFirst (sys_world s))"
| mv_first: "sys_conns s c = Some AwaitFirst \<Longrightarrow>
    router_move cd s (Take c item) (set_task s c (Shaking (handshake cd c item)) (sys_world s))"
| mv_shake: "sys_conns s c = Some (Shaking (Act g)) \<Longrightarrow>
    router_move cd s (Move c) (set_task s c (Shaking (fst (g (sys_world s)))) (snd (g (sys_world s))))"
| mv_shaken: "sys_conns s c = Some (Shaking (Ret (rp, start))) \<Longrightarrow>
    router_move cd s (Move c) (set_task s c (after_handshake rp start) (sys_world s))"
| mv_next: "sys_conns s c = Some (Looping pid cls) \<Longrightarrow>
    router_move cd s (Take c item) (set_task s c (Handling pid cls item (loop_body cd c pid cls item)) (sys_world s))"
| mv_handle: "sys_conns s c = Some (Handling pid cls item (Act g)) \<Longrightarrow>
    router_move cd s (Move c) (set_task s c (Handling pid cls item (fst (g (sys_world s)))) (snd (g (sys_world s))))"
| mv_handled: "sys_conns s c = Some (Handling pid cls item (Ret r)) \<Longrightarrow>
    router_move cd s (Move c) (set_task s c (after_body pid cls r) (sys_world s))"
| mv_close: "sys_conns s c = Some (Closing rp res) \<Longrightarrow>
    router_move cd s (Move c) (set_task s c (Finished res) (snd (run (cleanup rp res) (sys_world s))))"
| mv_outside: "router_move cd s Outside (s\<lparr>sys_world := (sys_world s)
    \<lparr>w_send_err := errs, w_instant := i, w_clock := k\<rparr>\<rparr>)"

lemma router_step_iff_move: "router_step cd s t \<longleftrightarrow> (\<exists>l. router_move cd s l t)"
proof
  assume "router_step cd s t"
  then show "\<exists>l. router_move cd s l t"
    by cases (blast intro: router_move.intros)+
next
  assume "\<exists>l. router_move cd s l t"
  then obtain l where "router_move cd s l t" ..
  then show "router_step cd s t"
    by cases (blast intro: router_step.intros)+
qed

section \<open>Audited runs\<close>

definition registrations :: "World \<Rightarrow> (string \<times> PeerClass \<times> sink) set" where
  "registrations w = {(pid, pr_class r, pr_sender r) |pid r. w_peers w pid = Some r}"

lemma registered_now:
  "w_peers w = m(pid \<mapsto> fresh_record i pid cls c) \<Longrightarrow> (pid, cls, c) \<in> E \<union> registrations w"
  unfolding registrations_def fresh_record_def by fastforce

record Audit =
  au_sys :: System
  au_items :: "sink \<Rightarrow> ws_item list"
  au_log :: "(sink \<times> sink \<times> bytes) list"
  au_live :: "(string \<times> PeerClass \<times> sink) set"

fun note_items :: "label \<Rightarrow> (sink \<Rightarrow> ws_item list) \<Rightarrow> sink \<Rightarrow> ws_item list" where
  "note_items (Take c item) items = items(c := items c @ [item])"
| "note_items _ items = items"

fun note_log :: "label \<Rightarrow> (sink \<times> bytes) list \<Rightarrow> (sink \<times> sink \<times> bytes) list" where
  "note_log (Move c) new = map (Pair c) new"
| "note_log _ new = []"

definition audit_note :: "Audit \<Rightarrow> label \<Rightarrow> System \<Rightarrow> Audit" where
  "audit_note a l t =
    \<lparr>au_sys = t, au_items = note_items l (au_items a),
     au_log = au_log a @ note_log l (drop (length (w_sent (sys_world (au_sys a)))) (w_sent (sys_world t))),
     au_live = au_live a \<union> registrations (sys_world t)\<rparr>"

lemma audit_note_sel [simp]: "au_sys (audit_note a l t) = t"
  "au_items (audit_note a l t) = note_items l (au_items a)"
  "au_live (audit_note a l t) = au_live a \<union> registrations (sys_world t)"
  by (simp_all add: audit_note_def)

inductive audit_step :: "codec \<Rightarrow> Audit \<Rightarrow> Audit \<Rightarrow> bool" for cd :: codec where
  audited: "router_move cd (au_sys a) l t \<Longrightarrow> audit_step cd a (audit_note a l t)"

definition audit_init :: "Audit \<Rightarrow> bool" where
  "audit_init a \<longleftrightarrow> router_init (au_sys a) \<and> au_items a = (\<lambda>_. []) \<and> au_log a = [] \<and> au_live a = {}"

text \<open>The audit watches without interfering: it has exactly the router's runs.\<close>

interpretation watched: part_invariant audit_init "audit_step cd" router_init "router_step cd" au_sys sys_inv for cd
proof unfold_locales
  show "audit_init a \<Longrightarrow> router_init (au_sys a)" for a by (simp add: audit_init_def)
  show "audit_step cd a b \<Longrightarrow> (router_step cd)\<^sup>*\<^sup>* (au_sys a) (au_sys b)" for a b
    by (erule audit_step.cases) (auto simp: router_step_iff_move intro!: r_into_rtranclp)
qed

lemma audit_exists:
  "reachable router_init (router_step cd) s \<Longrightarrow> \<exists>a. reachable audit_init (audit_step cd) a \<and> au_sys a = s"
proof (induction rule: reachable.induct)
  case (reachable_init s)
  then have "audit_init \<lparr>au_sys = s, au_items = (\<lambda>_. []), au_log = [], au_live = {}\<rparr>"
    by (simp add: audit_init_def)
  then show ?case by (force intro: reachable.reachable_init)
next
  case (reachable_step s t)
  then obtain a l where "reachable audit_init (audit_step cd) a" "au_sys a = s" "router_move cd s l t"
    by (auto simp: router_step_iff_move)
  moreover from this have "audit_step cd a (audit_note a l t)" by (intro audited) simp
  ultimately have "reachable audit_init (audit_step cd) (audit_note a l t)" by (blast intro: reachable.reachable_step)
  then show ?case by (intro exI [of _ "audit_note a l t"]) simp
qed

section \<open>Tasks that write at most one frame\<close>

abbreviation silent :: "'a task \<Rightarrow> bool" where
  "silent \<equiv> guar (\<lambda>w w'. w_sent w' = w_sent w) any"

text \<open>
  \<open>emits J P p\<close>: run from states that satisfy \<open>J\<close>, with anything happening in between,
  the task writes at most one frame, and one that satisfies \<open>P\<close>.
\<close>

inductive emits :: "(World \<Rightarrow> bool) \<Rightarrow> (sink \<Rightarrow> bytes \<Rightarrow> bool) \<Rightarrow> 'a task \<Rightarrow> bool"
  for J :: "World \<Rightarrow> bool" and P :: "sink \<Rightarrow> bytes \<Rightarrow> bool" where
  emits_Ret: "emits J P (Ret a)"
| emits_Act: "(\<And>w. J w \<Longrightarrow> w_sent (snd (g w)) = w_sent w \<and> emits J P (fst (g w)) \<or>
     (\<exists>d f. w_sent (snd (g w)) = w_sent w @ [(d, f)] \<and> P d f \<and> silent (fst (g w)))) \<Longrightarrow> emits J P (Act g)"

inductive_simps emits_Act_iff: "emits J P (Act g)"

named_theorems emits_intros \<open>tasks that write at most one frame\<close>

declare emits_Ret [simp, emits_intros]

lemma emits_silent: "silent p \<Longrightarrow> emits J P p"
  by (induction rule: guar.induct) (auto intro: emits_Act)

lemma emits_then_silent:
  assumes "emits J P m" and "\<And>a. silent (f a)"
  shows "emits J P (pbind m f)"
  using assms(1)
proof (induction rule: emits.induct)
  case (emits_Ret a)
  then show ?case using assms(2) by (simp add: emits_silent)
next
  case (emits_Act g)
  have bind: "silent p \<Longrightarrow> silent (pbind p f)" for p
    by (rule guar_bind_any) (use assms(2) in auto)
  show ?case unfolding pbind.simps
    by (rule emits.emits_Act) (use emits_Act bind in \<open>fastforce simp: fst_map_prod snd_map_prod\<close>)
qed

lemma emits_then_Ret [emits_intros]: "emits J P m \<Longrightarrow> emits J P (ptry m (\<lambda>_. Ret (Inr x)))"
  unfolding ptry_def by (rule emits_then_silent) (auto split: sum.splits)

lemma emits_plift [emits_intros]: "(\<And>x. r = Inr x \<Longrightarrow> emits J P (f x)) \<Longrightarrow> emits J P (plift r f)"
  by (cases r) simp_all

lemma emits_act_bind:
  assumes "\<And>w. J w \<Longrightarrow> w_sent (snd (f w)) = w_sent w \<and> emits J P (k (fst (f w)))"
  shows "emits J P (pbind (act f) k)"
  unfolding act_def by (simp, rule emits_Act) (use assms in auto)

lemma emits_read_bind [emits_intros]:
  "(\<And>w. J w \<Longrightarrow> emits J P (k (sender_by_peer_id pid (w_peers w)))) \<Longrightarrow> emits J P (pbind (reg_sender pid) k)"
  "(\<And>w. J w \<Longrightarrow> emits J P (kc (snapshot_peer_class pid (w_peers w)))) \<Longrightarrow> emits J P (pbind (reg_class_of pid) kc)"
  "(\<And>x. emits J P (ke x)) \<Longrightarrow> emits J P (pbind (reg_exists pid) ke)"
  "(\<And>x. emits J P (kl x)) \<Longrightarrow> emits J P (pbind (reg_lookup pid) kl)"
  "(\<And>x. emits J P (kr x)) \<Longrightarrow> emits J P (pbind (reg_remove pid) kr)"
  "(\<And>x. emits J P (kh x)) \<Longrightarrow> emits J P (pbind (reg_heartbeat pid) kh)"
  "(\<And>x. emits J P (kn x)) \<Longrightarrow> emits J P (pbind now_ts kn)"
  "(\<And>x. emits J P (ki x)) \<Longrightarrow> emits J P (pbind (reg_insert pid cls d) ki)"
  unfolding reg_insert_def reg_sender_def reg_class_of_def reg_exists_def reg_lookup_def reg_remove_def reg_heartbeat_def now_ts_def
  by (rule emits_act_bind; simp add: split_beta)+

lemma emits_send_bind:
  assumes "P d f" and "silent (k (Inr ()))" and "\<And>e. emits J P (k (Inl e))"
  shows "emits J P (pbind (send_raw d f) k)"
  unfolding send_raw_def act_def by (simp, rule emits_Act) (use assms in \<open>auto split: option.split\<close>)

lemma emits_send_raw [emits_intros]: "P d f \<Longrightarrow> emits J P (send_raw d f)"
  unfolding send_raw_def act_def by (rule emits_Act) (auto split: option.split)

lemma emits_mono:
  assumes "emits J P p" and "\<And>w. J' w \<Longrightarrow> J w" and "\<And>d f. P d f \<Longrightarrow> P' d f"
  shows "emits J' P' p"
  using assms(1)
proof (induction rule: emits.induct)
  case (emits_Act g)
  show ?case by (rule emits.emits_Act) (use emits_Act assms(2,3) in blast)
qed simp


section \<open>What one connection writes\<close>

definition router_made :: "codec \<Rightarrow> bytes \<Rightarrow> bool" where
  "router_made cd f \<longleftrightarrow> (\<exists>e b. env_from e = ROUTER_PEER_ID \<and>
     env_kind e \<in> {KIND_RESPONSE, KIND_ERROR, KIND_HEARTBEAT} \<and> encode_frame cd e b = Inr f)"

text \<open>
  \<open>delivers cd E pid cls f d\<close>: the frame \<open>f\<close> of the peer \<open>pid\<close> may reach the connection
  \<open>d\<close>, given the registrations \<open>E\<close>: its envelope names \<open>pid\<close> as sender and an identity
  registered on \<open>d\<close> as addressee, its kind is one that the sender's class may originate,
  and calls and errors name an identity of the class that takes them.
\<close>

definition delivers ::
    "codec \<Rightarrow> (string \<times> PeerClass \<times> sink) set \<Rightarrow> string \<Rightarrow> PeerClass \<Rightarrow> bytes \<Rightarrow> sink \<Rightarrow> bool" where
  "delivers cd E pid cls f d \<longleftrightarrow> (\<exists>p. decode_frame cd f = Inr p \<and> env_from (fp_envelope p) = pid \<and>
     (env_kind (fp_envelope p) = KIND_CALL \<and> cls = Caller \<and> (\<exists>x. (env_to (fp_envelope p), Service, x) \<in> E) \<or>
      env_kind (fp_envelope p) = KIND_RESPONSE \<and> cls = Service \<or>
      env_kind (fp_envelope p) = KIND_ERROR \<and> cls = Service \<and> (\<exists>x. (env_to (fp_envelope p), Caller, x) \<in> E) \<or>
      env_kind (fp_envelope p) = KIND_HEARTBEAT) \<and>
     (\<exists>k. (env_to (fp_envelope p), k, d) \<in> E))"

lemma delivers_mono: "delivers cd E pid cls f d \<Longrightarrow> E \<subseteq> E' \<Longrightarrow> delivers cd E' pid cls f d"
  unfolding delivers_def by blast

definition own_or :: "codec \<Rightarrow> sink \<Rightarrow> (sink \<Rightarrow> bytes \<Rightarrow> bool) \<Rightarrow> sink \<Rightarrow> bytes \<Rightarrow> bool" where
  "own_or cd c P d f \<longleftrightarrow> d = c \<and> router_made cd f \<or> P d f"

abbreviation known :: "(string \<times> PeerClass \<times> sink) set \<Rightarrow> World \<Rightarrow> bool" where
  "known E w \<equiv> registrations w \<subseteq> E"

lemma emits_send_frame [emits_intros]:
  "env_from e = ROUTER_PEER_ID \<Longrightarrow> env_kind e \<in> {KIND_RESPONSE, KIND_ERROR, KIND_HEARTBEAT} \<Longrightarrow>
   emits J (own_or cd c P) (send_frame cd c e b)"
  unfolding send_frame_def
  by (intro emits_intros) (auto simp: own_or_def router_made_def)

lemma emits_send_errors [emits_intros]:
  "emits J (own_or cd c P) (send_peer_error cd c m code msg)"
  "emits J (own_or cd c P) (send_error_and_close cd c m code msg)"
  "emits J (own_or cd c P) (send_register_ack cd c m r)"
  unfolding send_peer_error_def send_error_and_close_def send_register_ack_def
  by (intro emits_intros; simp add: build_envelope_def)+

lemma emits_route_to_target [emits_intros]:
  assumes "\<And>k d. (env_to e, k, d) \<in> E \<Longrightarrow> P d raw"
  shows "emits (known E) (own_or cd c P) (route_to_target cd e raw c kind)"
proof -
  have send: "emits (known E) (own_or cd c P) (pbind (send_raw d raw) (\<lambda>r. case r of
      Inr _ \<Rightarrow> Ret (Inr ())
    | Inl _ \<Rightarrow> pbind (reg_remove (env_to e)) (\<lambda>_. send_peer_error cd c (env_msg_id e) ''peer_not_found''
          (kind @ '' target disconnected''))))"
    if "known E w" and "sender_by_peer_id (env_to e) (w_peers w) = Some d" for w d
    using that assms
    by (intro emits_send_bind) (auto simp: own_or_def registrations_def sender_by_peer_id_def intro!: emits_intros)
  show ?thesis
    unfolding route_to_target_def
    by (intro emits_intros) (auto split: option.splits intro!: emits_intros send)
qed

lemma class_known: "known E w \<Longrightarrow> snapshot_peer_class pid (w_peers w) = Some k \<Longrightarrow> \<exists>x. (pid, k, x) \<in> E"
  by (auto simp: registrations_def snapshot_peer_class_def)

lemma emits_route_or_error:
  assumes "\<And>k d j x. (env_to e, k, d) \<in> E \<Longrightarrow> (env_to e, j, x) \<in> E \<Longrightarrow>
      decide_route_target kind (Some j) = Deliver \<Longrightarrow> P d raw"
  shows "emits (known E) (own_or cd c P) (route_or_error cd e raw kind c)"
proof -
  have "emits (known E) (own_or cd c P) (route_to_target cd e raw c kind)"
    if "known E w" and "decide_route_target kind (snapshot_peer_class (env_to e) (w_peers w)) = Deliver" for w
  proof (cases "snapshot_peer_class (env_to e) (w_peers w)")
    case None
    then show ?thesis using that(2) by (simp add: decide_route_target_def)
  next
    case (Some j)
    then show ?thesis
      using class_known [OF that(1) Some] that(2) assms by (intro emits_route_to_target) fastforce
  qed
  then show ?thesis
    unfolding route_or_error_def
    by (intro emits_intros)
      (auto split: RouteTargetDecision.splits intro!: emits_then_Ret emits_send_errors)
qed

lemma emits_handle_query [emits_intros]: "emits J (own_or cd c P) (handle_query cd c pid e body)"
  unfolding handle_query_def Let_def
  by (intro emits_intros) (auto split: QueryBody.splits intro!: emits_intros)

lemma emits_handle_disconnect [emits_intros]: "emits J (own_or cd c P) (handle_disconnect cd c pid e body)"
  unfolding handle_disconnect_def by (intro emits_intros; simp add: build_envelope_def)

lemma emits_handle_heartbeat:
  assumes "\<And>k d. (env_to e, k, d) \<in> E \<Longrightarrow> P d raw"
  shows "emits (known E) (own_or cd c P) (handle_heartbeat cd c pid e raw)"
  unfolding handle_heartbeat_def
  by (intro emits_intros) (auto simp: build_envelope_def intro!: emits_intros emits_route_to_target [where P = P, OF assms])

lemma emits_handle_call:
  assumes "\<And>k d x. (env_to e, k, d) \<in> E \<Longrightarrow> (env_to e, Service, x) \<in> E \<Longrightarrow> cls = Caller \<Longrightarrow> P d raw"
  shows "emits (known E) (own_or cd c P) (handle_call cd c cls e raw)"
proof -
  have "emits (known E) (own_or cd c P) (route_or_error cd e raw ''call'' c)" if "cls = Caller"
  proof (rule emits_route_or_error)
    fix k d j x
    assume "(env_to e, k, d) \<in> E" "(env_to e, j, x) \<in> E" "decide_route_target ''call'' (Some j) = Deliver"
    then show "P d raw" using that assms by (cases j) (auto simp: decide_route_target_def kind_defs)
  qed
  then show ?thesis unfolding handle_call_def by (auto intro!: emits_intros intro: PeerClass.exhaust)
qed

lemma emits_handle_error:
  assumes "\<And>k d x. (env_to e, k, d) \<in> E \<Longrightarrow> (env_to e, Caller, x) \<in> E \<Longrightarrow> cls = Service \<Longrightarrow> P d raw"
  shows "emits (known E) (own_or cd c P) (handle_error cd c cls e raw)"
proof -
  have "emits (known E) (own_or cd c P) (route_or_error cd e raw ''error'' c)" if "cls = Service"
  proof (rule emits_route_or_error)
    fix k d j x
    assume "(env_to e, k, d) \<in> E" "(env_to e, j, x) \<in> E" "decide_route_target ''error'' (Some j) = Deliver"
    then show "P d raw" using that assms by (cases j) (auto simp: decide_route_target_def kind_defs)
  qed
  then show ?thesis unfolding handle_error_def by (auto intro!: emits_intros)
qed

lemma emits_handle_response:
  assumes "\<And>k d. (env_to e, k, d) \<in> E \<Longrightarrow> cls = Service \<Longrightarrow> P d raw"
  shows "emits (known E) (own_or cd c P) (handle_response cd c cls e raw)"
  using assms unfolding handle_response_def by (auto intro!: emits_intros)

definition relays :: "codec \<Rightarrow> (string \<times> PeerClass \<times> sink) set \<Rightarrow> string \<Rightarrow> PeerClass \<Rightarrow> ws_item \<Rightarrow> sink \<Rightarrow> bytes \<Rightarrow> bool" where
  "relays cd E pid cls item d f \<longleftrightarrow> item = ItemOk (Binary f) \<and> delivers cd E pid cls f d"

lemma emits_dispatch:
  "emits (known E) (own_or cd c (relays cd E pid cls (ItemOk (Binary raw)))) (dispatch_frame cd c pid cls raw)"
  unfolding dispatch_frame_def Let_def
  by (intro emits_plift)
    (auto simp: relays_def delivers_def intro!: emits_then_Ret emits_handle_call emits_handle_error
      emits_handle_response emits_handle_heartbeat emits_handle_query emits_handle_disconnect emits_send_errors)

lemma emits_loop_body:
  "emits (known E) (own_or cd c (relays cd E pid cls item)) (loop_body cd c pid cls item)"
  by (cases "(cd, c, pid, cls, item)" rule: loop_body.cases) (auto intro!: emits_intros emits_dispatch)


lemma emits_handshake: "emits J (own_or cd c P) (handshake cd c item)"
proof -
  have ending: "emits J (own_or cd c P) (pbind (send_error_and_close cd c m code msg)
      (\<lambda>a. case a of Inl e \<Rightarrow> Ret (None, Inl e) | Inr _ \<Rightarrow> Ret (None, Inr None)))" for m code msg
    by (intro emits_then_silent emits_intros) (auto split: sum.splits)
  have ack: "emits J (own_or cd c P) (pbind (send_register_ack cd c m b) (\<lambda>a. case a of
      Inl err \<Rightarrow> Ret (Some (reg_peer_id b), Inl err)
    | Inr _ \<Rightarrow> Ret (Some (reg_peer_id b), Inr (Some (reg_peer_id b, reg_class b)))))" for m b
    by (intro emits_then_silent emits_intros) (auto split: sum.splits)
  show ?thesis
    unfolding handshake_def Let_def
    by (auto split: ws_item.splits sum.splits RouterError.splits intro!: emits_Ret ending ack emits_read_bind(8))
qed

section \<open>The invariant of audited runs\<close>

definition relayed :: "sink \<Rightarrow> (sink \<times> sink \<times> bytes) list \<Rightarrow> ws_item list" where
  "relayed c log = [ItemOk (Binary f). (c', d, f) \<leftarrow> log, c' = c \<and> d \<noteq> c]"

fun task_audit :: "codec \<Rightarrow> (string \<times> PeerClass \<times> sink) set \<Rightarrow> sink \<Rightarrow> ws_item list \<Rightarrow> ws_item list \<Rightarrow> conn_task \<Rightarrow> bool" where
  "task_audit cd E c items out (Shaking p) \<longleftrightarrow> emits any (own_or cd c (\<lambda>_ _. False)) p \<and>
     (fresh_prog c p \<or> (\<exists>pid cls. registered_prog pid cls p \<and> (pid, cls, c) \<in> E))"
| "task_audit cd E c items out (Looping pid cls) \<longleftrightarrow> (pid, cls, c) \<in> E"
| "task_audit cd E c items out (Handling pid cls item p) \<longleftrightarrow> (pid, cls, c) \<in> E \<and>
     (silent p \<or> (\<exists>its. items = its @ [item] \<and> subseq out its) \<and>
        (\<forall>E'. E \<subseteq> E' \<longrightarrow> emits (known E') (own_or cd c (relays cd E' pid cls item)) p))"
| "task_audit cd E c items out _ \<longleftrightarrow> True"

lemma task_audit_mono: "task_audit cd E c items out t \<Longrightarrow> E \<subseteq> E' \<Longrightarrow> task_audit cd E' c items out t"
  by (cases "(cd, E, c, items, out, t)" rule: task_audit.cases) auto

definition explained :: "codec \<Rightarrow> (string \<times> PeerClass \<times> sink) set \<Rightarrow> sink \<Rightarrow> sink \<Rightarrow> bytes \<Rightarrow> bool" where
  "explained cd E c d f \<longleftrightarrow> d = c \<and> router_made cd f \<or>
     (\<exists>pid cls. (pid, cls, c) \<in> E \<and> delivers cd E pid cls f d)"

lemma explained_mono: "explained cd E c d f \<Longrightarrow> E \<subseteq> E' \<Longrightarrow> explained cd E' c d f"
  unfolding explained_def using delivers_mono by blast

definition audit_inv :: "codec \<Rightarrow> Audit \<Rightarrow> bool" where
  "audit_inv cd a \<longleftrightarrow>
     known (au_live a) (sys_world (au_sys a)) \<and>
     map snd (au_log a) = w_sent (sys_world (au_sys a)) \<and>
     (\<forall>(c, d, f) \<in> set (au_log a). explained cd (au_live a) c d f) \<and>
     (\<forall>c. subseq (relayed c (au_log a)) (au_items a c)) \<and>
     (\<forall>c t. sys_conns (au_sys a) c = Some t \<longrightarrow>
        task_audit cd (au_live a) c (au_items a c) (relayed c (au_log a)) t)"

lemma audit_inv_subseq: "audit_inv cd a \<Longrightarrow> subseq (relayed c (au_log a)) (au_items a c)"
  by (simp add: audit_inv_def)

lemma audit_inv_known: "audit_inv cd a \<Longrightarrow> known (au_live a) (sys_world (au_sys a))"
  by (simp add: audit_inv_def)

lemma audit_inv_task: "audit_inv cd a \<Longrightarrow> sys_conns (au_sys a) c = Some t \<Longrightarrow>
    task_audit cd (au_live a) c (au_items a c) (relayed c (au_log a)) t"
  by (simp add: audit_inv_def)

lemma relayed_append [simp]: "relayed c (l @ l') = relayed c l @ relayed c l'"
  by (simp add: relayed_def)

lemma relayed_Nil [simp]: "relayed c [] = []"
  by (simp add: relayed_def)

lemma relayed_other [simp]: "c' \<noteq> c \<Longrightarrow> relayed c' (map (Pair c) new) = []"
  by (induction new) (auto simp: relayed_def)

lemma audit_frame:
  assumes inv: "audit_inv cd a" and sent: "w_sent w = w_sent (sys_world (au_sys a)) @ new"
    and ok: "\<And>d f. (d, f) \<in> set new \<Longrightarrow> explained cd (au_live a) c d f"
    and items: "\<And>c'. c' \<noteq> c \<Longrightarrow> items c' = au_items a c'"
    and sub: "subseq (relayed c (au_log a) @ relayed c (map (Pair c) new)) (items c)"
    and task: "task_audit cd (au_live a \<union> registrations w) c (items c)
      (relayed c (au_log a) @ relayed c (map (Pair c) new)) t"
  shows "audit_inv cd \<lparr>au_sys = set_task (au_sys a) c t w, au_items = items,
    au_log = au_log a @ map (Pair c) new, au_live = au_live a \<union> registrations w\<rparr>"
proof -
  have "explained cd (au_live a \<union> registrations w) c' d f" if "(c', d, f) \<in> set (au_log a @ map (Pair c) new)" for c' d f
    using that inv ok by (auto simp: audit_inv_def intro: explained_mono)
  moreover have "subseq (relayed c' (au_log a @ map (Pair c) new)) (items c')" for c'
    using sub items inv by (cases "c' = c") (auto simp: audit_inv_def)
  moreover have "task_audit cd (au_live a \<union> registrations w) c' (items c')
      (relayed c' (au_log a @ map (Pair c) new)) u"
    if "((sys_conns (au_sys a))(c \<mapsto> t)) c' = Some u" for c' u
    using that task items inv by (cases "c' = c") (auto simp: audit_inv_def intro: task_audit_mono [OF _ Un_upper1])
  ultimately show ?thesis
    using inv sent by (auto simp: audit_inv_def comp_def)
qed

lemma audit_quiet:
  assumes inv: "audit_inv cd a" and sent: "w_sent w = w_sent (sys_world (au_sys a))"
    and task: "task_audit cd (au_live a \<union> registrations w) c (au_items a c) (relayed c (au_log a)) t"
  shows "audit_inv cd \<lparr>au_sys = set_task (au_sys a) c t w, au_items = au_items a,
    au_log = au_log a, au_live = au_live a \<union> registrations w\<rparr>"
  using audit_frame [OF inv, of w "[]" c "au_items a" t] sent task audit_inv_subseq [OF inv] by simp

lemma audit_take:
  assumes inv: "audit_inv cd a"
    and task: "task_audit cd (au_live a \<union> registrations (sys_world (au_sys a))) c (au_items a c @ [item])
      (relayed c (au_log a)) t"
  shows "audit_inv cd \<lparr>au_sys = set_task (au_sys a) c t (sys_world (au_sys a)),
    au_items = (au_items a)(c := au_items a c @ [item]),
    au_log = au_log a, au_live = au_live a \<union> registrations (sys_world (au_sys a))\<rparr>"
  using audit_frame [OF inv, of "sys_world (au_sys a)" "[]" c "(au_items a)(c := au_items a c @ [item])" t]
    task audit_inv_subseq [OF inv] by (simp add: subseq_rev_drop_many)


lemma audit_shake:
  assumes inv: "audit_inv cd a" and conn: "sys_conns (au_sys a) c = Some (Shaking (Act g))"
  defines "w \<equiv> sys_world (au_sys a)"
  shows "\<exists>new. w_sent (snd (g w)) = w_sent w @ new \<and> audit_inv cd
    \<lparr>au_sys = set_task (au_sys a) c (Shaking (fst (g w))) (snd (g w)), au_items = au_items a,
     au_log = au_log a @ map (Pair c) new, au_live = au_live a \<union> registrations (snd (g w))\<rparr>"
proof -
  note task = audit_inv_task [OF inv conn, simplified]
  have reg: "fresh_prog c (fst (g w)) \<or> (\<exists>pid cls. registered_prog pid cls (fst (g w)) \<and>
      (pid, cls, c) \<in> au_live a \<union> registrations (snd (g w)))"
    using task
  proof (elim conjE disjE)
    assume "fresh_prog c (Act g)"
    then have "fresh_prog c (fst (g w)) \<or> (\<exists>pid cls. w_peers (snd (g w)) =
        (w_peers w)(pid \<mapsto> fresh_record (w_instant w) pid cls c) \<and> registered_prog pid cls (fst (g w)))"
      by (rule fresh_ActE) blast
    then show ?thesis using registered_now by blast
  next
    assume "\<exists>pid cls. registered_prog pid cls (Act g) \<and> (pid, cls, c) \<in> au_live a"
    then show ?thesis by (auto simp: guar_Act_iff)
  qed
  from task have "emits any (own_or cd c (\<lambda>_ _. False)) (Act g)" by blast
  then have "w_sent (snd (g w)) = w_sent w \<and> emits any (own_or cd c (\<lambda>_ _. False)) (fst (g w)) \<or>
      (\<exists>d f. w_sent (snd (g w)) = w_sent w @ [(d, f)] \<and> own_or cd c (\<lambda>_ _. False) d f \<and> silent (fst (g w)))"
    by (simp add: emits_Act_iff)
  then consider (quiet) "w_sent (snd (g w)) = w_sent w" "emits any (own_or cd c (\<lambda>_ _. False)) (fst (g w))"
    | (wrote) d f where "w_sent (snd (g w)) = w_sent w @ [(d, f)]" "own_or cd c (\<lambda>_ _. False) d f" "silent (fst (g w))"
    by blast
  then show ?thesis
  proof cases
    case quiet
    then show ?thesis
      using audit_quiet [OF inv, of "snd (g w)" c "Shaking (fst (g w))"] reg
      by (intro exI [of _ "[]"]) (simp add: w_def)
  next
    case wrote
    then show ?thesis
      using audit_frame [OF inv, of "snd (g w)" "[(d, f)]" c "au_items a" "Shaking (fst (g w))"] reg
        audit_inv_subseq [OF inv]
      by (intro exI [of _ "[(d, f)]"])
        (simp add: w_def own_or_def explained_def relayed_def emits_silent)
  qed
qed

lemma audit_handle:
  assumes inv: "audit_inv cd a" and conn: "sys_conns (au_sys a) c = Some (Handling pid cls item (Act g))"
  defines "w \<equiv> sys_world (au_sys a)"
  shows "\<exists>new. w_sent (snd (g w)) = w_sent w @ new \<and> audit_inv cd
    \<lparr>au_sys = set_task (au_sys a) c (Handling pid cls item (fst (g w))) (snd (g w)), au_items = au_items a,
     au_log = au_log a @ map (Pair c) new, au_live = au_live a \<union> registrations (snd (g w))\<rparr>"
proof -
  have live: "(pid, cls, c) \<in> au_live a" using audit_inv_task [OF inv conn] by simp
  have known: "known E w" if "au_live a \<subseteq> E" for E
    using audit_inv_known [OF inv] that unfolding w_def by blast
  from audit_inv_task [OF inv conn] consider (silent) "silent (Act g)"
    | (active) its where "au_items a c = its @ [item]" "subseq (relayed c (au_log a)) its"
        "\<And>E. au_live a \<subseteq> E \<Longrightarrow> emits (known E) (own_or cd c (relays cd E pid cls item)) (Act g)"
    by auto
  then consider (quiet) "w_sent (snd (g w)) = w_sent w" "task_audit cd (au_live a \<union> registrations (snd (g w))) c
        (au_items a c) (relayed c (au_log a)) (Handling pid cls item (fst (g w)))"
    | (wrote) d f its where "w_sent (snd (g w)) = w_sent w @ [(d, f)]" "silent (fst (g w))"
        "own_or cd c (relays cd (au_live a) pid cls item) d f"
        "au_items a c = its @ [item]" "subseq (relayed c (au_log a)) its"
  proof cases
    case silent
    then show ?thesis using that(1) live by (simp add: guar_Act_iff)
  next
    case active
    have one: "w_sent (snd (g w)) = w_sent w \<and> emits (known E) (own_or cd c (relays cd E pid cls item)) (fst (g w)) \<or>
        (\<exists>d f. w_sent (snd (g w)) = w_sent w @ [(d, f)] \<and> own_or cd c (relays cd E pid cls item) d f \<and> silent (fst (g w)))"
      if "au_live a \<subseteq> E" for E
      using active(3) [OF that] known [OF that] by (simp add: emits_Act_iff)
    show ?thesis
    proof (cases "w_sent (snd (g w)) = w_sent w")
      case True
      then have "emits (known E) (own_or cd c (relays cd E pid cls item)) (fst (g w))" if "au_live a \<subseteq> E" for E
        using one [OF that] by auto
      then show ?thesis using that(1) True live active(1,2) by simp
    next
      case False
      then show ?thesis using one [OF subset_refl] that(2) active(1,2) by blast
    qed
  qed
  then show ?thesis
  proof cases
    case quiet
    then show ?thesis
      using audit_quiet [OF inv, of "snd (g w)" c "Handling pid cls item (fst (g w))"]
      by (intro exI [of _ "[]"]) (simp add: w_def)
  next
    case wrote
    have "explained cd (au_live a) c d f"
      using wrote(3) live by (auto simp: own_or_def relays_def explained_def)
    moreover have "subseq (relayed c (au_log a) @ relayed c [(c, d, f)]) (au_items a c)"
      using wrote(3-5) by (auto simp: own_or_def relays_def relayed_def intro: subseq_rev_drop_many)
    ultimately show ?thesis
      using audit_frame [OF inv, of "snd (g w)" "[(d, f)]" c "au_items a" "Handling pid cls item (fst (g w))"] wrote(1,2) live
      by (intro exI [of _ "[(d, f)]"]) (simp add: w_def)
  qed
qed

lemma registrations_env [simp]:
  "registrations (w\<lparr>w_send_err := errs, w_instant := i, w_clock := k\<rparr>) = registrations w"
  by (simp add: registrations_def)

lemma audit_step_inv:
  assumes inv: "audit_inv cd a" and step: "audit_step cd a b"
  shows "audit_inv cd b"
  using step
proof cases
  case (audited l t)
  note audited = audited [unfolded audit_note_def]
  from audited(2) show ?thesis
  proof cases
    case (mv_accept c)
    then show ?thesis using audited(1) audit_quiet [OF inv, of "sys_world (au_sys a)" c AwaitFirst] by simp
  next
    case (mv_first c item)
    then show ?thesis using audited(1) audit_take [OF inv, of c item "Shaking (handshake cd c item)"]
      by (simp add: emits_handshake fresh_handshake)
  next
    case (mv_shake c g)
    then show ?thesis using audited(1) audit_shake [OF inv mv_shake(3)] by auto
  next
    case (mv_shaken c rp start)
    have "task_audit cd (au_live a \<union> registrations (sys_world (au_sys a))) c (au_items a c)
        (relayed c (au_log a)) (after_handshake rp start)"
      using audit_inv_task [OF inv mv_shaken(3)]
      by (auto simp: after_handshake_def registered_result_def split: sum.splits option.splits elim: fresh_RetE)
    then show ?thesis using audited(1) mv_shaken audit_quiet [OF inv] by simp
  next
    case (mv_next c pid cls item)
    have "(pid, cls, c) \<in> au_live a" using audit_inv_task [OF inv mv_next(3)] by simp
    then show ?thesis
      using audited(1) mv_next audit_take [OF inv, of c item "Handling pid cls item (loop_body cd c pid cls item)"]
        audit_inv_subseq [OF inv] by (simp add: emits_loop_body)
  next
    case (mv_handle c pid cls item g)
    then show ?thesis using audited(1) audit_handle [OF inv mv_handle(3)] by auto
  next
    case (mv_handled c pid cls item r)
    have "(pid, cls, c) \<in> au_live a" using audit_inv_task [OF inv mv_handled(3)] by simp
    then have "task_audit cd (au_live a \<union> registrations (sys_world (au_sys a))) c (au_items a c)
        (relayed c (au_log a)) (after_body pid cls r)"
      by (auto simp: after_body_def split: sum.splits loop_ctl.splits)
    then show ?thesis using audited(1) mv_handled audit_quiet [OF inv] by simp
  next
    case (mv_close c rp res)
    have "w_sent (snd (run (cleanup rp res) (sys_world (au_sys a)))) = w_sent (sys_world (au_sys a))"
      by (simp add: cleanup_def split: option.splits)
    then show ?thesis using audited(1) mv_close audit_quiet [OF inv, of _ c "Finished res"] by simp
  next
    case (mv_outside errs i k)
    then show ?thesis using audited(1) inv by (simp add: audit_inv_def Un_absorb2)
  qed
qed

interpretation audited: inductive_invariant audit_init "audit_step cd" "audit_inv cd" for cd
proof unfold_locales
  show "audit_init a \<Longrightarrow> audit_inv cd a" for a
    by (simp add: audit_init_def audit_inv_def router_init_def registrations_def new_registry_def)
  show "audit_inv cd a \<Longrightarrow> audit_step cd a b \<Longrightarrow> audit_inv cd b" for a b
    by (rule audit_step_inv)
qed


section \<open>Registrations\<close>

text \<open>Every registration ever live was made by the first item its connection sent.\<close>

definition registers_step :: "codec \<Rightarrow> sink \<Rightarrow> ws_item \<Rightarrow> World \<Rightarrow> World \<Rightarrow> bool" where
  "registers_step cd c item w w' \<longleftrightarrow>
     registrations w' \<subseteq> registrations w \<union> {(pid, cls, c) |pid cls. registers_as cd item pid cls}"

lemma shrink_registrations: "peers_shrink w w' \<Longrightarrow> registrations w' \<subseteq> registrations w"
  by (fastforce simp: registrations_def peers_shrink_def same_view_def)

lemma registers_step_shrink: "peers_shrink w w' \<Longrightarrow> registers_step cd c item w w'"
  using shrink_registrations by (fastforce simp: registers_step_def)

lemma handshake_registers: "guar (registers_step cd c item) any (handshake cd c item)"
proof -
  have send: "guar (registers_step cd c it) any (send_error_and_close cd c m code msg)"
    "guar (registers_step cd c it) any (send_register_ack cd c m b)" for m code msg b it
    by (rule guar_mono [OF send_shrink(1)], rule registers_step_shrink, assumption, simp,
        rule guar_mono [OF send_shrink(2)], rule registers_step_shrink, assumption, simp)
  have ending: "guar (registers_step cd c it) any (pbind (send_error_and_close cd c m code msg)
      (\<lambda>a. case a of Inl e \<Rightarrow> Ret (None, Inl e) | Inr _ \<Rightarrow> Ret (None, Inr None)))" for m code msg it
    by (intro guar_bind_any send) (auto split: sum.splits)
  have ack: "guar (registers_step cd c it) any (pbind (send_register_ack cd c m b) (\<lambda>a. case a of
      Inl err \<Rightarrow> Ret (Some (reg_peer_id b), Inl err)
    | Inr _ \<Rightarrow> Ret (Some (reg_peer_id b), Inr (Some (reg_peer_id b, reg_class b)))))" for m b it
    by (intro guar_bind_any send) (auto split: sum.splits)
  have insert: "guar (registers_step cd c it) any (reg_insert pid cls c)" if "registers_as cd it pid cls" for pid cls it
    using that by (auto simp: reg_insert_def insert_live_peer_def registers_step_def registrations_def split_beta
        split: if_splits)
  have reg: "guar (registers_step cd c it) any (pbind (reg_insert (reg_peer_id b) (reg_class b) c) (\<lambda>r. case r of
      Inr _ \<Rightarrow> pbind (send_register_ack cd c m b) (\<lambda>a. case a of
          Inl err \<Rightarrow> Ret (Some (reg_peer_id b), Inl err)
        | Inr _ \<Rightarrow> Ret (Some (reg_peer_id b), Inr (Some (reg_peer_id b, reg_class b))))
    | Inl err \<Rightarrow> (case err of
          DuplicatePeerId peer_id \<Rightarrow>
            pbind (send_error_and_close cd c m ''duplicate_peer_id'' (''peer_id '' @ peer_id @ '' is already live''))
              (\<lambda>a. case a of Inl e \<Rightarrow> Ret (None, Inl e) | Inr _ \<Rightarrow> Ret (None, Inr None))
        | _ \<Rightarrow> Ret (None, Inl err))))" if "registers_as cd it (reg_peer_id b) (reg_class b)" for m b it
    by (rule guar_bind_any [OF insert [OF that]]) (auto split: sum.splits RouterError.splits intro: ending [simplified] ack)
  have as: "registers_as cd (ItemOk message) (reg_peer_id b) (reg_class b)"
    if "and_then (ensure_binary_ws_message message) (decode_frame cd) = Inr p"
      and "env_kind (fp_envelope p) = KIND_REGISTER"
      and "and_then (decode_register_body cd (fp_body_bytes p)) (\<lambda>register.
        and_then (validate_register_envelope (fp_envelope p) register) (\<lambda>_. Inr register)) = Inr b" for message p b
    using that by (cases message; cases b) (auto simp: registers_as_def and_then_eq_Inr validate_ok_iff
        decode_register_body_def)
  show ?thesis
    unfolding handshake_def Let_def
    by (auto split: ws_item.splits sum.splits simp del: append_Cons intro!: ending reg as)
qed


fun registered_task :: "codec \<Rightarrow> sink \<Rightarrow> ws_item list \<Rightarrow> conn_task option \<Rightarrow> bool" where
  "registered_task cd c items None \<longleftrightarrow> items = []"
| "registered_task cd c items (Some AwaitFirst) \<longleftrightarrow> items = []"
| "registered_task cd c items (Some (Shaking p)) \<longleftrightarrow>
     (\<exists>item. items = [item] \<and> guar (registers_step cd c item) any p)"
| "registered_task cd c items (Some t) \<longleftrightarrow> items \<noteq> []"

definition registered_first :: "codec \<Rightarrow> Audit \<Rightarrow> bool" where
  "registered_first cd a \<longleftrightarrow>
     (\<forall>(pid, cls, c) \<in> au_live a. au_items a c \<noteq> [] \<and> registers_as cd (hd (au_items a c)) pid cls) \<and>
     (\<forall>c. registered_task cd c (au_items a c) (sys_conns (au_sys a) c))"

lemma registered_firstD:
  assumes "registered_first cd a"
  shows "(pid, cls, c) \<in> au_live a \<Longrightarrow> au_items a c \<noteq> [] \<and> registers_as cd (hd (au_items a c)) pid cls"
    and "registered_task cd c (au_items a c) (sys_conns (au_sys a) c)"
  using assms unfolding registered_first_def by auto

lemma registered_frame:
  assumes inv: "registered_first cd a" and known: "known (au_live a) (sys_world (au_sys a))"
    and reg: "registrations (sys_world t) \<subseteq> registrations (sys_world (au_sys a)) \<union>
      {(pid, cls, c) |pid cls. items c \<noteq> [] \<and> registers_as cd (hd (items c)) pid cls}"
    and items: "\<And>x. x \<noteq> c \<Longrightarrow> items x = au_items a x" "au_items a c \<noteq> [] \<Longrightarrow> items c \<noteq> [] \<and> hd (items c) = hd (au_items a c)"
    and conns: "\<And>x. x \<noteq> c \<Longrightarrow> sys_conns t x = sys_conns (au_sys a) x"
    and task: "registered_task cd c (items c) (sys_conns t c)"
  shows "registered_first cd \<lparr>au_sys = t, au_items = items, au_log = l, au_live = au_live a \<union> registrations (sys_world t)\<rparr>"
proof -
  have "items x \<noteq> [] \<and> registers_as cd (hd (items x)) pid cls"
    if "(pid, cls, x) \<in> au_live a \<union> registrations (sys_world t)" for pid cls x
  proof (cases "(pid, cls, x) \<in> au_live a")
    case True
    then show ?thesis using registered_firstD(1) [OF inv True] items by (cases "x = c") auto
  next
    case False
    then show ?thesis using that reg known by auto
  qed
  moreover have "registered_task cd x (items x) (sys_conns t x)" for x
    using task registered_firstD(2) [OF inv, of x] items(1) conns by (cases "x = c") auto
  ultimately show ?thesis unfolding registered_first_def by auto
qed

lemma registered_quiet:
  assumes "registered_first cd a" and "known (au_live a) (sys_world (au_sys a))"
    and "peers_shrink (sys_world (au_sys a)) w" and "registered_task cd c (au_items a c) (Some u)"
  shows "registered_first cd \<lparr>au_sys = set_task (au_sys a) c u w, au_items = au_items a, au_log = l,
    au_live = au_live a \<union> registrations w\<rparr>"
  using registered_frame [OF assms(1,2), where t = "set_task (au_sys a) c u w" and items = "au_items a" and c = c and l = l]
    shrink_registrations [OF assms(3)] assms(4) by auto

lemma registered_step:
  assumes inv: "registered_first cd a" and known: "known (au_live a) (sys_world (au_sys a))"
    and sys: "sys_inv (au_sys a)" and step: "audit_step cd a b"
  shows "registered_first cd b"
  using step
proof cases
  case (audited l t)
  note b = audited(1) [unfolded audit_note_def]
  note quiet = registered_quiet [OF inv known]
  from audited(2) show ?thesis
  proof cases
    case (mv_accept c)
    then show ?thesis using b quiet registered_firstD(2) [OF inv, of c] by simp
  next
    case (mv_first c item)
    then have "registered_task cd c [item] (Some (Shaking (handshake cd c item)))"
      using handshake_registers by simp
    then show ?thesis
      using b mv_first registered_firstD(2) [OF inv, of c]
        registered_frame [OF inv known, where t = t and items = "(au_items a)(c := au_items a c @ [item])" and c = c] by auto
  next
    case (mv_shake c g)
    then obtain item where i: "au_items a c = [item]" "guar (registers_step cd c item) any (Act g)"
      using registered_firstD(2) [OF inv, of c] by auto
    then have "registers_step cd c item (sys_world (au_sys a)) (snd (g (sys_world (au_sys a))))"
      "guar (registers_step cd c item) any (fst (g (sys_world (au_sys a))))"
      by (simp_all add: guar_Act_iff)
    then show ?thesis
      using b mv_shake i registered_frame [OF inv known, where t = t and items = "au_items a" and c = c] by (auto simp: registers_step_def)
  next
    case (mv_shaken c rp start)
    then have "au_items a c \<noteq> []" using registered_firstD(2) [OF inv, of c] by auto
    then show ?thesis using b mv_shaken quiet [of "sys_world (au_sys a)" c "after_handshake rp start"]
      by (auto simp: after_handshake_def split: sum.splits option.splits)
  next
    case (mv_next c pid cls item)
    then have "au_items a c \<noteq> []" using registered_firstD(2) [OF inv, of c] by auto
    then show ?thesis
      using b mv_next registered_frame [OF inv known, where t = t and items = "(au_items a)(c := au_items a c @ [item])" and c = c] by auto
  next
    case (mv_handle c pid cls item g)
    have "guar peers_shrink any (Act g)" using sys_inv_task [OF sys mv_handle(3)] by simp
    then have "peers_shrink (sys_world (au_sys a)) (snd (g (sys_world (au_sys a))))" by (simp add: guar_Act_iff)
    then show ?thesis using b mv_handle quiet registered_firstD(2) [OF inv, of c] by auto
  next
    case (mv_handled c pid cls item r)
    then show ?thesis
      using b quiet [of "sys_world (au_sys a)" c "after_body pid cls r"] registered_firstD(2) [OF inv, of c]
      by (auto simp: after_body_def split: sum.splits loop_ctl.splits)
  next
    case (mv_close c rp res)
    have "peers_shrink (sys_world (au_sys a)) (snd (run (cleanup rp res) (sys_world (au_sys a))))"
      by (auto simp: cleanup_def peers_shrink_def split: option.splits)
    then show ?thesis using b mv_close quiet registered_firstD(2) [OF inv, of c] by auto
  next
    case (mv_outside errs i k)
    then show ?thesis using b inv known by (simp add: registered_first_def Un_absorb2)
  qed
qed

text \<open>That first items register is an invariant relative to those of the audit and the router.\<close>

interpretation checked: relative_invariant audit_init "audit_step cd" "audit_inv cd" "\<lambda>a. sys_inv (au_sys a)" for cd
  by unfold_locales (auto intro: watched.whole.init_inv watched.whole.step_inv)

interpretation registered: relative_invariant audit_init "audit_step cd" "\<lambda>a. audit_inv cd a \<and> sys_inv (au_sys a)"
    "registered_first cd" for cd
proof unfold_locales
  show "audit_init a \<Longrightarrow> registered_first cd a" for a
    by (simp add: audit_init_def registered_first_def router_init_def)
  show "audit_inv cd a \<and> sys_inv (au_sys a) \<Longrightarrow> registered_first cd a \<Longrightarrow> audit_step cd a b \<Longrightarrow> registered_first cd b" for a b
    using registered_step audit_inv_known by blast
qed

lemma reachable_registered: "reachable audit_init (audit_step cd) a \<Longrightarrow> registered_first cd a"
  using registered.both.reachable_inv by blast

section \<open>Delivery\<close>

text \<open>
  C4: who receives what, under every interleaving of any number of connections, any
  items they send and any socket failures. Every frame the router ever wrote was written
  by one connection's task (the audited log is the router's log). It is either a frame
  the router itself made (\<open>from\<close> the router, an answer, an error or a heartbeat) for that
  very connection; or the connection is registered as the frame's \<open>from\<close>, with a class
  that may originate its kind, and the frame reaches a connection that registered the
  frame's \<open>to\<close>, which for a call was registered as a service and for an error as a
  caller. A connection has no other identity and class than those its first item
  registered. The frames that a connection's task writes to other connections are a
  subsequence of the items it received: bytes unchanged, each at most once, in order.
\<close>

theorem frames_reach_addressee:
  assumes "reachable audit_init (audit_step cd) a"
  shows "map snd (au_log a) = w_sent (sys_world (au_sys a)) \<and>
    (\<forall>c d f. (c, d, f) \<in> set (au_log a) \<longrightarrow> d = c \<and> router_made cd f \<or>
       (\<exists>pid cls. (pid, cls, c) \<in> au_live a \<and> delivers cd (au_live a) pid cls f d)) \<and>
    (\<forall>pid cls c. (pid, cls, c) \<in> au_live a \<longrightarrow>
       au_items a c \<noteq> [] \<and> registers_as cd (hd (au_items a c)) pid cls) \<and>
    (\<forall>c. subseq (relayed c (au_log a)) (au_items a c))"
  using audited.reachable_inv [OF assms] registered_firstD(1) [OF reachable_registered [OF assms]]
  unfolding audit_inv_def explained_def by auto

text \<open>A service and a caller register, and the caller's call goes through.\<close>

definition call_item :: ws_item where
  "call_item = ItemOk (Binary (frame_bytes msgpack (scene_envelope KIND_CALL ''cli'' ''svc'') []))"

lemma call_item_decodes: "decode_frame msgpack (frame_bytes msgpack (scene_envelope KIND_CALL ''cli'' ''svc'') []) =
    Inr \<lparr>fp_envelope = scene_envelope KIND_CALL ''cli'' ''svc'', fp_body_bytes = []\<rparr>"
  by (rule scene_decode) (simp add: KIND_CALL_def)

lemma two_peers:
  obtains s i j where "reachable router_init (router_step msgpack) s" "sockets_ok (sys_world s)"
    "sys_conns s = [1 \<mapsto> Looping ''svc'' Service, 2 \<mapsto> Looping ''cli'' Caller]"
    "w_peers (sys_world s) = [''svc'' \<mapsto> fresh_record i ''svc'' Service 1, ''cli'' \<mapsto> fresh_record j ''cli'' Caller 2]"
proof -
  have boot: "sockets_ok (sys_world boot)" "w_peers (sys_world boot) = Map.empty" "sys_conns boot = Map.empty"
    by (simp_all add: boot_def sockets_ok_def new_registry_def)
  obtain s where s: "reachable router_init (router_step msgpack) s" "sockets_ok (sys_world s)"
      "sys_conns s = [1 \<mapsto> Looping ''svc'' Service]"
      "w_peers (sys_world s) = [''svc'' \<mapsto> fresh_record (w_instant (sys_world boot)) ''svc'' Service 1]"
    by (rule register_reach [OF boot_reachable, of "''svc''" 1 Service]) (use boot in auto)
  obtain t where "reachable router_init (router_step msgpack) t" "sockets_ok (sys_world t)"
      "sys_conns t = (sys_conns s)(2 \<mapsto> Looping ''cli'' Caller)"
      "w_peers (sys_world t) = (w_peers (sys_world s))(''cli'' \<mapsto> fresh_record (w_instant (sys_world s)) ''cli'' Caller 2)"
    by (rule register_reach [OF s(1), of "''cli''" 2 Caller]) (use s in auto)
  then show ?thesis using that s(3,4) by (simp add: fun_upd_twist)
qed

theorem frames_reach_addressee_witness:
  "\<exists>a c f. reachable audit_init (audit_step msgpack) a \<and> call_item = ItemOk (Binary f) \<and>
     (c, 1, f) \<in> set (au_log a) \<and> (c = 1 \<and> router_made msgpack f \<or>
       (\<exists>pid cls. (pid, cls, c) \<in> au_live a \<and> delivers msgpack (au_live a) pid cls f 1 \<and>
          registers_as msgpack (hd (au_items a c)) pid cls)) \<and>
     subseq (relayed c (au_log a)) (au_items a c)"
proof -
  obtain s i j where s: "reachable router_init (router_step msgpack) s" "sockets_ok (sys_world s)"
    "sys_conns s = [1 \<mapsto> Looping ''svc'' Service, 2 \<mapsto> Looping ''cli'' Caller]"
    "w_peers (sys_world s) = [''svc'' \<mapsto> fresh_record i ''svc'' Service 1, ''cli'' \<mapsto> fresh_record j ''cli'' Caller 2]"
    by (rule two_peers)
  define f where "f = frame_bytes msgpack (scene_envelope KIND_CALL ''cli'' ''svc'') []"
  have "run (loop_body msgpack 2 ''cli'' Caller (ItemOk (Binary f))) (sys_world s) =
      (Inr Continue, (sys_world s)\<lparr>w_sent := w_sent (sys_world s) @ [(1, f)]\<rparr>)"
    using run_routed_frame [OF call_item_decodes, of "''cli''" 2 Caller "sys_world s"] s(2,4)
    by (simp add: f_def kind_defs spec_route_def routing_verdict_def live_def fresh_record_def deliver_def sockets_ok_def)
  then obtain t where t: "reachable router_init (router_step msgpack) t" "(1, f) \<in> set (w_sent (sys_world t))"
    using reachable_rtranclp [OF s(1) item_steps [of s 2 "''cli''" Caller msgpack "ItemOk (Binary f)"]] s(3) by auto
  obtain a where a: "reachable audit_init (audit_step msgpack) a" "au_sys a = t"
    using audit_exists [OF t(1)] by blast
  have "(1, f) \<in> set (map snd (au_log a))"
    using frames_reach_addressee [OF a(1)] a(2) t(2) by simp
  then obtain c where "(c, 1, f) \<in> set (au_log a)" by auto
  moreover from this have "c = 1 \<and> router_made msgpack f \<or>
      (\<exists>pid cls. (pid, cls, c) \<in> au_live a \<and> delivers msgpack (au_live a) pid cls f 1 \<and>
        registers_as msgpack (hd (au_items a c)) pid cls)"
    using frames_reach_addressee [OF a(1)] by blast
  ultimately show ?thesis
    using frames_reach_addressee [OF a(1)] a(1)
    by (intro exI [of _ a] exI [of _ c] exI [of _ f]) (simp add: call_item_def f_def)
qed


section \<open>The class check and the delivery are two actions\<close>

definition call_rest :: "codec \<Rightarrow> Envelope \<Rightarrow> bytes \<Rightarrow> sink \<Rightarrow> (RouterError + loop_ctl) task" where
  "call_rest cd e raw c = ptry (ptry (route_to_target cd e raw c ''call'') (\<lambda>_. Ret (Inr ()))) (\<lambda>_. Ret (Inr Continue))"

lemma call_class_check:
  assumes "decode_frame cd raw = Inr p" "env_from (fp_envelope p) = pid" "env_kind (fp_envelope p) = KIND_CALL"
    and "snapshot_peer_class (env_to (fp_envelope p)) (w_peers w) = Some Service"
  shows "\<exists>g. loop_body cd c pid Caller (ItemOk (Binary raw)) = Act g \<and> g w = (call_rest cd (fp_envelope p) raw c, w)"
  using assms
  by (simp add: dispatch_frame_def kind_defs handle_call_def route_or_error_def reg_class_of_def act_def
      call_rest_def ptry_def decide_route_target_def Let_def)

lemma run_call_rest:
  assumes "w_peers w (env_to e) = Some r" and "sockets_ok w"
  shows "run (call_rest cd e raw c) w = (Inr Continue, w\<lparr>w_sent := w_sent w @ [(pr_sender r, raw)]\<rparr>)"
  using assms by (simp add: call_rest_def run_route_to_target live_def sockets_ok_def)

text \<open>
  C26: the class of a call's target is read before its socket, under two separate locks of
  the registry. There is a schedule in which the service \<open>svc\<close> is live when the call's
  target class is checked, leaves, and a caller registers the freed identity before the
  socket is looked up: the call is delivered to a caller, with every socket working.
\<close>

theorem call_can_reach_caller:
  "\<exists>s f p. reachable router_init (router_step msgpack) s \<and> sockets_ok (sys_world s) \<and>
     decode_frame msgpack f = Inr p \<and> env_kind (fp_envelope p) = KIND_CALL \<and>
     (3, f) \<in> set (w_sent (sys_world s)) \<and> sys_conns s 3 = Some (Looping ''svc'' Caller)"
proof -
  let ?R = "reachable router_init (router_step msgpack)"
  define f e where "f = frame_bytes msgpack (scene_envelope KIND_CALL ''cli'' ''svc'') []"
    and "e = scene_envelope KIND_CALL ''cli'' ''svc''"
  obtain s i j where s: "?R s" "sockets_ok (sys_world s)"
    "sys_conns s = [1 \<mapsto> Looping ''svc'' Service, 2 \<mapsto> Looping ''cli'' Caller]"
    "w_peers (sys_world s) = [''svc'' \<mapsto> fresh_record i ''svc'' Service 1, ''cli'' \<mapsto> fresh_record j ''cli'' Caller 2]"
    by (rule two_peers)
  obtain g where g: "loop_body msgpack 2 ''cli'' Caller (ItemOk (Binary f)) = Act g"
      "g (sys_world s) = (call_rest msgpack e f 2, sys_world s)"
    using call_class_check [OF call_item_decodes, of "''cli''" "sys_world s" 2] s(4)
    by (auto simp: f_def e_def snapshot_peer_class_def fresh_record_def)
  define s1 where "s1 = set_task s 2 (Handling ''cli'' Caller (ItemOk (Binary f)) (Act g)) (sys_world s)"
  have "router_step msgpack s s1"
    using next_item [of s 2 "''cli''" Caller msgpack "ItemOk (Binary f)"] s(3) g(1) by (simp add: s1_def)
  with s(1) have "?R s1" by (rule reachable_step)
  define s2 where "s2 = set_task s 2 (Handling ''cli'' Caller (ItemOk (Binary f)) (call_rest msgpack e f 2)) (sys_world s)"
  have "router_step msgpack s1 s2"
    using handle_act [of s1 2 "''cli''" Caller "ItemOk (Binary f)" g msgpack] g(2) by (simp add: s1_def s2_def)
  with \<open>?R s1\<close> have s2: "?R s2" by (rule reachable_step)
  obtain s3 where s3: "?R s3" "sockets_ok (sys_world s3)" "w_peers (sys_world s3) ''svc'' = None"
      "sys_conns s3 = (sys_conns s2)(1 \<mapsto> Closing (Some ''svc'') (Inr ()))"
    by (rule disconnect_reach [OF s2, of "''svc''" 1 Service]) (use s in \<open>auto simp: s2_def\<close>)
  obtain s4 where s4: "?R s4" "sockets_ok (sys_world s4)" "sys_conns s4 = (sys_conns s3)(3 \<mapsto> Looping ''svc'' Caller)"
      "w_peers (sys_world s4) = (w_peers (sys_world s3))(''svc'' \<mapsto> fresh_record (w_instant (sys_world s3)) ''svc'' Caller 3)"
    by (rule register_reach [OF s3(1), of "''svc''" 3 Caller]) (use s3 s in \<open>auto simp: s2_def\<close>)
  define s5 where "s5 = set_task s4 2 (Looping ''cli'' Caller)
    ((sys_world s4)\<lparr>w_sent := w_sent (sys_world s4) @ [(3, f)]\<rparr>)"
  have "sys_conns s4 2 = Some (Handling ''cli'' Caller (ItemOk (Binary f)) (call_rest msgpack e f 2))"
    using s4(3) s3(4) by (simp add: s2_def)
  from steps_handle [OF this, of msgpack] have "(router_step msgpack)\<^sup>*\<^sup>* s4 s5"
    using run_call_rest [of "sys_world s4" e _ msgpack f 2] s4(2,4)
    by (simp add: e_def s5_def after_body_def fresh_record_def)
  with s4(1) have "?R s5" by (rule reachable_rtranclp)
  then show ?thesis
    using s4 call_item_decodes by (intro exI [of _ s5] exI [of _ f]) (simp add: s5_def f_def sockets_ok_def)
qed

end
