(* ===== verification/Client_Message.thy ===== *)
theory Client_Message
  imports Msgpack
begin

text \<open>
  rust/src/error.rs and rust/src/message.rs: the client library's errors with their
  texts, its protocol constants, frame and body codecs and envelope builders. The
  client's frame functions satisfy the same contract \<open>frame_format\<close> as the router's;
  the locale \<open>frame_pair\<close> derives that two formats with this contract interoperate.
  Names that the router's crate has too carry the prefix \<open>mf_\<close> or \<open>Mf\<close>.
\<close>

section \<open>Errors\<close>

text \<open>Errors of other crates are represented by their text.\<close>

datatype MultifrostError =
    SerializeError string
  | DeserializeError string
  | WebSocketError string
  | IoError string
  | JsonError string
  | TimeoutError
  | InvalidMessage string
  | MfMalformedFrame string
  | BootstrapFailure string
  | RouterUnavailable string
  | RegisterRejected string
  | MfInvalidTargetClass string
  | MfPeerNotFound string
  | MfInvalidProtocolKey string
  | RemoteCallError string
  | FunctionNotFound string
  | ConfigError string

fun error_text :: "MultifrostError \<Rightarrow> string" where
  "error_text (SerializeError e) = ''Failed to serialize message: '' @ e"
| "error_text (DeserializeError e) = ''Failed to deserialize message: '' @ e"
| "error_text (WebSocketError e) = ''WebSocket error: '' @ e"
| "error_text (IoError e) = ''IO error: '' @ e"
| "error_text (JsonError e) = ''JSON error: '' @ e"
| "error_text TimeoutError = ''Timeout waiting for response''"
| "error_text (InvalidMessage e) = ''Invalid message: '' @ e"
| "error_text (MfMalformedFrame e) = ''Malformed frame: '' @ e"
| "error_text (BootstrapFailure e) = ''Bootstrap failure: '' @ e"
| "error_text (RouterUnavailable e) = ''Router unavailable: '' @ e"
| "error_text (RegisterRejected e) = ''Register rejected: '' @ e"
| "error_text (MfInvalidTargetClass e) = ''Invalid target class: '' @ e"
| "error_text (MfPeerNotFound e) = ''Peer not found: '' @ e"
| "error_text (MfInvalidProtocolKey e) = ''Protocol key mismatch: '' @ e"
| "error_text (RemoteCallError e) = ''Remote call error: '' @ e"
| "error_text (FunctionNotFound e) = ''Function not found: '' @ e"
| "error_text (ConfigError e) = ''Configuration error: '' @ e"

section \<open>Constants\<close>

definition MF_PROTOCOL_KEY :: string where "MF_PROTOCOL_KEY = ''multifrost_ipc_v5''"
definition MF_PROTOCOL_VERSION :: u32 where "MF_PROTOCOL_VERSION = 5"
definition MF_ROUTER_PEER_ID :: string where "MF_ROUTER_PEER_ID = ''router''"
definition MF_KIND_REGISTER :: string where "MF_KIND_REGISTER = ''register''"
definition MF_KIND_QUERY :: string where "MF_KIND_QUERY = ''query''"
definition MF_KIND_CALL :: string where "MF_KIND_CALL = ''call''"
definition MF_KIND_RESPONSE :: string where "MF_KIND_RESPONSE = ''response''"
definition MF_KIND_ERROR :: string where "MF_KIND_ERROR = ''error''"
definition MF_KIND_HEARTBEAT :: string where "MF_KIND_HEARTBEAT = ''heartbeat''"
definition MF_KIND_DISCONNECT :: string where "MF_KIND_DISCONNECT = ''disconnect''"
definition QUERY_PEER_EXISTS :: string where "QUERY_PEER_EXISTS = ''peer.exists''"
definition QUERY_PEER_GET :: string where "QUERY_PEER_GET = ''peer.get''"

lemmas mf_defs = MF_PROTOCOL_KEY_def MF_PROTOCOL_VERSION_def MF_ROUTER_PEER_ID_def
  MF_KIND_REGISTER_def MF_KIND_QUERY_def MF_KIND_CALL_def MF_KIND_RESPONSE_def
  MF_KIND_ERROR_def MF_KIND_HEARTBEAT_def MF_KIND_DISCONNECT_def

section \<open>Clock and validation\<close>

text \<open>\<open>clock\<close> is the time since the UNIX epoch, absent when the clock is before it.\<close>

definition mf_now_ts :: "f64 option \<Rightarrow> f64" where
  "mf_now_ts clock = (case clock of Some t \<Rightarrow> t | None \<Rightarrow> 0)"

definition mf_validate_protocol_key :: "string \<Rightarrow> MultifrostError + unit" where
  "mf_validate_protocol_key value =
     (if value = MF_PROTOCOL_KEY then Inr () else Inl (MfInvalidProtocolKey value))"

definition mf_ensure_binary_ws_message :: "codec \<Rightarrow> Message \<Rightarrow> MultifrostError + bytes" where
  "mf_ensure_binary_ws_message cd message = (case message of
     Binary bs \<Rightarrow> Inr bs
   | other \<Rightarrow> Inl (MfMalformedFrame (''expected binary websocket message, got '' @ fmt_message cd other)))"

section \<open>Frames\<close>

definition mf_encode_envelope :: "codec \<Rightarrow> Envelope \<Rightarrow> MultifrostError + bytes" where
  "mf_encode_envelope cd e = map_err SerializeError (enc_envelope cd e)"

definition mf_decode_envelope :: "codec \<Rightarrow> bytes \<Rightarrow> MultifrostError + Envelope" where
  "mf_decode_envelope cd bs =
     and_then (map_err MfMalformedFrame (dec_envelope cd bs)) (\<lambda>envelope.
       if env_v envelope \<noteq> MF_PROTOCOL_VERSION
       then Inl (MfInvalidProtocolKey (''v='' @ show_nat (unat (env_v envelope))))
       else Inr envelope)"

definition mf_encode_frame :: "codec \<Rightarrow> Envelope \<Rightarrow> bytes \<Rightarrow> MultifrostError + bytes" where
  "mf_encode_frame cd e body_bytes =
     and_then (mf_encode_envelope cd e) (\<lambda>envelope_bytes.
       Inr (to_be_bytes (of_nat (length envelope_bytes)) @ envelope_bytes @ body_bytes))"

definition mf_decode_frame :: "codec \<Rightarrow> bytes \<Rightarrow> MultifrostError + FrameParts" where
  "mf_decode_frame cd bs =
     (if length bs < 4
      then Inl (MfMalformedFrame ''frame too short for envelope length'')
      else
        let envelope_len = unat (from_be_bytes (take 4 bs)) in
        if length bs < 4 + envelope_len
        then Inl (MfMalformedFrame ''frame shorter than declared envelope length'')
        else and_then (mf_decode_envelope cd (take envelope_len (drop 4 bs))) (\<lambda>envelope.
               Inr \<lparr>fp_envelope = envelope, fp_body_bytes = drop (4 + envelope_len) bs\<rparr>))"

section \<open>Bodies\<close>

definition mf_encode_register_body :: "codec \<Rightarrow> RegisterBody \<Rightarrow> MultifrostError + bytes" where
  "mf_encode_register_body cd b = map_err SerializeError (enc_register cd b)"

definition mf_decode_register_body :: "codec \<Rightarrow> bytes \<Rightarrow> MultifrostError + RegisterBody" where
  "mf_decode_register_body cd bs = map_err MfMalformedFrame (dec_register cd bs)"

definition mf_encode_register_ack_body :: "codec \<Rightarrow> RegisterAckBody \<Rightarrow> MultifrostError + bytes" where
  "mf_encode_register_ack_body cd b = map_err SerializeError (enc_ack cd b)"

definition mf_decode_register_ack_body :: "codec \<Rightarrow> bytes \<Rightarrow> MultifrostError + RegisterAckBody" where
  "mf_decode_register_ack_body cd bs = map_err MfMalformedFrame (dec_ack cd bs)"

definition mf_encode_query_body :: "codec \<Rightarrow> QueryBody \<Rightarrow> MultifrostError + bytes" where
  "mf_encode_query_body cd b = map_err SerializeError (enc_query cd b)"

definition mf_decode_query_body :: "codec \<Rightarrow> bytes \<Rightarrow> MultifrostError + QueryBody" where
  "mf_decode_query_body cd bs = map_err MfMalformedFrame (dec_query cd bs)"

definition mf_encode_query_exists_response :: "codec \<Rightarrow> QueryExistsResponseBody \<Rightarrow> MultifrostError + bytes" where
  "mf_encode_query_exists_response cd b = map_err SerializeError (enc_qexists cd b)"

definition mf_decode_query_exists_response :: "codec \<Rightarrow> bytes \<Rightarrow> MultifrostError + QueryExistsResponseBody" where
  "mf_decode_query_exists_response cd bs = map_err MfMalformedFrame (dec_qexists cd bs)"

definition mf_encode_query_get_response :: "codec \<Rightarrow> QueryGetResponseBody \<Rightarrow> MultifrostError + bytes" where
  "mf_encode_query_get_response cd b = map_err SerializeError (enc_qget cd b)"

definition mf_decode_query_get_response :: "codec \<Rightarrow> bytes \<Rightarrow> MultifrostError + QueryGetResponseBody" where
  "mf_decode_query_get_response cd bs = map_err MfMalformedFrame (dec_qget cd bs)"

definition encode_call_body :: "codec \<Rightarrow> CallBody \<Rightarrow> MultifrostError + bytes" where
  "encode_call_body cd b = map_err SerializeError (enc_call cd b)"

definition decode_call_body :: "codec \<Rightarrow> bytes \<Rightarrow> MultifrostError + CallBody" where
  "decode_call_body cd bs = map_err MfMalformedFrame (dec_call cd bs)"

definition encode_response_body :: "codec \<Rightarrow> ResponseBody \<Rightarrow> MultifrostError + bytes" where
  "encode_response_body cd b = map_err SerializeError (enc_response cd b)"

definition decode_response_body :: "codec \<Rightarrow> bytes \<Rightarrow> MultifrostError + ResponseBody" where
  "decode_response_body cd bs = map_err MfMalformedFrame (dec_response cd bs)"

definition mf_encode_error_body :: "codec \<Rightarrow> ErrorBody \<Rightarrow> MultifrostError + bytes" where
  "mf_encode_error_body cd b = map_err SerializeError (enc_error cd b)"

definition mf_decode_error_body :: "codec \<Rightarrow> bytes \<Rightarrow> MultifrostError + ErrorBody" where
  "mf_decode_error_body cd bs = map_err MfMalformedFrame (dec_error cd bs)"

section \<open>Envelope builders\<close>

text \<open>
  \<open>fresh_id\<close> is the result of \<open>new_msg_id()\<close> (a version-4 UUID of the \<open>uuid\<close> crate)
  and \<open>ts\<close> that of \<open>now_ts()\<close> at the call.
\<close>

definition build_register_envelope :: "string \<Rightarrow> f64 \<Rightarrow> string \<Rightarrow> PeerClass \<Rightarrow> Envelope" where
  "build_register_envelope fresh_id ts peer_id class =
     \<lparr>env_v = MF_PROTOCOL_VERSION, env_kind = MF_KIND_REGISTER, env_msg_id = fresh_id,
      env_from = peer_id, env_to = MF_ROUTER_PEER_ID, env_ts = ts\<rparr>"

definition build_query_envelope :: "string \<Rightarrow> f64 \<Rightarrow> string \<Rightarrow> string \<Rightarrow> Envelope" where
  "build_query_envelope fresh_id ts peer_id to =
     \<lparr>env_v = MF_PROTOCOL_VERSION, env_kind = MF_KIND_QUERY, env_msg_id = fresh_id,
      env_from = peer_id, env_to = to, env_ts = ts\<rparr>"

definition build_call_envelope :: "string \<Rightarrow> f64 \<Rightarrow> string \<Rightarrow> string \<Rightarrow> Envelope" where
  "build_call_envelope fresh_id ts from to =
     \<lparr>env_v = MF_PROTOCOL_VERSION, env_kind = MF_KIND_CALL, env_msg_id = fresh_id,
      env_from = from, env_to = to, env_ts = ts\<rparr>"

definition build_response_envelope :: "f64 \<Rightarrow> string \<Rightarrow> string \<Rightarrow> string \<Rightarrow> Envelope" where
  "build_response_envelope ts from to msg_id =
     \<lparr>env_v = MF_PROTOCOL_VERSION, env_kind = MF_KIND_RESPONSE, env_msg_id = msg_id,
      env_from = from, env_to = to, env_ts = ts\<rparr>"

definition build_error_envelope :: "f64 \<Rightarrow> string \<Rightarrow> string \<Rightarrow> string \<Rightarrow> Envelope" where
  "build_error_envelope ts from to msg_id =
     \<lparr>env_v = MF_PROTOCOL_VERSION, env_kind = MF_KIND_ERROR, env_msg_id = msg_id,
      env_from = from, env_to = to, env_ts = ts\<rparr>"

definition build_disconnect_envelope :: "f64 \<Rightarrow> string \<Rightarrow> string \<Rightarrow> string \<Rightarrow> Envelope" where
  "build_disconnect_envelope ts from to msg_id =
     \<lparr>env_v = MF_PROTOCOL_VERSION, env_kind = MF_KIND_DISCONNECT, env_msg_id = msg_id,
      env_from = from, env_to = to, env_ts = ts\<rparr>"

definition binary_message :: "bytes \<Rightarrow> Message" where
  "binary_message bs = Binary bs"

section \<open>Interoperation of frames\<close>

interpretation client_frames: frame_format mf_encode_frame mf_decode_frame
proof unfold_locales
  fix cd e b f
  show "mf_encode_frame cd e b = Inr f \<longleftrightarrow>
      (\<exists>eb. enc_envelope cd e = Inr eb \<and> f = to_be_bytes (of_nat (length eb)) @ eb @ b)"
    by (auto simp: mf_encode_frame_def mf_encode_envelope_def and_then_eq_Inr)
next
  fix cd f p
  show "mf_decode_frame cd f = Inr p \<longleftrightarrow>
      (\<exists>len eb. 4 \<le> length f \<and> len = unat (from_be_bytes (take 4 f)) \<and> 4 + len \<le> length f \<and>
         eb = take len (drop 4 f) \<and> dec_envelope cd eb = Inr (fp_envelope p) \<and>
         env_v (fp_envelope p) = 5 \<and> p = \<lparr>fp_envelope = fp_envelope p, fp_body_bytes = drop (4 + len) f\<rparr>)"
    by (auto simp: mf_decode_frame_def mf_decode_envelope_def and_then_eq_Inr Let_def
        MF_PROTOCOL_VERSION_def not_less split: if_splits)
qed

locale frame_pair = a: frame_format enc_a dec_a + b: frame_format enc_b dec_b
  for enc_a :: "codec \<Rightarrow> Envelope \<Rightarrow> bytes \<Rightarrow> 'e + bytes"
    and dec_a :: "codec \<Rightarrow> bytes \<Rightarrow> 'e + FrameParts"
    and enc_b :: "codec \<Rightarrow> Envelope \<Rightarrow> bytes \<Rightarrow> 'd + bytes"
    and dec_b :: "codec \<Rightarrow> bytes \<Rightarrow> 'd + FrameParts"
begin

lemma decode_agree: "dec_a cd f = Inr p \<longleftrightarrow> dec_b cd f = Inr p"
  unfolding a.decode_layout b.decode_layout ..

lemma encode_agree: "enc_a cd e b = Inr f \<longleftrightarrow> enc_b cd e b = Inr f"
  unfolding a.encode_layout b.encode_layout ..

lemma cross_decode:
  assumes "round_trips (enc_envelope cd) (dec_envelope cd)" and "well_framed cd e"
    and "enc_a cd e b = Inr f"
  shows "dec_b cd f = Inr \<lparr>fp_envelope = e, fp_body_bytes = b\<rparr>"
  using a.decode_encode [OF assms] by (simp add: decode_agree)

end

interpretation to_router: frame_pair mf_encode_frame mf_decode_frame encode_frame decode_frame ..

interpretation to_client: frame_pair encode_frame decode_frame mf_encode_frame mf_decode_frame ..

lemma mf_decode_frame_bytes:
  assumes "round_trips (enc_envelope cd) (dec_envelope cd)" and "well_framed cd e"
  shows "mf_decode_frame cd (frame_bytes cd e b) = Inr \<lparr>fp_envelope = e, fp_body_bytes = b\<rparr>"
  using decode_frame_bytes [OF assms] by (simp add: to_router.decode_agree)

text \<open>
  C19: a frame survives the wire between the crates. What the client encodes the router
  decodes to the same envelope and body, and conversely, provided the serialiser
  round-trips, the envelope carries version 5 and its encoding is below \<open>2 ^ 32\<close> bytes.
\<close>

theorem frames_cross_the_wire:
  assumes "round_trips (enc_envelope cd) (dec_envelope cd)" and "well_framed cd e"
  shows "\<exists>f. mf_encode_frame cd e b = Inr f \<and> encode_frame cd e b = Inr f \<and>
    decode_frame cd f = Inr \<lparr>fp_envelope = e, fp_body_bytes = b\<rparr> \<and>
    mf_decode_frame cd f = Inr \<lparr>fp_envelope = e, fp_body_bytes = b\<rparr>"
proof -
  obtain f where f: "mf_encode_frame cd e b = Inr f"
    using client_frames.encode_succeeds [OF assms(2)] by blast
  moreover have "encode_frame cd e b = Inr f" using f by (simp add: to_router.encode_agree)
  ultimately show ?thesis
    using to_router.cross_decode [OF assms f] client_frames.decode_encode [OF assms f] by blast
qed

theorem frames_cross_the_wire_witness:
  "\<exists>f. mf_encode_frame msgpack (build_call_envelope ''m1'' 0 ''cli'' ''svc'') [1, 2, 3] = Inr f \<and>
    decode_frame msgpack f = Inr \<lparr>fp_envelope = build_call_envelope ''m1'' 0 ''cli'' ''svc'', fp_body_bytes = [1, 2, 3]\<rparr>"
proof -
  have "well_framed msgpack (build_call_envelope ''m1'' 0 ''cli'' ''svc'')"
    by (rule msgpack_well_framed) (simp_all add: build_call_envelope_def mf_defs PROTOCOL_VERSION_def)
  then show ?thesis
    using frames_cross_the_wire [of msgpack "build_call_envelope ''m1'' 0 ''cli'' ''svc''" "[1, 2, 3]"] by auto
qed

text \<open>
  The two crates accept the same byte strings, with the same result, for every
  serialiser; an accepted frame has its four-byte length, an envelope of version 5 in
  exactly the declared number of bytes, and all remaining bytes as its body.
\<close>

theorem frame_decoders_agree:
  "(mf_decode_frame cd f = Inr p \<longleftrightarrow> decode_frame cd f = Inr p) \<and>
   (decode_frame cd f = Inr p \<longleftrightarrow>
      (\<exists>len eb. take 4 f = to_be_bytes len \<and> length eb = unat len \<and>
         f = to_be_bytes len @ eb @ fp_body_bytes p \<and>
         dec_envelope cd eb = Inr (fp_envelope p) \<and> env_v (fp_envelope p) = 5))"
proof
  show "mf_decode_frame cd f = Inr p \<longleftrightarrow> decode_frame cd f = Inr p"
    by (rule to_router.decode_agree)
  show "decode_frame cd f = Inr p \<longleftrightarrow>
      (\<exists>len eb. take 4 f = to_be_bytes len \<and> length eb = unat len \<and>
         f = to_be_bytes len @ eb @ fp_body_bytes p \<and>
         dec_envelope cd eb = Inr (fp_envelope p) \<and> env_v (fp_envelope p) = 5)" (is "_ \<longleftrightarrow> ?R")
  proof
    assume "decode_frame cd f = Inr p"
    then obtain len where len: "4 \<le> length f" "len = unat (from_be_bytes (take 4 f))" "4 + len \<le> length f"
      and env: "dec_envelope cd (take len (drop 4 f)) = Inr (fp_envelope p)" "env_v (fp_envelope p) = 5"
      and p: "p = \<lparr>fp_envelope = fp_envelope p, fp_body_bytes = drop (4 + len) f\<rparr>"
      unfolding router_frames.decode_layout by blast
    have be: "to_be_bytes (from_be_bytes (take 4 f)) = take 4 f"
      using len(1) by (simp add: to_from_be_bytes)
    have body: "fp_body_bytes p = drop (4 + len) f" by (subst p) simp
    have "f = take 4 f @ take len (drop 4 f) @ drop (4 + len) f"
      by (metis append_take_drop_id drop_drop add.commute)
    then have "f = to_be_bytes (from_be_bytes (take 4 f)) @ take len (drop 4 f) @ fp_body_bytes p"
      unfolding be body .
    then show ?R
      using be env len by (intro exI [of _ "from_be_bytes (take 4 f)"] exI [of _ "take len (drop 4 f)"]) simp
  next
    assume ?R
    then obtain len eb where f: "f = to_be_bytes len @ eb @ fp_body_bytes p" "length eb = unat len"
      and env: "dec_envelope cd eb = Inr (fp_envelope p)" "env_v (fp_envelope p) = 5"
      by blast
    show "decode_frame cd f = Inr p"
      unfolding router_frames.decode_layout
      by (rule exI [of _ "unat len"], rule exI [of _ eb]) (use env f(2) in \<open>simp add: f(1)\<close>)
  qed
qed

end
