(* ===== verification/Client_Transport.thy ===== *)
theory Client_Transport
  imports Client_Message
begin

text \<open>
  rust/src/caller_transport.rs: the caller's connection to the router. Requests of any
  number of tasks share one socket; each waits on a one-shot channel that is registered
  in the pending map under its message identifier, and one inbound task resolves the
  channels. Every lock section and every socket send is one atomic step of
  \<open>client_exec\<close>, and all tasks interleave freely.
\<close>

section \<open>Configuration and registration\<close>

text \<open>Durations are in milliseconds; \<open>ctc_endpoint\<close> is \<open>bootstrap.endpoint.ws_url()\<close>.\<close>

record CallerTransportConfig =
  ctc_peer_id :: string
  ctc_default_target_peer_id :: "string option"
  ctc_request_timeout :: "nat option"
  ctc_endpoint :: string

record CallerTransport =
  ct_peer_id :: string
  ct_default_target_peer_id :: "string option"
  ct_router_endpoint :: string
  ct_request_timeout :: "nat option"

datatype chan = Open | Sent "MultifrostError + FrameParts" | Dropped

text \<open>
  The shared mutable parts of the transport: the pending map with one channel number per
  registered identifier, the channels, the closed flag, and the socket (frames written
  so far and the error that writing a frame would give).
\<close>

record Client =
  cl_pending :: "(string \<times> nat) list"
  cl_chans :: "nat \<Rightarrow> chan"
  cl_next :: nat
  cl_closed :: bool
  cl_sent :: "bytes list"
  cl_send_err :: "bytes \<Rightarrow> string option"

definition send_raw_frame :: "bytes \<Rightarrow> Client \<Rightarrow> (MultifrostError + unit) \<times> Client" where
  "send_raw_frame frame c = (case cl_send_err c frame of
     None \<Rightarrow> (Inr (), c\<lparr>cl_sent := cl_sent c @ [frame]\<rparr>)
   | Some err \<Rightarrow> (Inl (WebSocketError err), c))"

text \<open>The reply to a registration, as both the caller and the service read it.\<close>

definition register_reply :: "codec \<Rightarrow> string \<Rightarrow> ws_item \<Rightarrow> MultifrostError + unit" where
  "register_reply cd default_reason reply =
     and_then (case reply of
         ItemOk (Binary bs) \<Rightarrow> and_then (mf_decode_frame cd bs) (\<lambda>frame.
           if env_kind (fp_envelope frame) \<noteq> MF_KIND_RESPONSE
           then Inl (RegisterRejected (''unexpected register reply kind: '' @ env_kind (fp_envelope frame)))
           else mf_decode_register_ack_body cd (fp_body_bytes frame))
       | ItemOk other \<Rightarrow>
           Inl (RegisterRejected (''unexpected register reply message: '' @ fmt_message cd other))
       | ItemErr err \<Rightarrow> Inl (RouterUnavailable err)
       | ItemEnd \<Rightarrow> Inl (RegisterRejected ''router closed''))
     (\<lambda>ack. if \<not> ack_accepted ack
            then Inl (RegisterRejected (case ack_reason ack of Some r \<Rightarrow> r | None \<Rightarrow> default_reason))
            else Inr ())"

definition register_frame :: "codec \<Rightarrow> string \<Rightarrow> f64 \<Rightarrow> string \<Rightarrow> PeerClass \<Rightarrow> MultifrostError + bytes" where
  "register_frame cd fresh_id ts peer_id class =
     and_then (mf_encode_register_body cd \<lparr>reg_peer_id = peer_id, reg_class = class\<rparr>) (\<lambda>body.
       mf_encode_frame cd (build_register_envelope fresh_id ts peer_id class) body)"

text \<open>
  \<open>connect\<close>: \<open>bootstrap\<close> is the result of \<open>connect_or_bootstrap\<close>, \<open>ws\<close> the error of
  opening the WebSocket, if any, and \<open>reply\<close> the first item received after the
  registration frame. The socket is part of \<open>c\<close>.
\<close>

definition connect ::
    "codec \<Rightarrow> MultifrostError + unit \<Rightarrow> string option \<Rightarrow> string \<Rightarrow> f64 \<Rightarrow> CallerTransportConfig \<Rightarrow> ws_item \<Rightarrow>
     Client \<Rightarrow> (MultifrostError + CallerTransport) \<times> Client" where
  "connect cd bootstrap ws fresh_id ts config reply c = (case bootstrap of
     Inl err \<Rightarrow> (Inl err, c)
   | Inr _ \<Rightarrow> (case ws of
       Some err \<Rightarrow> (Inl (RouterUnavailable err), c)
     | None \<Rightarrow> (case register_frame cd fresh_id ts (ctc_peer_id config) Caller of
         Inl err \<Rightarrow> (Inl err, c)
       | Inr frame \<Rightarrow> (case send_raw_frame frame c of
           (Inl err, c') \<Rightarrow> (Inl err, c')
         | (Inr _, c') \<Rightarrow> (case register_reply cd ''router rejected caller registration'' reply of
             Inl err \<Rightarrow> (Inl err, c')
           | Inr _ \<Rightarrow> (Inr
               \<lparr>ct_peer_id = ctc_peer_id config,
                ct_default_target_peer_id = ctc_default_target_peer_id config,
                ct_router_endpoint = ctc_endpoint config,
                ct_request_timeout = ctc_request_timeout config\<rparr>,
               c'\<lparr>cl_pending := [], cl_closed := False\<rparr>))))))"

section \<open>Requests and results\<close>

text \<open>
  A request builds one envelope with a fresh identifier and returns that identifier with
  the frame; after the wait, the result is read off the frame that was received.
\<close>

definition call_request ::
    "codec \<Rightarrow> string \<Rightarrow> f64 \<Rightarrow> CallerTransport \<Rightarrow> string \<Rightarrow> string \<Rightarrow> Value list \<Rightarrow>
     MultifrostError + string \<times> bytes" where
  "call_request cd fresh_id ts tr target_peer_id function args =
     and_then (encode_call_body cd \<lparr>call_function = function, call_args = args, call_namespace = None\<rparr>)
       (\<lambda>body_bytes.
         let envelope = build_call_envelope fresh_id ts (ct_peer_id tr) target_peer_id
         in and_then (mf_encode_frame cd envelope body_bytes) (\<lambda>frame. Inr (env_msg_id envelope, frame)))"

definition default_call_request ::
    "codec \<Rightarrow> string \<Rightarrow> f64 \<Rightarrow> CallerTransport \<Rightarrow> string \<Rightarrow> Value list \<Rightarrow> MultifrostError + string \<times> bytes" where
  "default_call_request cd fresh_id ts tr function args =
     and_then (ok_or (ConfigError ''no default target peer_id configured'') (ct_default_target_peer_id tr))
       (\<lambda>target. call_request cd fresh_id ts tr target function args)"

definition query_request ::
    "codec \<Rightarrow> string \<Rightarrow> f64 \<Rightarrow> CallerTransport \<Rightarrow> QueryBody \<Rightarrow> MultifrostError + string \<times> bytes" where
  "query_request cd fresh_id ts tr body =
     and_then (mf_encode_query_body cd body) (\<lambda>body_bytes.
       let envelope = build_query_envelope fresh_id ts (ct_peer_id tr) MF_ROUTER_PEER_ID
       in and_then (mf_encode_frame cd envelope body_bytes) (\<lambda>frame. Inr (env_msg_id envelope, frame)))"

definition decode_router_or_peer_error :: "codec \<Rightarrow> bytes \<Rightarrow> MultifrostError + MultifrostError" where
  "decode_router_or_peer_error cd bs = and_then (mf_decode_error_body cd bs) (\<lambda>body. Inr (
     if err_kind body = ''router'' then RouterUnavailable (err_message body)
     else if err_kind body = ''protocol'' then MfMalformedFrame (err_message body)
     else if err_kind body = ''application'' then RemoteCallError (err_message body)
     else if err_kind body = ''library'' then InvalidMessage (err_message body)
     else RemoteCallError (err_message body)))"

text \<open>\<open>return Err(decode_router_or_peer_error(..)?)\<close>\<close>

definition reply_failure :: "codec \<Rightarrow> bytes \<Rightarrow> MultifrostError" where
  "reply_failure cd bs = (case decode_router_or_peer_error cd bs of Inl e \<Rightarrow> e | Inr e \<Rightarrow> e)"

text \<open>\<open>from_value\<close> is \<open>serde_json::from_value\<close> at the caller's result type.\<close>

definition call_result :: "codec \<Rightarrow> (Value \<Rightarrow> string + 'r) \<Rightarrow> FrameParts \<Rightarrow> MultifrostError + 'r" where
  "call_result cd from_value frame =
     (if env_kind (fp_envelope frame) = MF_KIND_ERROR
      then Inl (reply_failure cd (fp_body_bytes frame))
      else and_then (decode_response_body cd (fp_body_bytes frame)) (\<lambda>response.
             map_err JsonError (from_value (resp_result response))))"

definition query_exists_result :: "codec \<Rightarrow> FrameParts \<Rightarrow> MultifrostError + QueryExistsResponseBody" where
  "query_exists_result cd frame =
     (if env_kind (fp_envelope frame) = MF_KIND_ERROR
      then Inl (reply_failure cd (fp_body_bytes frame))
      else mf_decode_query_exists_response cd (fp_body_bytes frame))"

definition query_get_result :: "codec \<Rightarrow> FrameParts \<Rightarrow> MultifrostError + QueryGetResponseBody" where
  "query_get_result cd frame =
     (if env_kind (fp_envelope frame) = MF_KIND_ERROR
      then Inl (reply_failure cd (fp_body_bytes frame))
      else mf_decode_query_get_response cd (fp_body_bytes frame))"

section \<open>The pending map\<close>

text \<open>Registering under a taken identifier replaces the entry and drops its sender.\<close>

definition pending_insert :: "string \<Rightarrow> Client \<Rightarrow> nat \<times> Client" where
  "pending_insert msg_id c = (let ch = cl_next c in
     (ch, c\<lparr>cl_chans := (case map_of (cl_pending c) msg_id of
               Some old \<Rightarrow> (cl_chans c)(old := Dropped, ch := Open)
             | None \<Rightarrow> (cl_chans c)(ch := Open)),
           cl_next := ch + 1,
           cl_pending := (msg_id, ch) # filter (\<lambda>e. fst e \<noteq> msg_id) (cl_pending c)\<rparr>))"

definition pending_remove :: "string \<Rightarrow> Client \<Rightarrow> nat option \<times> Client" where
  "pending_remove msg_id c =
     (map_of (cl_pending c) msg_id, c\<lparr>cl_pending := filter (\<lambda>e. fst e \<noteq> msg_id) (cl_pending c)\<rparr>)"

definition pending_drain :: "Client \<Rightarrow> nat list \<times> Client" where
  "pending_drain c = (map snd (cl_pending c), c\<lparr>cl_pending := []\<rparr>)"

definition chan_set :: "nat \<Rightarrow> chan \<Rightarrow> Client \<Rightarrow> Client" where
  "chan_set ch v c = c\<lparr>cl_chans := (cl_chans c)(ch := v)\<rparr>"

section \<open>send_and_wait\<close>

text \<open>
  A request's progress through \<open>send_and_wait\<close>: before the closed check, before the
  registration, before the send, before the removal after a failed send, at the wait,
  and returned.
\<close>

datatype call_pc =
    AtCheck
  | AtInsert
  | AtSend nat
  | AtUndo nat MultifrostError
  | AtWait nat
  | Returned "MultifrostError + FrameParts"

record request =
  rq_msg_id :: string
  rq_frame :: bytes
  rq_pc :: call_pc

text \<open>The next step of a request, or \<open>None\<close> while it waits and once it has returned.\<close>

definition send_and_wait :: "CallerTransport \<Rightarrow> request \<Rightarrow> Client \<Rightarrow> (call_pc \<times> Client) option" where
  "send_and_wait tr rq c = (case rq_pc rq of
     AtCheck \<Rightarrow> Some (if cl_closed c then Returned (Inl (RouterUnavailable (ct_router_endpoint tr)))
                       else AtInsert, c)
   | AtInsert \<Rightarrow> (case pending_insert (rq_msg_id rq) c of (ch, c') \<Rightarrow> Some (AtSend ch, c'))
   | AtSend ch \<Rightarrow> (case send_raw_frame (rq_frame rq) c of
        (Inr _, c') \<Rightarrow> Some (AtWait ch, c')
      | (Inl err, c') \<Rightarrow> Some (AtUndo ch err, c'))
   | AtUndo ch err \<Rightarrow> (case pending_remove (rq_msg_id rq) c of
        (Some ch', c') \<Rightarrow> Some (Returned (Inl err), chan_set ch' Dropped c')
      | (None, c') \<Rightarrow> Some (Returned (Inl err), c'))
   | AtWait ch \<Rightarrow> (case cl_chans c ch of
        Open \<Rightarrow> None
      | Sent result \<Rightarrow> Some (Returned result, c)
      | Dropped \<Rightarrow> Some (Returned (Inl (RouterUnavailable (ct_router_endpoint tr))), c))
   | Returned _ \<Rightarrow> None)"

text \<open>
  The timer of \<open>timeout(duration, rx)\<close> fires: only while the channel has nothing, as
  the receiver is polled first. The pending entry stays.
\<close>

definition wait_timeout :: "CallerTransport \<Rightarrow> request \<Rightarrow> Client \<Rightarrow> call_pc option" where
  "wait_timeout tr rq c = (case rq_pc rq of
     AtWait ch \<Rightarrow> if ct_request_timeout tr \<noteq> None \<and> cl_chans c ch = Open
                  then Some (Returned (Inl TimeoutError)) else None
   | _ \<Rightarrow> None)"

section \<open>The inbound task\<close>

datatype inbound =
    Reading
  | InLookup FrameParts
  | InDeliver nat FrameParts
  | InEnding
  | InDraining
  | InNotifying "nat list"
  | Stopped
  | Aborted

definition inbound_item :: "codec \<Rightarrow> ws_item \<Rightarrow> inbound" where
  "inbound_item cd item = (case item of
     ItemOk (Binary bs) \<Rightarrow> (case mf_decode_frame cd bs of Inl _ \<Rightarrow> Reading | Inr frame \<Rightarrow> InLookup frame)
   | _ \<Rightarrow> InEnding)"

definition inbound_loop :: "string \<Rightarrow> inbound \<Rightarrow> Client \<Rightarrow> (inbound \<times> Client) option" where
  "inbound_loop router_endpoint i c = (case i of
     InLookup frame \<Rightarrow> (case pending_remove (env_msg_id (fp_envelope frame)) c of
        (Some ch, c') \<Rightarrow> Some (InDeliver ch frame, c')
      | (None, c') \<Rightarrow> Some (Reading, c'))
   | InDeliver ch frame \<Rightarrow> Some (Reading, chan_set ch (Sent (Inr frame)) c)
   | InEnding \<Rightarrow> Some (InDraining, c\<lparr>cl_closed := True\<rparr>)
   | InDraining \<Rightarrow> (case pending_drain c of (drained, c') \<Rightarrow> Some (InNotifying drained, c'))
   | InNotifying (ch # chs) \<Rightarrow>
       Some (InNotifying chs, chan_set ch (Sent (Inl (RouterUnavailable router_endpoint))) c)
   | InNotifying [] \<Rightarrow> Some (Stopped, c)
   | _ \<Rightarrow> None)"

text \<open>\<open>task.abort()\<close>: the task is dropped where it stands, with the senders it holds.\<close>

definition held_senders :: "inbound \<Rightarrow> nat list" where
  "held_senders i = (case i of InDeliver ch _ \<Rightarrow> [ch] | InNotifying chs \<Rightarrow> chs | _ \<Rightarrow> [])"

definition abort_inbound :: "inbound \<Rightarrow> Client \<Rightarrow> inbound \<times> Client" where
  "abort_inbound i c = (if i = Stopped then (Stopped, c)
     else (Aborted, fold (\<lambda>ch. chan_set ch Dropped) (held_senders i) c))"

definition disconnect_frame :: "codec \<Rightarrow> string \<Rightarrow> f64 \<Rightarrow> string \<Rightarrow> MultifrostError + bytes" where
  "disconnect_frame cd fresh_id ts peer_id =
     mf_encode_frame cd (build_disconnect_envelope ts peer_id MF_ROUTER_PEER_ID fresh_id) []"

definition disconnect ::
    "codec \<Rightarrow> string \<Rightarrow> f64 \<Rightarrow> CallerTransport \<Rightarrow> inbound \<Rightarrow> Client \<Rightarrow>
     (MultifrostError + unit) \<times> inbound \<times> Client" where
  "disconnect cd fresh_id ts tr i c = (case disconnect_frame cd fresh_id ts (ct_peer_id tr) of
     Inl err \<Rightarrow> (Inl err, i, c)
   | Inr frame \<Rightarrow> (Inr (), abort_inbound i (snd (send_raw_frame frame c))))"

section \<open>All tasks together\<close>

text \<open>
  \<open>cs_items\<close> records what the inbound task has received. Request \<open>n\<close> uses the
  identifier \<open>ids n\<close>. The two effects of \<open>disconnect\<close>, the frame and the abort of the
  inbound task, are separate actions, so that other tasks may run between them.
\<close>

record ClientSystem =
  cs_client :: Client
  cs_inbound :: inbound
  cs_requests :: "nat \<rightharpoonup> request"
  cs_items :: "ws_item list"

datatype client_action =
    Issue nat bytes
  | Advance nat
  | Expire nat
  | Receive ws_item
  | InboundStep
  | DisconnectSend string f64
  | AbortInbound
  | Transport "bytes \<Rightarrow> string option"

definition set_request :: "ClientSystem \<Rightarrow> nat \<Rightarrow> request \<Rightarrow> call_pc \<Rightarrow> Client \<Rightarrow> ClientSystem" where
  "set_request s n rq pc c = s\<lparr>cs_client := c, cs_requests := (cs_requests s)(n \<mapsto> rq\<lparr>rq_pc := pc\<rparr>)\<rparr>"

fun client_exec ::
    "codec \<Rightarrow> CallerTransport \<Rightarrow> (nat \<Rightarrow> string) \<Rightarrow> client_action \<Rightarrow> ClientSystem \<Rightarrow> ClientSystem option" where
  "client_exec cd tr ids (Issue n frame) s = (case cs_requests s n of
     None \<Rightarrow> Some (s\<lparr>cs_requests := (cs_requests s)
        (n \<mapsto> \<lparr>rq_msg_id = ids n, rq_frame = frame, rq_pc = AtCheck\<rparr>)\<rparr>)
   | Some _ \<Rightarrow> None)"
| "client_exec cd tr ids (Advance n) s = (case cs_requests s n of
     None \<Rightarrow> None
   | Some rq \<Rightarrow> (case send_and_wait tr rq (cs_client s) of
       None \<Rightarrow> None
     | Some (pc, c) \<Rightarrow> Some (set_request s n rq pc c)))"
| "client_exec cd tr ids (Expire n) s = (case cs_requests s n of
     None \<Rightarrow> None
   | Some rq \<Rightarrow> (case wait_timeout tr rq (cs_client s) of
       None \<Rightarrow> None
     | Some pc \<Rightarrow> Some (set_request s n rq pc (cs_client s))))"
| "client_exec cd tr ids (Receive item) s =
     (if cs_inbound s = Reading
      then Some (s\<lparr>cs_inbound := inbound_item cd item, cs_items := cs_items s @ [item]\<rparr>) else None)"
| "client_exec cd tr ids InboundStep s =
     (case inbound_loop (ct_router_endpoint tr) (cs_inbound s) (cs_client s) of
        None \<Rightarrow> None
      | Some (i, c) \<Rightarrow> Some (s\<lparr>cs_inbound := i, cs_client := c\<rparr>))"
| "client_exec cd tr ids (DisconnectSend fresh_id ts) s =
     (case disconnect_frame cd fresh_id ts (ct_peer_id tr) of
        Inl err \<Rightarrow> None
      | Inr frame \<Rightarrow> Some (s\<lparr>cs_client := snd (send_raw_frame frame (cs_client s))\<rparr>))"
| "client_exec cd tr ids AbortInbound s =
     (case abort_inbound (cs_inbound s) (cs_client s) of
        (i, c) \<Rightarrow> Some (s\<lparr>cs_inbound := i, cs_client := c\<rparr>))"
| "client_exec cd tr ids (Transport errs) s =
     Some (s\<lparr>cs_client := (cs_client s)\<lparr>cl_send_err := errs\<rparr>\<rparr>)"

definition client_step :: "codec \<Rightarrow> CallerTransport \<Rightarrow> (nat \<Rightarrow> string) \<Rightarrow> ClientSystem \<Rightarrow> ClientSystem \<Rightarrow> bool" where
  "client_step cd tr ids s t \<longleftrightarrow> (\<exists>a. client_exec cd tr ids a s = Some t)"

definition client_init :: "ClientSystem \<Rightarrow> bool" where
  "client_init s \<longleftrightarrow> cl_pending (cs_client s) = [] \<and> \<not> cl_closed (cs_client s) \<and>
     cs_inbound s = Reading \<and> cs_requests s = Map.empty \<and> cs_items s = []"

fun client_run :: "codec \<Rightarrow> CallerTransport \<Rightarrow> (nat \<Rightarrow> string) \<Rightarrow> client_action list \<Rightarrow> ClientSystem \<Rightarrow> ClientSystem option" where
  "client_run cd tr ids [] s = Some s"
| "client_run cd tr ids (a # as) s = (case client_exec cd tr ids a s of
     None \<Rightarrow> None
   | Some t \<Rightarrow> client_run cd tr ids as t)"

end
