(* ===== verification/Client_Correlation.thy ===== *)
theory Client_Correlation
  imports Client_Transport
begin

text \<open>
  What holds of the caller's transport under every interleaving: replies reach the
  request whose identifier they carry, no wake-up is lost while the inbound task lives,
  and the ways in which a request can be left waiting for ever.
\<close>

section \<open>The invariant\<close>

fun holds :: "call_pc \<Rightarrow> nat option" where
  "holds (AtSend ch) = Some ch"
| "holds (AtUndo ch err) = Some ch"
| "holds (AtWait ch) = Some ch"
| "holds _ = None"

definition received :: "codec \<Rightarrow> ws_item list \<Rightarrow> FrameParts \<Rightarrow> bool" where
  "received cd items p \<longleftrightarrow> (\<exists>bs. ItemOk (Binary bs) \<in> set items \<and> mf_decode_frame cd bs = Inr p)"

definition reply_for :: "codec \<Rightarrow> ws_item list \<Rightarrow> string \<Rightarrow> FrameParts \<Rightarrow> bool" where
  "reply_for cd items m p \<longleftrightarrow> env_msg_id (fp_envelope p) = m \<and> received cd items p"

text \<open>
  The channel of a request with identifier \<open>m\<close>: it is registered under no other
  identifier, only replies to \<open>m\<close> are in it or on their way to it, and while it is
  open its sender is still in the pending map or in the hands of the inbound task.
\<close>

definition chan_ok :: "codec \<Rightarrow> ws_item list \<Rightarrow> Client \<Rightarrow> inbound \<Rightarrow> string \<Rightarrow> nat \<Rightarrow> bool" where
  "chan_ok cd items c i m ch \<longleftrightarrow> ch < cl_next c \<and>
     (\<forall>k. (k, ch) \<in> set (cl_pending c) \<longrightarrow> k = m) \<and>
     (\<forall>p. i = InDeliver ch p \<longrightarrow> env_msg_id (fp_envelope p) = m) \<and>
     (\<forall>p. cl_chans c ch = Sent (Inr p) \<longrightarrow> reply_for cd items m p) \<and>
     (cl_chans c ch = Open \<longrightarrow> (m, ch) \<in> set (cl_pending c) \<or> ch \<in> set (held_senders i))"

definition inbound_ok :: "codec \<Rightarrow> ws_item list \<Rightarrow> Client \<Rightarrow> inbound \<Rightarrow> bool" where
  "inbound_ok cd items c i \<longleftrightarrow> (\<forall>ch \<in> set (held_senders i). ch < cl_next c) \<and>
     (\<forall>p. (i = InLookup p \<or> (\<exists>ch. i = InDeliver ch p)) \<longrightarrow> received cd items p)"

definition pending_ok :: "Client \<Rightarrow> bool" where
  "pending_ok c \<longleftrightarrow> distinct (map fst (cl_pending c)) \<and> (\<forall>e \<in> set (cl_pending c). snd e < cl_next c)"

definition pc_ok :: "codec \<Rightarrow> ws_item list \<Rightarrow> Client \<Rightarrow> inbound \<Rightarrow> string \<Rightarrow> call_pc \<Rightarrow> bool" where
  "pc_ok cd items c i m pc \<longleftrightarrow> (\<forall>ch. holds pc = Some ch \<longrightarrow> chan_ok cd items c i m ch) \<and>
     (\<forall>p. pc = Returned (Inr p) \<longrightarrow> reply_for cd items m p)"

definition client_inv :: "codec \<Rightarrow> (nat \<Rightarrow> string) \<Rightarrow> ClientSystem \<Rightarrow> bool" where
  "client_inv cd ids s \<longleftrightarrow> pending_ok (cs_client s) \<and>
     inbound_ok cd (cs_items s) (cs_client s) (cs_inbound s) \<and>
     (\<forall>n rq. cs_requests s n = Some rq \<longrightarrow> rq_msg_id rq = ids n \<and>
        pc_ok cd (cs_items s) (cs_client s) (cs_inbound s) (ids n) (rq_pc rq)) \<and>
     (\<forall>n k rq rk ch. cs_requests s n = Some rq \<longrightarrow> cs_requests s k = Some rk \<longrightarrow>
        holds (rq_pc rq) = Some ch \<longrightarrow> holds (rq_pc rk) = Some ch \<longrightarrow> n = k)"

section \<open>Single operations\<close>

text \<open>
  \<open>moves\<close> collects what an atomic operation does to every channel that some request
  may hold: it stays well-formed.
\<close>

definition moves :: "codec \<Rightarrow> ws_item list \<Rightarrow> Client \<Rightarrow> inbound \<Rightarrow> ws_item list \<Rightarrow> Client \<Rightarrow> inbound \<Rightarrow> bool" where
  "moves cd items c i items' c' i' \<longleftrightarrow> set items \<subseteq> set items' \<and>
     (pending_ok c \<longrightarrow> inbound_ok cd items c i \<longrightarrow>
       pending_ok c' \<and> inbound_ok cd items' c' i' \<and>
       (\<forall>m ch. chan_ok cd items c i m ch \<longrightarrow> chan_ok cd items' c' i' m ch))"

lemma received_mono: "set items \<subseteq> set items' \<Longrightarrow> received cd items p \<Longrightarrow> received cd items' p"
  by (auto simp: received_def)

lemma reply_for_mono: "set items \<subseteq> set items' \<Longrightarrow> reply_for cd items m p \<Longrightarrow> reply_for cd items' m p"
  by (auto simp: reply_for_def intro: received_mono)

lemma pc_ok_moves:
  assumes "moves cd items c i items' c' i'" and "pending_ok c" "inbound_ok cd items c i"
    and "pc_ok cd items c i m pc"
  shows "pc_ok cd items' c' i' m pc"
  using assms unfolding moves_def pc_ok_def by (blast intro: reply_for_mono)

lemmas client_ok_defs = moves_def pending_ok_def inbound_ok_def chan_ok_def held_senders_def

lemma chan_okI:
  assumes "ch < cl_next c"
    and "\<And>k. (k, ch) \<in> set (cl_pending c) \<Longrightarrow> k = m"
    and "\<And>p. i = InDeliver ch p \<Longrightarrow> env_msg_id (fp_envelope p) = m"
    and "\<And>p. cl_chans c ch = Sent (Inr p) \<Longrightarrow> reply_for cd items m p"
    and "cl_chans c ch = Open \<Longrightarrow> ch \<notin> set (held_senders i) \<Longrightarrow> (m, ch) \<in> set (cl_pending c)"
  shows "chan_ok cd items c i m ch"
  using assms unfolding chan_ok_def by blast

lemma chan_okD:
  assumes "chan_ok cd items c i m ch"
  shows "ch < cl_next c"
    and "(k, ch) \<in> set (cl_pending c) \<Longrightarrow> k = m"
    and "i = InDeliver ch p \<Longrightarrow> env_msg_id (fp_envelope p) = m"
    and "cl_chans c ch = Sent (Inr p) \<Longrightarrow> reply_for cd items m p"
    and "cl_chans c ch = Open \<Longrightarrow> ch \<notin> set (held_senders i) \<Longrightarrow> (m, ch) \<in> set (cl_pending c)"
  using assms unfolding chan_ok_def by blast+

lemma movesI:
  assumes "set items \<subseteq> set items'"
    and "pending_ok c \<Longrightarrow> inbound_ok cd items c i \<Longrightarrow> pending_ok c'"
    and "pending_ok c \<Longrightarrow> inbound_ok cd items c i \<Longrightarrow> inbound_ok cd items' c' i'"
    and "\<And>m ch. pending_ok c \<Longrightarrow> inbound_ok cd items c i \<Longrightarrow> chan_ok cd items c i m ch \<Longrightarrow>
      chan_ok cd items' c' i' m ch"
  shows "moves cd items c i items' c' i'"
  using assms unfolding moves_def by blast

lemma distinct_filter_fst: "distinct (map fst xs) \<Longrightarrow> distinct (map fst (filter P xs))"
  by (induction xs) auto

lemma pending_insert_sel [simp]:
  "fst (pending_insert m c) = cl_next c"
  "cl_next (snd (pending_insert m c)) = Suc (cl_next c)"
  "cl_pending (snd (pending_insert m c)) = (m, cl_next c) # filter (\<lambda>e. fst e \<noteq> m) (cl_pending c)"
  "cl_chans (snd (pending_insert m c)) ch =
     (if ch = cl_next c then Open else if map_of (cl_pending c) m = Some ch then Dropped else cl_chans c ch)"
  by (simp_all add: pending_insert_def Let_def split: option.splits)

lemma pending_remove_sel [simp]:
  "fst (pending_remove m c) = map_of (cl_pending c) m"
  "cl_next (snd (pending_remove m c)) = cl_next c"
  "cl_pending (snd (pending_remove m c)) = filter (\<lambda>e. fst e \<noteq> m) (cl_pending c)"
  "cl_chans (snd (pending_remove m c)) = cl_chans c"
  by (simp_all add: pending_remove_def)

lemma chan_set_sel [simp]:
  "cl_next (chan_set ch v c) = cl_next c" "cl_pending (chan_set ch v c) = cl_pending c"
  "cl_chans (chan_set ch v c) = (cl_chans c)(ch := v)"
  by (simp_all add: chan_set_def)

lemma pending_ok_key: "pending_ok c \<Longrightarrow> (m, ch) \<in> set (cl_pending c) \<Longrightarrow> map_of (cl_pending c) m = Some ch"
  by (simp add: pending_ok_def)

lemma pending_ok_filter:
  "pending_ok c \<Longrightarrow> cl_next c' = cl_next c \<Longrightarrow> cl_pending c' = filter P (cl_pending c) \<Longrightarrow> pending_ok c'"
  by (simp add: pending_ok_def distinct_filter_fst)

lemma moves_insert: "moves cd items c i items (snd (pending_insert m c)) i"
proof (rule movesI)
  fix k ch
  assume p: "pending_ok c" and ok: "chan_ok cd items c i k ch"
  have ch: "ch \<noteq> cl_next c" using chan_okD(1) [OF ok] by simp
  show "chan_ok cd items (snd (pending_insert m c)) i k ch"
  proof (rule chan_okI)
    assume *: "cl_chans (snd (pending_insert m c)) ch = Open" "ch \<notin> set (held_senders i)"
    then have "cl_chans c ch = Open" and n: "map_of (cl_pending c) m \<noteq> Some ch"
      using ch by (auto split: if_splits)
    then have "(k, ch) \<in> set (cl_pending c)" using chan_okD(5) [OF ok] *(2) by blast
    moreover then have "k \<noteq> m" using n pending_ok_key [OF p] by blast
    ultimately show "(k, ch) \<in> set (cl_pending (snd (pending_insert m c)))" by simp
  qed (use ch chan_okD [OF ok] in \<open>auto split: if_splits\<close>)
next
  assume "pending_ok c"
  then show "pending_ok (snd (pending_insert m c))"
    by (auto simp: pending_ok_def distinct_filter_fst)
qed (auto simp: inbound_ok_def)

lemma chan_ok_insert:
  assumes "pending_ok c" and "inbound_ok cd items c i"
  shows "chan_ok cd items (snd (pending_insert m c)) i m (cl_next c)"
  by (rule chan_okI) (use assms in \<open>auto simp: pending_ok_def inbound_ok_def held_senders_def\<close>)

lemma moves_same:
  assumes "cl_next c' = cl_next c" "cl_pending c' = cl_pending c" "cl_chans c' = cl_chans c"
  shows "moves cd items c i items c' i"
  using assms by (simp add: moves_def pending_ok_def inbound_ok_def chan_ok_def)

lemma moves_send: "moves cd items c i items (snd (send_raw_frame f c)) i"
  by (rule moves_same) (simp_all add: send_raw_frame_def split: option.splits)

text \<open>Removing an entry and dropping its sender.\<close>

lemma moves_undo:
  assumes "map_of (cl_pending c) m = Some ch'"
  shows "moves cd items c i items (chan_set ch' Dropped (snd (pending_remove m c))) i" (is "moves _ _ _ _ _ ?c _")
proof (rule movesI)
  fix k ch
  assume p: "pending_ok c" and ok: "chan_ok cd items c i k ch"
  show "chan_ok cd items ?c i k ch"
  proof (rule chan_okI)
    assume *: "cl_chans ?c ch = Open" "ch \<notin> set (held_senders i)"
    then have "ch \<noteq> ch'" and "(k, ch) \<in> set (cl_pending c)"
      using chan_okD(5) [OF ok] by (auto split: if_splits)
    moreover then have "k \<noteq> m" using assms pending_ok_key [OF p] by fastforce
    ultimately show "(k, ch) \<in> set (cl_pending ?c)" by simp
  qed (auto split: if_splits dest: chan_okD(2-5) [OF ok] intro: chan_okD(1) [OF ok])
qed (auto simp: inbound_ok_def intro: pending_ok_filter)

lemma moves_remove_absent:
  assumes "map_of (cl_pending c) m = None"
  shows "moves cd items c i items (snd (pending_remove m c)) i"
proof (rule moves_same)
  have "filter (\<lambda>e. fst e \<noteq> m) (cl_pending c) = cl_pending c"
    using assms by (force simp: map_of_eq_None_iff filter_id_conv)
  then show "cl_pending (snd (pending_remove m c)) = cl_pending c" by simp
qed simp_all

lemma moves_lookup_hit:
  assumes "map_of (cl_pending c) (env_msg_id (fp_envelope p)) = Some ch'"
  shows "moves cd items c (InLookup p) items (snd (pending_remove (env_msg_id (fp_envelope p)) c)) (InDeliver ch' p)"
    (is "moves _ _ _ _ _ ?c _")
proof (rule movesI)
  assume "pending_ok c" and "inbound_ok cd items c (InLookup p)"
  then show "inbound_ok cd items ?c (InDeliver ch' p)"
    using map_of_SomeD [OF assms] by (auto simp: inbound_ok_def pending_ok_def held_senders_def)
next
  fix k ch
  assume p: "pending_ok c" and ok: "chan_ok cd items c (InLookup p) k ch"
  show "chan_ok cd items ?c (InDeliver ch' p) k ch"
  proof (rule chan_okI)
    assume *: "cl_chans ?c ch = Open" "ch \<notin> set (held_senders (InDeliver ch' p))"
    then have "ch \<noteq> ch'" and "(k, ch) \<in> set (cl_pending c)"
      using chan_okD(5) [OF ok] by (auto simp: held_senders_def)
    moreover then have "k \<noteq> env_msg_id (fp_envelope p)" using assms pending_ok_key [OF p] by fastforce
    ultimately show "(k, ch) \<in> set (cl_pending ?c)" by simp
  next
    fix q assume "InDeliver ch' p = InDeliver ch q"
    then have "q = p" and "(env_msg_id (fp_envelope p), ch) \<in> set (cl_pending c)"
      using map_of_SomeD [OF assms] by simp_all
    then show "env_msg_id (fp_envelope q) = k"
      using chan_okD(2) [OF ok, of "env_msg_id (fp_envelope p)"] by simp
  qed (auto dest: chan_okD(2-5) [OF ok] intro: chan_okD(1) [OF ok])
qed (auto intro: pending_ok_filter)

lemma moves_lookup_miss:
  assumes "map_of (cl_pending c) (env_msg_id (fp_envelope p)) = None"
  shows "moves cd items c (InLookup p) items (snd (pending_remove (env_msg_id (fp_envelope p)) c)) Reading"
proof -
  have "filter (\<lambda>e. fst e \<noteq> env_msg_id (fp_envelope p)) (cl_pending c) = cl_pending c"
    using assms by (force simp: map_of_eq_None_iff filter_id_conv)
  then show ?thesis
    by (simp add: moves_def pending_ok_def inbound_ok_def chan_ok_def held_senders_def)
qed

lemma moves_deliver:
  "moves cd items c (InDeliver ch' p) items (chan_set ch' (Sent (Inr p)) c) Reading"
proof (rule movesI)
  fix k ch
  assume ib: "inbound_ok cd items c (InDeliver ch' p)" and ok: "chan_ok cd items c (InDeliver ch' p) k ch"
  have rep: "ch = ch' \<Longrightarrow> reply_for cd items k p"
    using ib chan_okD(3) [OF ok] by (auto simp: inbound_ok_def reply_for_def)
  show "chan_ok cd items (chan_set ch' (Sent (Inr p)) c) Reading k ch"
    by (rule chan_okI) (auto simp: held_senders_def split: if_splits dest: chan_okD(2-5) [OF ok] intro: rep chan_okD(1) [OF ok])
qed (auto simp: inbound_ok_def pending_ok_def held_senders_def)

lemma moves_drain: "moves cd items c InDraining items (snd (pending_drain c)) (InNotifying (fst (pending_drain c)))"
proof (rule movesI)
  fix k ch
  assume ok: "chan_ok cd items c InDraining k ch"
  show "chan_ok cd items (snd (pending_drain c)) (InNotifying (fst (pending_drain c))) k ch"
    by (rule chan_okI) (auto 0 4 simp: pending_drain_def held_senders_def dest: chan_okD(2-5) [OF ok] intro: chan_okD(1) [OF ok] rev_image_eqI)
qed (auto simp: pending_drain_def pending_ok_def inbound_ok_def held_senders_def)

lemma moves_notify:
  "moves cd items c (InNotifying (ch' # chs)) items (chan_set ch' (Sent (Inl err)) c) (InNotifying chs)"
proof (rule movesI)
  fix k ch
  assume ok: "chan_ok cd items c (InNotifying (ch' # chs)) k ch"
  show "chan_ok cd items (chan_set ch' (Sent (Inl err)) c) (InNotifying chs) k ch"
    by (rule chan_okI) (auto simp: held_senders_def split: if_splits dest: chan_okD(2-5) [OF ok] intro: chan_okD(1) [OF ok])
qed (auto simp: inbound_ok_def pending_ok_def held_senders_def)

lemma fold_drop_sel:
  "cl_next (fold (\<lambda>ch. chan_set ch Dropped) chs c) = cl_next c"
  "cl_pending (fold (\<lambda>ch. chan_set ch Dropped) chs c) = cl_pending c"
  "cl_chans (fold (\<lambda>ch. chan_set ch Dropped) chs c) x = (if x \<in> set chs then Dropped else cl_chans c x)"
  by (induction chs arbitrary: c) auto

lemma moves_abort: "moves cd items c i items (snd (abort_inbound i c)) (fst (abort_inbound i c))"
proof (cases "i = Stopped")
  case True
  then show ?thesis by (simp add: abort_inbound_def moves_same)
next
  case False
  let ?c = "fold (\<lambda>ch. chan_set ch Dropped) (held_senders i) c"
  have "moves cd items c i items ?c Aborted"
  proof (rule movesI)
    fix k ch
    assume ok: "chan_ok cd items c i k ch"
    show "chan_ok cd items ?c Aborted k ch"
      by (rule chan_okI) (auto simp: fold_drop_sel split: if_splits dest: chan_okD(2-5) [OF ok] intro: chan_okD(1) [OF ok])
  qed (auto simp: inbound_ok_def pending_ok_def held_senders_def fold_drop_sel)
  then show ?thesis using False by (simp add: abort_inbound_def)
qed

lemma moves_receive: "moves cd items c Reading (items @ [item]) c (inbound_item cd item)"
proof (rule movesI)
  show "inbound_ok cd (items @ [item]) c (inbound_item cd item)"
    by (auto simp: inbound_item_def inbound_ok_def held_senders_def received_def
        split: ws_item.splits Message.splits sum.splits)
  fix k ch
  assume ok: "chan_ok cd items c Reading k ch"
  have "held_senders (inbound_item cd item) = []" "inbound_item cd item \<noteq> InDeliver x y" for x y
    by (auto simp: inbound_item_def held_senders_def split: ws_item.splits Message.splits sum.splits)
  then show "chan_ok cd (items @ [item]) c (inbound_item cd item) k ch"
    by (intro chan_okI) (auto simp: held_senders_def dest: chan_okD(2-5) [OF ok] intro: reply_for_mono chan_okD(1) [OF ok])
qed auto

lemma moves_inbound:
  assumes "inbound_loop ep i c = Some (i', c')"
  shows "moves cd items c i items c' i'"
proof (cases i)
  case (InLookup p)
  have "(i', c') = (case map_of (cl_pending c) (env_msg_id (fp_envelope p)) of
      Some ch \<Rightarrow> (InDeliver ch p, snd (pending_remove (env_msg_id (fp_envelope p)) c))
    | None \<Rightarrow> (Reading, snd (pending_remove (env_msg_id (fp_envelope p)) c)))"
    using assms InLookup by (auto simp: inbound_loop_def pending_remove_def split: option.splits)
  then show ?thesis
    using InLookup moves_lookup_hit moves_lookup_miss by (auto split: option.splits)
next
  case (InNotifying chs)
  then show ?thesis
  proof (cases chs)
    case Nil
    then show ?thesis using assms InNotifying
      by (simp add: inbound_loop_def moves_def pending_ok_def inbound_ok_def chan_ok_def held_senders_def)
  next
    case (Cons ch chs')
    then show ?thesis using assms InNotifying moves_notify by (auto simp: inbound_loop_def)
  qed
next
  case InDraining
  then show ?thesis
    using assms moves_drain by (auto simp: inbound_loop_def split_beta)
next
  case InEnding
  then have "i' = InDraining" "c' = c\<lparr>cl_closed := True\<rparr>"
    using assms by (simp_all add: inbound_loop_def)
  then show ?thesis
    using InEnding by (simp add: moves_def pending_ok_def inbound_ok_def chan_ok_def held_senders_def)
qed (use assms moves_deliver in \<open>auto simp: inbound_loop_def\<close>)

section \<open>Preservation\<close>

lemma client_invD:
  assumes "client_inv cd ids s"
  shows "pending_ok (cs_client s)"
    and "inbound_ok cd (cs_items s) (cs_client s) (cs_inbound s)"
    and "cs_requests s n = Some rq \<Longrightarrow> rq_msg_id rq = ids n"
    and "cs_requests s n = Some rq \<Longrightarrow> pc_ok cd (cs_items s) (cs_client s) (cs_inbound s) (ids n) (rq_pc rq)"
    and "cs_requests s n = Some rq \<Longrightarrow> cs_requests s k = Some rk \<Longrightarrow>
      holds (rq_pc rq) = Some ch \<Longrightarrow> holds (rq_pc rk) = Some ch \<Longrightarrow> n = k"
  using assms unfolding client_inv_def by blast+

lemma client_inv_moves:
  assumes inv: "client_inv cd ids s" and mv: "moves cd (cs_items s) (cs_client s) (cs_inbound s)
      (cs_items t) (cs_client t) (cs_inbound t)"
    and reqs: "cs_requests t = cs_requests s"
  shows "client_inv cd ids t"
  unfolding client_inv_def reqs
  using mv client_invD [OF inv] pc_ok_moves [OF mv client_invD(1,2) [OF inv]]
  by (auto simp: moves_def)

text \<open>One request moves to \<open>pc\<close> while the shared state makes a move.\<close>

lemma client_inv_request:
  assumes inv: "client_inv cd ids s" and rq: "cs_requests s n = Some rq"
    and mv: "moves cd (cs_items s) (cs_client s) (cs_inbound s) (cs_items s) c (cs_inbound s)"
    and ok: "pc_ok cd (cs_items s) c (cs_inbound s) (ids n) pc"
    and fresh: "\<And>ch k rk. holds pc = Some ch \<Longrightarrow> cs_requests s k = Some rk \<Longrightarrow>
      holds (rq_pc rk) = Some ch \<Longrightarrow> k = n"
  shows "client_inv cd ids (set_request s n rq pc c)"
proof -
  have "pc_ok cd (cs_items s) c (cs_inbound s) (ids k) (rq_pc rk)" if "cs_requests s k = Some rk" for k rk
    using pc_ok_moves [OF mv client_invD(1,2) [OF inv]] client_invD(4) [OF inv that] by blast
  moreover have "pending_ok c" "inbound_ok cd (cs_items s) c (cs_inbound s)"
    using mv client_invD(1,2) [OF inv] by (simp_all add: moves_def)
  ultimately show ?thesis
    using ok client_invD(3) [OF inv] client_invD(5) [OF inv] fresh rq
    unfolding client_inv_def set_request_def by auto
qed

lemma pc_ok_none: "holds pc = None \<Longrightarrow> (\<And>p. pc \<noteq> Returned (Inr p)) \<Longrightarrow> pc_ok cd items c i m pc"
  by (simp add: pc_ok_def)

lemma advance_inv:
  assumes inv: "client_inv cd ids s" and rq: "cs_requests s n = Some rq"
    and step: "send_and_wait tr rq (cs_client s) = Some (pc, c)"
  shows "client_inv cd ids (set_request s n rq pc c)"
proof -
  let ?c = "cs_client s" and ?i = "cs_inbound s" and ?items = "cs_items s"
  note same = client_inv_request [OF inv rq]
  have id: "rq_msg_id rq = ids n" using client_invD(3) [OF inv rq] .
  have old: "pc_ok cd ?items ?c ?i (ids n) (rq_pc rq)" using client_invD(4) [OF inv rq] .
  have keep: "k = n" if "holds (rq_pc rq) = Some ch" "cs_requests s k = Some rk" "holds (rq_pc rk) = Some ch" for ch k rk
    using client_invD(5) [OF inv that(2) rq that(3,1)] .
  have idle: "moves cd ?items ?c ?i ?items ?c ?i" by (rule moves_same) simp_all
  show ?thesis
  proof (cases "rq_pc rq")
    case AtCheck
    then show ?thesis
      using step by (auto simp: send_and_wait_def intro!: same idle pc_ok_none split: if_splits)
  next
    case AtInsert
    then have c: "pc = AtSend (cl_next ?c)" "c = snd (pending_insert (ids n) ?c)"
      using step id by (auto simp: send_and_wait_def split_beta)
    have "k = n" if k: "cs_requests s k = Some rk" "holds (rq_pc rk) = Some (cl_next ?c)" for k rk
      using client_invD(4) [OF inv k(1)] k(2) chan_okD(1) by (fastforce simp: pc_ok_def)
    then show ?thesis
      unfolding c by (intro same moves_insert)
        (use chan_ok_insert client_invD(1,2) [OF inv] in \<open>auto simp: pc_ok_def\<close>)
  next
    case (AtSend ch)
    then have "c = snd (send_raw_frame (rq_frame rq) ?c)" "holds pc = Some ch" "\<And>p. pc \<noteq> Returned (Inr p)"
      using step by (auto simp: send_and_wait_def send_raw_frame_def split: option.splits)
    then show ?thesis
      using old keep AtSend pc_ok_moves [OF moves_send client_invD(1,2) [OF inv] old]
      by (intro same) (auto simp: pc_ok_def moves_send)
  next
    case (AtUndo ch err)
    then show ?thesis
      using step id
      by (auto simp: send_and_wait_def split_beta pending_remove_def [symmetric] split: option.splits prod.splits
          intro!: same pc_ok_none dest!: arg_cong [of "pending_remove _ _" _ fst])
        (metis fst_conv snd_conv pending_remove_sel(1) moves_undo moves_remove_absent)+
  next
    case (AtWait ch)
    then have "c = ?c" "holds pc = None" using step
      by (auto simp: send_and_wait_def split: chan.splits)
    moreover have "reply_for cd ?items (ids n) p" if "pc = Returned (Inr p)" for p
      using step old that AtWait by (auto simp: send_and_wait_def pc_ok_def chan_ok_def split: chan.splits)
    ultimately show ?thesis by (auto intro!: same idle simp: pc_ok_def)
  next
    case (Returned r)
    then show ?thesis using step by (simp add: send_and_wait_def)
  qed
qed

lemma exec_inv:
  assumes inv: "client_inv cd ids s" and "client_exec cd tr ids a s = Some t"
  shows "client_inv cd ids t"
proof (cases a)
  case (Issue n f)
  then have none: "cs_requests s n = None" and
    t: "t = s\<lparr>cs_requests := (cs_requests s)(n \<mapsto> \<lparr>rq_msg_id = ids n, rq_frame = f, rq_pc = AtCheck\<rparr>)\<rparr>"
    using assms(2) by (auto split: option.splits)
  show ?thesis
    using inv none unfolding client_inv_def t by (auto simp: pc_ok_none)
next
  case (Advance n)
  then show ?thesis using assms advance_inv by (auto split: option.splits)
next
  case (Expire n)
  then obtain rq where rq: "cs_requests s n = Some rq"
    and t: "t = set_request s n rq (Returned (Inl TimeoutError)) (cs_client s)"
    using assms(2) by (auto simp: wait_timeout_def split: option.splits call_pc.splits if_splits)
  show ?thesis unfolding t by (rule client_inv_request [OF inv rq]) (simp_all add: moves_same pc_ok_def)
next
  case (Receive item)
  then have "t = s\<lparr>cs_inbound := inbound_item cd item, cs_items := cs_items s @ [item]\<rparr>" "cs_inbound s = Reading"
    using assms(2) by (auto split: if_splits)
  then show ?thesis using moves_receive by (auto intro: client_inv_moves [OF inv])
next
  case InboundStep
  then show ?thesis using assms(2) moves_inbound
    by (auto split: option.splits intro!: client_inv_moves [OF inv])
next
  case (DisconnectSend m ts)
  then show ?thesis using assms(2) moves_send
    by (auto split: sum.splits intro!: client_inv_moves [OF inv])
next
  case AbortInbound
  then show ?thesis using assms(2) moves_abort [of cd "cs_items s" "cs_client s" "cs_inbound s"]
    by (auto simp: split_beta intro!: client_inv_moves [OF inv])
next
  case (Transport errs)
  then show ?thesis using assms(2) by (auto intro!: client_inv_moves [OF inv] moves_same)
qed

interpretation client: inductive_invariant client_init "client_step cd tr ids" "client_inv cd ids" for cd tr ids
proof unfold_locales
  show "client_init s \<Longrightarrow> client_inv cd ids s" for s
    by (simp add: client_init_def client_inv_def pending_ok_def inbound_ok_def held_senders_def)
  show "client_inv cd ids s \<Longrightarrow> client_step cd tr ids s t \<Longrightarrow> client_inv cd ids t" for s t
    unfolding client_step_def using exec_inv by blast
qed

section \<open>Correlation\<close>

text \<open>
  C7: replies reach the request they answer. In every reachable state, under every
  interleaving of requests, inbound frames, time-outs, send failures and disconnects, a
  request that returned a frame returned one that carries its own message identifier and
  that the inbound task received and decoded from the socket. If identifiers are unique,
  no two requests return frames with the same identifier.
\<close>

theorem replies_correlate:
  assumes "reachable client_init (client_step cd tr ids) s"
    and "cs_requests s n = Some rq" and "rq_pc rq = Returned (Inr p)"
  shows "rq_msg_id rq = ids n \<and> env_msg_id (fp_envelope p) = ids n \<and>
    (\<exists>bs. ItemOk (Binary bs) \<in> set (cs_items s) \<and> mf_decode_frame cd bs = Inr p) \<and>
    (inj ids \<longrightarrow> (\<forall>k rk q. cs_requests s k = Some rk \<and> rq_pc rk = Returned (Inr q) \<and>
       env_msg_id (fp_envelope q) = env_msg_id (fp_envelope p) \<longrightarrow> k = n))"
proof -
  have inv: "client_inv cd ids s" using assms(1) by (rule client.reachable_inv)
  have id: "env_msg_id (fp_envelope q) = ids k" "received cd (cs_items s) q"
    if "cs_requests s k = Some rk" "rq_pc rk = Returned (Inr q)" for k rk q
    using client_invD(4) [OF inv that(1)] that(2) by (simp_all add: pc_ok_def reply_for_def)
  show ?thesis
    using id [OF assms(2,3)] client_invD(3) [OF inv assms(2)] id(1)
    by (auto simp: received_def dest: injD)
qed

text \<open>
  C9: no wake-up is lost. While a request waits on an empty channel, the sending half is
  in the pending map under the request's own identifier, or the inbound task holds it
  and is about to use it.
\<close>

theorem no_lost_wakeup:
  assumes "reachable client_init (client_step cd tr ids) s"
    and "cs_requests s n = Some rq" and "rq_pc rq = AtWait ch" and "cl_chans (cs_client s) ch = Open"
  shows "map_of (cl_pending (cs_client s)) (ids n) = Some ch \<or> ch \<in> set (held_senders (cs_inbound s))"
proof -
  have inv: "client_inv cd ids s" using assms(1) by (rule client.reachable_inv)
  then have "chan_ok cd (cs_items s) (cs_client s) (cs_inbound s) (ids n) ch"
    using client_invD(4) [OF inv assms(2)] assms(3) by (simp add: pc_ok_def)
  then show ?thesis
    using chan_okD(5) assms(4) pending_ok_key client_invD(1) [OF inv] by blast
qed

section \<open>Loss of the connection\<close>

lemma notify_run:
  "cs_inbound s = InNotifying chs \<Longrightarrow>
   \<exists>t. client_run cd tr ids (replicate (Suc (length chs)) InboundStep) s = Some t \<and> cs_inbound t = Stopped \<and>
     cs_requests t = cs_requests s \<and>
     (\<forall>ch \<in> set chs. cl_chans (cs_client t) ch = Sent (Inl (RouterUnavailable (ct_router_endpoint tr)))) \<and>
     (\<forall>ch. ch \<notin> set chs \<longrightarrow> cl_chans (cs_client t) ch = cl_chans (cs_client s) ch)"
proof (induction chs arbitrary: s)
  case Nil
  then show ?case by (simp add: inbound_loop_def)
next
  case (Cons ch chs)
  let ?s = "s\<lparr>cs_inbound := InNotifying chs,
    cs_client := chan_set ch (Sent (Inl (RouterUnavailable (ct_router_endpoint tr)))) (cs_client s)\<rparr>"
  have "client_exec cd tr ids InboundStep s = Some ?s"
    using Cons.prems by (simp add: inbound_loop_def)
  moreover obtain t where "client_run cd tr ids (replicate (Suc (length chs)) InboundStep) ?s = Some t"
      and t: "cs_inbound t = Stopped" "cs_requests t = cs_requests s"
        "\<And>x. cl_chans (cs_client t) x = (if x \<in> set (ch # chs)
           then Sent (Inl (RouterUnavailable (ct_router_endpoint tr))) else cl_chans (cs_client s) x)"
    using Cons.IH [of ?s] by fastforce
  ultimately have "client_run cd tr ids (replicate (Suc (length (ch # chs))) InboundStep) s = Some t"
    by simp
  with t show ?case by (intro exI [of _ t]) simp
qed

lemma client_run_append:
  "client_run cd tr ids (as @ bs) s = (case client_run cd tr ids as s of None \<Rightarrow> None | Some t \<Rightarrow> client_run cd tr ids bs t)"
  by (induction as arbitrary: s) (auto split: option.splits)

text \<open>
  C17: losing the router fails every registered request. Once the inbound task has left
  its loop and is about to drain the pending map, running it to its end takes one step
  for the drain, one per registered request and one to stop; every request that was
  waiting then returns \<open>RouterUnavailable\<close> with the router's endpoint.
\<close>

theorem connection_loss_wakes_requests:
  assumes "reachable client_init (client_step cd tr ids) s" and "cs_inbound s = InDraining"
    and "cs_requests s n = Some rq" and "rq_pc rq = AtWait ch" and "cl_chans (cs_client s) ch = Open"
  shows "\<exists>t. client_run cd tr ids
      (replicate (length (cl_pending (cs_client s)) + 2) InboundStep @ [Advance n]) s = Some t \<and>
    cs_inbound t = Stopped \<and>
    cs_requests t n = Some (rq\<lparr>rq_pc := Returned (Inl (RouterUnavailable (ct_router_endpoint tr)))\<rparr>)"
proof -
  let ?c = "cs_client s"
  let ?chs = "map snd (cl_pending ?c)"
  have inv: "client_inv cd ids s" using assms(1) by (rule client.reachable_inv)
  have ok: "chan_ok cd (cs_items s) ?c (cs_inbound s) (ids n) ch"
    using client_invD(4) [OF inv assms(3)] assms(4) by (simp add: pc_ok_def)
  have "(ids n, ch) \<in> set (cl_pending ?c)"
    using assms(2) by (intro chan_okD(5) [OF ok assms(5)]) (simp add: held_senders_def)
  then have ch: "ch \<in> set ?chs" by force
  let ?s = "s\<lparr>cs_inbound := InNotifying ?chs, cs_client := ?c\<lparr>cl_pending := []\<rparr>\<rparr>"
  have drain: "client_exec cd tr ids InboundStep s = Some ?s"
    using assms(2) by (simp add: inbound_loop_def pending_drain_def)
  obtain t where run: "client_run cd tr ids (replicate (Suc (length ?chs)) InboundStep) ?s = Some t"
    and t: "cs_inbound t = Stopped" "cs_requests t = cs_requests s"
      "cl_chans (cs_client t) ch = Sent (Inl (RouterUnavailable (ct_router_endpoint tr)))"
    using notify_run [of ?s ?chs cd tr ids] ch by auto
  have split: "replicate (length (cl_pending ?c) + 2) InboundStep =
      InboundStep # replicate (Suc (length ?chs)) InboundStep"
    by (simp add: numeral_2_eq_2)
  have all: "client_run cd tr ids (replicate (length (cl_pending ?c) + 2) InboundStep) s = Some t"
    unfolding split client_run.simps(2) drain using run by simp
  have "client_run cd tr ids [Advance n] t =
      Some (set_request t n rq (Returned (Inl (RouterUnavailable (ct_router_endpoint tr)))) (cs_client t))"
    using t assms(3,4) by (simp add: send_and_wait_def)
  then show ?thesis
    unfolding client_run_append all option.case using t by (simp add: set_request_def)
qed

section \<open>Requests that wait for ever\<close>

definition stranded :: "codec \<Rightarrow> (nat \<Rightarrow> string) \<Rightarrow> nat \<Rightarrow> request \<Rightarrow> nat \<Rightarrow> ClientSystem \<Rightarrow> bool" where
  "stranded cd ids n rq ch s \<longleftrightarrow> client_inv cd ids s \<and> cs_inbound s \<in> {Stopped, Aborted} \<and>
     cs_requests s n = Some rq \<and> rq_pc rq = AtWait ch \<and> cl_chans (cs_client s) ch = Open"

lemma stranded_key:
  assumes "stranded cd ids n rq ch s" and "inj ids" and "cs_requests s k = Some rk" and "k \<noteq> n"
  shows "map_of (cl_pending (cs_client s)) (rq_msg_id rk) \<noteq> Some ch"
proof
  assume "map_of (cl_pending (cs_client s)) (rq_msg_id rk) = Some ch"
  moreover have "rq_msg_id rk = ids k"
    using assms(1) client_invD(3) [OF _ assms(3)] unfolding stranded_def by blast
  ultimately have "(ids k, ch) \<in> set (cl_pending (cs_client s))"
    by (auto dest: map_of_SomeD)
  moreover have "chan_ok cd (cs_items s) (cs_client s) (cs_inbound s) (ids n) ch"
    using assms(1) client_invD(4) by (fastforce simp: stranded_def pc_ok_def)
  ultimately have "ids k = ids n" by (auto dest: chan_okD(2))
  with assms(2,4) show False by (auto dest: injD)
qed

lemma stranded_advance:
  assumes st: "stranded cd ids n rq ch s" and "inj ids" and k: "cs_requests s k = Some rk"
    and step: "send_and_wait tr rk (cs_client s) = Some (pc, c)"
  shows "k \<noteq> n \<and> cl_chans c ch = Open"
proof -
  have n: "k \<noteq> n" using st k step by (auto simp: stranded_def send_and_wait_def)
  have key: "map_of (cl_pending (cs_client s)) (rq_msg_id rk) \<noteq> Some ch"
    using stranded_key [OF st assms(2) k n] .
  have "ch \<noteq> cl_next (cs_client s)"
    using st client_invD(4) by (fastforce simp: stranded_def pc_ok_def chan_ok_def)
  then show ?thesis
    using n key st step
    by (auto simp: stranded_def send_and_wait_def split_beta send_raw_frame_def pending_remove_def
        split: call_pc.splits option.splits chan.splits if_splits)
qed

lemma stranded_step:
  assumes st: "stranded cd ids n rq ch s" and "inj ids" and "ct_request_timeout tr = None"
    and ex: "client_exec cd tr ids a s = Some t"
  shows "stranded cd ids n rq ch t"
proof -
  have inv: "client_inv cd ids t" using st ex exec_inv by (auto simp: stranded_def)
  show ?thesis
  proof (cases a)
    case (Advance k)
    then show ?thesis
      using st ex inv stranded_advance [OF st assms(2)]
      by (fastforce simp: stranded_def set_request_def split: option.splits)
  next
    case AbortInbound
    then show ?thesis using st ex inv
      by (auto simp: stranded_def abort_inbound_def held_senders_def)
  qed (use st ex inv assms(3) in \<open>auto simp: stranded_def wait_timeout_def inbound_loop_def send_raw_frame_def
        split: option.splits sum.splits call_pc.splits if_splits\<close>)
qed

lemma stranded_forever:
  assumes "stranded cd ids n rq ch s" and "inj ids" and "ct_request_timeout tr = None"
    and "(client_step cd tr ids)\<^sup>*\<^sup>* s t"
  shows "stranded cd ids n rq ch t"
  using assms(4,1)
  by (induction rule: rtranclp_induct) (use assms(2,3) stranded_step in \<open>auto simp: client_step_def\<close>)

text \<open>
  C35: a request without time-out can wait for ever. If the inbound task has ended or was
  aborted while a request waits on an empty channel, no continuation of the system ever
  makes this request return.
\<close>

theorem dead_inbound_strands_request:
  assumes "reachable client_init (client_step cd tr ids) s" and "inj ids" and "ct_request_timeout tr = None"
    and "cs_inbound s \<in> {Stopped, Aborted}"
    and "cs_requests s n = Some rq" and "rq_pc rq = AtWait ch" and "cl_chans (cs_client s) ch = Open"
    and "(client_step cd tr ids)\<^sup>*\<^sup>* s t"
  shows "cs_requests t n = Some rq"
proof -
  have "stranded cd ids n rq ch s"
    using assms client.reachable_inv by (simp add: stranded_def)
  then have "stranded cd ids n rq ch t" using assms(2,3,8) by (rule stranded_forever)
  then show ?thesis by (simp add: stranded_def)
qed

section \<open>Concrete schedules\<close>

definition demo_transport :: "nat option \<Rightarrow> CallerTransport" where
  "demo_transport t = \<lparr>ct_peer_id = ''cli'', ct_default_target_peer_id = Some ''svc'',
     ct_router_endpoint = ''ws://127.0.0.1:9981'', ct_request_timeout = t\<rparr>"

definition demo_start :: ClientSystem where
  "demo_start = \<lparr>cs_client = \<lparr>cl_pending = [], cl_chans = (\<lambda>_. Dropped), cl_next = 0, cl_closed = False,
      cl_sent = [], cl_send_err = (\<lambda>_. None)\<rparr>,
     cs_inbound = Reading, cs_requests = Map.empty, cs_items = []\<rparr>"

lemma demo_start_init: "client_init demo_start"
  by (simp add: client_init_def demo_start_def)

lemma client_run_steps: "client_run cd tr ids as s = Some t \<Longrightarrow> (client_step cd tr ids)\<^sup>*\<^sup>* s t"
proof (induction as arbitrary: s)
  case Nil
  then show ?case by simp
next
  case (Cons a as)
  then obtain u where "client_exec cd tr ids a s = Some u" "client_run cd tr ids as u = Some t"
    by (auto split: option.splits)
  then show ?case
    using Cons.IH by (metis client_step_def converse_rtranclp_into_rtranclp)
qed

lemma demo_reachable:
  "client_run cd tr ids as demo_start = Some t \<Longrightarrow> reachable client_init (client_step cd tr ids) t"
  by (rule reachable_rtranclp, rule reachable_init, rule demo_start_init, rule client_run_steps)

lemma show_nat_inj: "inj show_nat"
  by (rule inj_on_inverseI [of _ digits_val]) simp

text \<open>
  The request passes the closed check, the router closes the connection, the inbound task
  drains the still empty map and stops, and only then the request registers and sends.
\<close>

definition race_schedule :: "client_action list" where
  "race_schedule = [Issue 0 [], Advance 0, Receive ItemEnd, InboundStep, InboundStep, InboundStep,
     Advance 0, Advance 0]"

definition race_state :: ClientSystem where
  "race_state = demo_start\<lparr>cs_client := (cs_client demo_start)\<lparr>cl_pending := [(show_nat 0, 0)],
       cl_chans := (\<lambda>_. Dropped)(0 := Open), cl_next := 1, cl_closed := True, cl_sent := [[]]\<rparr>,
     cs_inbound := Stopped, cs_items := [ItemEnd],
     cs_requests := [0 \<mapsto> \<lparr>rq_msg_id = show_nat 0, rq_frame = [], rq_pc = AtWait 0\<rparr>]\<rparr>"

lemma race_run: "client_run cd (demo_transport t) show_nat race_schedule demo_start = Some race_state"
  by (simp add: race_schedule_def race_state_def demo_start_def send_and_wait_def pending_insert_def
      send_raw_frame_def set_request_def inbound_item_def inbound_loop_def pending_drain_def Let_def)

theorem dead_inbound_strands_request_witness:
  "reachable client_init (client_step msgpack (demo_transport None) show_nat) race_state \<and>
   cl_closed (cs_client race_state) \<and>
   \<not> (\<exists>t. (client_step msgpack (demo_transport None) show_nat)\<^sup>*\<^sup>* race_state t \<and>
      cs_requests t 0 \<noteq> Some \<lparr>rq_msg_id = show_nat 0, rq_frame = [], rq_pc = AtWait 0\<rparr>)"
  using dead_inbound_strands_request [OF demo_reachable [OF race_run, of msgpack None] show_nat_inj, of 0
      "\<lparr>rq_msg_id = show_nat 0, rq_frame = [], rq_pc = AtWait 0\<rparr>" 0]
    demo_reachable [OF race_run, of msgpack None]
  by (simp add: race_state_def demo_transport_def)

text \<open>One request that is registered and sent, and waits.\<close>

definition waiting_request :: request where
  "waiting_request = \<lparr>rq_msg_id = show_nat 0, rq_frame = [7], rq_pc = AtWait 0\<rparr>"

definition waiting_schedule :: "client_action list" where
  "waiting_schedule = [Issue 0 [7], Advance 0, Advance 0, Advance 0]"

definition waiting_state :: ClientSystem where
  "waiting_state = demo_start\<lparr>cs_client := (cs_client demo_start)\<lparr>cl_pending := [(show_nat 0, 0)],
       cl_chans := (\<lambda>_. Dropped)(0 := Open), cl_next := 1, cl_sent := [[7]]\<rparr>,
     cs_requests := [0 \<mapsto> waiting_request]\<rparr>"

lemma waiting_run: "client_run cd (demo_transport t) show_nat waiting_schedule demo_start = Some waiting_state"
  by (simp add: waiting_schedule_def waiting_state_def waiting_request_def demo_start_def send_and_wait_def
      pending_insert_def send_raw_frame_def set_request_def Let_def)

lemmas waiting_reachable = demo_reachable [OF waiting_run]

lemma waiting_sel [simp]: "cs_requests waiting_state = [0 \<mapsto> waiting_request]"
  "cs_inbound waiting_state = Reading" "cl_pending (cs_client waiting_state) = [(show_nat 0, 0)]"
  "cl_chans (cs_client waiting_state) = (\<lambda>_. Dropped)(0 := Open)" "cs_items waiting_state = []"
  "cl_send_err (cs_client waiting_state) = (\<lambda>_. None)"
  by (simp_all add: waiting_state_def demo_start_def)

lemma waiting_request_sel [simp]: "rq_pc waiting_request = AtWait 0" "rq_msg_id waiting_request = show_nat 0"
  by (simp_all add: waiting_request_def)

theorem no_lost_wakeup_witness:
  "map_of (cl_pending (cs_client waiting_state)) (show_nat 0) = Some 0 \<or>
   0 \<in> set (held_senders (cs_inbound waiting_state))"
  using no_lost_wakeup [OF waiting_reachable [of msgpack None], of 0 waiting_request 0] by simp

lemma steps_reachable:
  "reachable client_init (client_step cd tr ids) s \<Longrightarrow> client_run cd tr ids as s = Some t \<Longrightarrow>
   reachable client_init (client_step cd tr ids) t"
  by (rule reachable_rtranclp, assumption, rule client_run_steps)

definition losing_state :: ClientSystem where
  "losing_state = waiting_state\<lparr>cs_inbound := InDraining, cs_items := [ItemEnd],
     cs_client := (cs_client waiting_state)\<lparr>cl_closed := True\<rparr>\<rparr>"

lemma losing_run: "client_run cd tr ids [Receive ItemEnd, InboundStep] waiting_state = Some losing_state"
  by (simp add: losing_state_def inbound_item_def inbound_loop_def)

theorem connection_loss_wakes_requests_witness:
  "\<exists>t. client_run msgpack (demo_transport None) show_nat
      [InboundStep, InboundStep, InboundStep, Advance 0] losing_state = Some t \<and>
    cs_inbound t = Stopped \<and>
    cs_requests t 0 = Some (waiting_request\<lparr>rq_pc := Returned (Inl (RouterUnavailable ''ws://127.0.0.1:9981''))\<rparr>)"
proof -
  have "reachable client_init (client_step msgpack (demo_transport None) show_nat) losing_state"
    by (rule steps_reachable [OF waiting_reachable losing_run])
  from connection_loss_wakes_requests [OF this, of 0 waiting_request 0] show ?thesis
    by (simp add: losing_state_def demo_transport_def numeral_eq_Suc del: client_run.simps)
qed

definition demo_reply :: FrameParts where
  "demo_reply = \<lparr>fp_envelope = build_response_envelope 0 ''svc'' ''cli'' (show_nat 0), fp_body_bytes = [1, 2]\<rparr>"

definition demo_reply_bytes :: bytes where
  "demo_reply_bytes = frame_bytes msgpack (fp_envelope demo_reply) (fp_body_bytes demo_reply)"

lemma demo_reply_decode: "mf_decode_frame msgpack demo_reply_bytes = Inr demo_reply"
proof -
  have "well_framed msgpack (fp_envelope demo_reply)"
    by (rule msgpack_well_framed)
      (simp_all add: demo_reply_def build_response_envelope_def mf_defs PROTOCOL_VERSION_def show_nat.simps)
  then show ?thesis
    using mf_decode_frame_bytes [of msgpack "fp_envelope demo_reply" "fp_body_bytes demo_reply"]
    by (simp add: demo_reply_bytes_def)
qed

lemma demo_reply_id: "env_msg_id (fp_envelope demo_reply) = show_nat 0"
  by (simp add: demo_reply_def build_response_envelope_def)

definition answered_state :: ClientSystem where
  "answered_state = waiting_state\<lparr>cs_items := [ItemOk (Binary demo_reply_bytes)],
     cs_client := (cs_client waiting_state)\<lparr>cl_pending := [],
       cl_chans := (\<lambda>_. Dropped)(0 := Sent (Inr demo_reply))\<rparr>,
     cs_requests := [0 \<mapsto> waiting_request\<lparr>rq_pc := Returned (Inr demo_reply)\<rparr>]\<rparr>"

lemma answered_run: "client_run msgpack (demo_transport t) show_nat
    [Receive (ItemOk (Binary demo_reply_bytes)), InboundStep, InboundStep, Advance 0] waiting_state = Some answered_state"
  by (simp add: answered_state_def inbound_item_def inbound_loop_def demo_reply_decode demo_reply_id
      pending_remove_def chan_set_def send_and_wait_def set_request_def)

theorem replies_correlate_witness:
  "env_msg_id (fp_envelope demo_reply) = show_nat 0 \<and>
   (\<exists>bs. ItemOk (Binary bs) \<in> set (cs_items answered_state) \<and> mf_decode_frame msgpack bs = Inr demo_reply)"
proof -
  have "reachable client_init (client_step msgpack (demo_transport None) show_nat) answered_state"
    by (rule steps_reachable [OF waiting_reachable answered_run])
  from replies_correlate [OF this, of 0 "waiting_request\<lparr>rq_pc := Returned (Inr demo_reply)\<rparr>" demo_reply]
  show ?thesis by (simp add: answered_state_def)
qed

section \<open>Disconnects and time-outs\<close>

lemma disconnect_run:
  "disconnect_frame cd fresh_id ts (ct_peer_id tr) = Inr f \<Longrightarrow>
   client_run cd tr ids [DisconnectSend fresh_id ts, AbortInbound] s =
     Some (s\<lparr>cs_inbound := fst (snd (disconnect cd fresh_id ts tr (cs_inbound s) (cs_client s))),
             cs_client := snd (snd (disconnect cd fresh_id ts tr (cs_inbound s) (cs_client s)))\<rparr>)"
  by (simp add: disconnect_def split_beta)

text \<open>
  C36: \<open>disconnect\<close> strands outstanding requests. If a request without time-out waits
  and the inbound task is between two messages, \<open>disconnect\<close> leaves its entry in the
  pending map, sets no closed flag, and the request never returns afterwards.
\<close>

theorem disconnect_strands_request:
  assumes "reachable client_init (client_step cd tr ids) s" and "inj ids" and "ct_request_timeout tr = None"
    and "cs_inbound s = Reading" and "cs_requests s n = Some rq" and "rq_pc rq = AtWait ch"
    and "cl_chans (cs_client s) ch = Open"
    and "disconnect_frame cd fresh_id ts (ct_peer_id tr) = Inr f"
    and "client_run cd tr ids [DisconnectSend fresh_id ts, AbortInbound] s = Some t"
    and "(client_step cd tr ids)\<^sup>*\<^sup>* t u"
  shows "cs_requests u n = Some rq \<and> map_of (cl_pending (cs_client t)) (ids n) = Some ch \<and>
    cl_closed (cs_client t) = cl_closed (cs_client s)"
proof -
  have inv: "client_inv cd ids s" using assms(1) by (rule client.reachable_inv)
  have ok: "chan_ok cd (cs_items s) (cs_client s) (cs_inbound s) (ids n) ch"
    using client_invD(4) [OF inv assms(5)] assms(6) by (simp add: pc_ok_def)
  have "(ids n, ch) \<in> set (cl_pending (cs_client s))"
    using assms(4) by (intro chan_okD(5) [OF ok assms(7)]) (simp add: held_senders_def)
  then have key: "map_of (cl_pending (cs_client s)) (ids n) = Some ch"
    using pending_ok_key client_invD(1) [OF inv] by blast
  have t: "t = s\<lparr>cs_inbound := Aborted, cs_client := snd (send_raw_frame f (cs_client s))\<rparr>"
    using assms(4,8,9) by (simp add: abort_inbound_def held_senders_def)
  have "client_inv cd ids t"
    using client.reachable_inv [OF steps_reachable [OF assms(1,9)]] .
  then have "stranded cd ids n rq ch t"
    using assms(5-7) by (simp add: t stranded_def send_raw_frame_def split: option.splits)
  then have "stranded cd ids n rq ch u" using assms(2,3,10) by (rule stranded_forever)
  then show ?thesis
    using key by (auto simp: t stranded_def send_raw_frame_def split: option.splits)
qed

definition demo_disconnect :: bytes where
  "demo_disconnect = frame_bytes msgpack (build_disconnect_envelope 0 ''cli'' ''router'' ''d'') []"

lemma demo_disconnect_frame: "disconnect_frame msgpack ''d'' 0 ''cli'' = Inr demo_disconnect"
proof -
  have "well_framed msgpack (build_disconnect_envelope 0 ''cli'' ''router'' ''d'')"
    by (rule msgpack_well_framed) (simp_all add: build_disconnect_envelope_def mf_defs PROTOCOL_VERSION_def)
  then obtain f where "encode_frame msgpack (build_disconnect_envelope 0 ''cli'' ''router'' ''d'') [] = Inr f"
    using router_frames.encode_succeeds by blast
  then show ?thesis
    by (simp add: disconnect_frame_def demo_disconnect_def frame_bytes_def MF_ROUTER_PEER_ID_def
        to_router.encode_agree)
qed

theorem disconnect_strands_request_witness:
  "\<exists>t. client_run msgpack (demo_transport None) show_nat [DisconnectSend ''d'' 0, AbortInbound] waiting_state = Some t \<and>
     (\<forall>u. (client_step msgpack (demo_transport None) show_nat)\<^sup>*\<^sup>* t u \<longrightarrow> cs_requests u 0 = Some waiting_request)"
proof -
  have d: "disconnect_frame msgpack ''d'' 0 (ct_peer_id (demo_transport None)) = Inr demo_disconnect"
    using demo_disconnect_frame by (simp add: demo_transport_def)
  obtain t where "client_run msgpack (demo_transport None) show_nat [DisconnectSend ''d'' 0, AbortInbound] waiting_state = Some t"
    using disconnect_run [OF d] by blast
  with disconnect_strands_request [OF waiting_reachable show_nat_inj _ _ _ _ _ d this, of 0 waiting_request 0]
  show ?thesis by (auto simp: demo_transport_def simp del: client_run.simps)
qed

text \<open>
  A time-out leaves the pending entry behind. The request returns \<open>TimeoutError\<close>
  and its identifier stays registered, so that the map grows with every request that
  times out until a late reply with this identifier or the end of the connection.
\<close>

theorem timeout_leaks_entry:
  assumes "reachable client_init (client_step cd tr ids) s" and "cs_inbound s = Reading"
    and "cs_requests s n = Some rq" and "rq_pc rq = AtWait ch" and "cl_chans (cs_client s) ch = Open"
    and "ct_request_timeout tr = Some ms"
  shows "\<exists>t. client_exec cd tr ids (Expire n) s = Some t \<and>
    cs_requests t n = Some (rq\<lparr>rq_pc := Returned (Inl TimeoutError)\<rparr>) \<and>
    map_of (cl_pending (cs_client t)) (ids n) = Some ch"
proof -
  have inv: "client_inv cd ids s" using assms(1) by (rule client.reachable_inv)
  have ok: "chan_ok cd (cs_items s) (cs_client s) (cs_inbound s) (ids n) ch"
    using client_invD(4) [OF inv assms(3)] assms(4) by (simp add: pc_ok_def)
  have "(ids n, ch) \<in> set (cl_pending (cs_client s))"
    using assms(2) by (intro chan_okD(5) [OF ok assms(5)]) (simp add: held_senders_def)
  then have "map_of (cl_pending (cs_client s)) (ids n) = Some ch"
    using pending_ok_key client_invD(1) [OF inv] by blast
  then show ?thesis
    using assms(3-6) by (simp add: wait_timeout_def set_request_def)
qed

theorem timeout_leaks_entry_witness:
  "\<exists>t. client_exec msgpack (demo_transport (Some 30000)) show_nat (Expire 0) waiting_state = Some t \<and>
    cs_requests t 0 = Some (waiting_request\<lparr>rq_pc := Returned (Inl TimeoutError)\<rparr>) \<and>
    map_of (cl_pending (cs_client t)) (show_nat 0) = Some 0"
  using timeout_leaks_entry [OF waiting_reachable, of 0 waiting_request 0 "Some 30000" 30000 msgpack]
  by (simp add: demo_transport_def del: client_exec.simps)

section \<open>Undisturbed requests\<close>

lemma filter_absent: "map_of xs m = None \<Longrightarrow> filter (\<lambda>e. fst e \<noteq> m) xs = xs"
  by (force simp: map_of_eq_None_iff filter_id_conv)

text \<open>
  A request on its own. On a closed transport it fails at once and touches nothing;
  when the socket refuses the frame it returns that error, sends nothing and leaves the
  pending map as it found it; otherwise exactly its frame is sent and it waits on a
  fresh channel registered under its identifier.
\<close>

theorem request_prologue:
  assumes "cs_requests s n = None" and "map_of (cl_pending (cs_client s)) (ids n) = None"
  shows "if cl_closed (cs_client s)
    then (\<exists>t. client_run cd tr ids [Issue n f, Advance n] s = Some t \<and> cs_client t = cs_client s \<and>
      map_option rq_pc (cs_requests t n) = Some (Returned (Inl (RouterUnavailable (ct_router_endpoint tr)))))
    else case cl_send_err (cs_client s) f of
      Some err \<Rightarrow> (\<exists>t. client_run cd tr ids [Issue n f, Advance n, Advance n, Advance n, Advance n] s = Some t \<and>
        map_option rq_pc (cs_requests t n) = Some (Returned (Inl (WebSocketError err))) \<and>
        cl_pending (cs_client t) = cl_pending (cs_client s) \<and> cl_sent (cs_client t) = cl_sent (cs_client s))
    | None \<Rightarrow> (\<exists>t. client_run cd tr ids [Issue n f, Advance n, Advance n, Advance n] s = Some t \<and>
        map_option rq_pc (cs_requests t n) = Some (AtWait (cl_next (cs_client s))) \<and>
        cl_chans (cs_client t) (cl_next (cs_client s)) = Open \<and>
        cl_pending (cs_client t) = (ids n, cl_next (cs_client s)) # cl_pending (cs_client s) \<and>
        cl_sent (cs_client t) = cl_sent (cs_client s) @ [f])"
  using assms
  by (auto simp: send_and_wait_def set_request_def pending_insert_def pending_remove_def send_raw_frame_def
      chan_set_def Let_def filter_absent split: option.splits)

theorem request_prologue_witness:
  "\<exists>t. client_run msgpack (demo_transport None) show_nat [Issue 0 [7], Advance 0, Advance 0, Advance 0] demo_start = Some t \<and>
     cl_pending (cs_client t) = [(show_nat 0, 0)] \<and> cl_sent (cs_client t) = [[7]]"
  using request_prologue [of demo_start 0 show_nat msgpack "demo_transport None" "[7]"]
  by (auto simp: demo_start_def simp del: client_run.simps)

end
