(* ===== verification/Client_Service.thy ===== *)
theory Client_Service
  imports Client_Transport Prog
begin

text \<open>
  rust/src/child.rs: the service runtime. One task registers the service, then reads
  one message after the other, dispatches calls to the user's worker and writes one
  reply per call. The worker is user code: a function parameter that may change a state
  of its own.
\<close>

section \<open>Service context\<close>

record ServiceContext =
  ctx_namespace :: string
  ctx_service_id :: "string option"
  ctx_entrypoint_path :: "string option"
  ctx_endpoint :: string
  ctx_request_timeout :: "nat option"
  ctx_extra_functions :: "(string \<times> string) list"

text \<open>\<open>endpoint\<close> is \<open>RouterBootstrapConfig::from_env().endpoint.ws_url()\<close>.\<close>

definition new_context :: "string \<Rightarrow> ServiceContext" where
  "new_context endpoint = \<lparr>ctx_namespace = ''default'', ctx_service_id = None, ctx_entrypoint_path = None,
     ctx_endpoint = endpoint, ctx_request_timeout = Some 30000, ctx_extra_functions = []\<rparr>"

definition with_service_id :: "string \<Rightarrow> ServiceContext \<Rightarrow> ServiceContext" where
  "with_service_id service_id ctx = ctx\<lparr>ctx_service_id := Some service_id\<rparr>"

definition with_entrypoint_path :: "string \<Rightarrow> ServiceContext \<Rightarrow> ServiceContext" where
  "with_entrypoint_path path ctx = ctx\<lparr>ctx_entrypoint_path := Some path\<rparr>"

definition with_namespace :: "string \<Rightarrow> ServiceContext \<Rightarrow> ServiceContext" where
  "with_namespace namespace ctx = ctx\<lparr>ctx_namespace := namespace\<rparr>"

definition with_timeout :: "nat \<Rightarrow> ServiceContext \<Rightarrow> ServiceContext" where
  "with_timeout timeout ctx = ctx\<lparr>ctx_request_timeout := Some timeout\<rparr>"

definition register_function :: "string \<Rightarrow> string \<Rightarrow> ServiceContext \<Rightarrow> ServiceContext" where
  "register_function name description ctx = ctx\<lparr>ctx_extra_functions :=
     (name, description) # filter (\<lambda>e. fst e \<noteq> name) (ctx_extra_functions ctx)\<rparr>"

definition list_functions :: "ServiceContext \<Rightarrow> string list" where
  "list_functions ctx = map fst (ctx_extra_functions ctx)"

text \<open>
  What identity resolution asks of the process: two environment variables, the path of
  the executable, and \<open>Path::canonicalize\<close> (absent where it fails). Paths are taken to
  be text.
\<close>

record service_os =
  so_service_peer_id :: "string option"
  so_entrypoint_path :: "string option"
  so_current_exe :: "string option"
  so_canonicalize :: "string \<Rightarrow> string option"

text \<open>
  \<open>text.trim().is_empty()\<close>: the UTF-8 text consists of white space only, which is the
  ASCII blanks and the characters U+0085, U+00A0, U+1680, U+2000 to U+200A, U+2028,
  U+2029, U+202F, U+205F and U+3000.
\<close>

definition white1 :: "char \<Rightarrow> bool" where
  "white1 c \<longleftrightarrow> c = CHR '' '' \<or> (9 \<le> (of_char c :: nat) \<and> (of_char c :: nat) \<le> 13)"

definition white2 :: "char \<Rightarrow> char \<Rightarrow> bool" where
  "white2 c d \<longleftrightarrow> c = CHR 0xC2 \<and> (d = CHR 0x85 \<or> d = CHR 0xA0)"

definition white3 :: "char \<Rightarrow> char \<Rightarrow> char \<Rightarrow> bool" where
  "white3 c d e \<longleftrightarrow> c = CHR 0xE1 \<and> d = CHR 0x9A \<and> e = CHR 0x80 \<or>
     c = CHR 0xE2 \<and> d = CHR 0x80 \<and>
       (0x80 \<le> (of_char e :: nat) \<and> (of_char e :: nat) \<le> 0x8A \<or> e = CHR 0xA8 \<or> e = CHR 0xA9 \<or> e = CHR 0xAF) \<or>
     c = CHR 0xE2 \<and> d = CHR 0x81 \<and> e = CHR 0x9F \<or>
     c = CHR 0xE3 \<and> d = CHR 0x80 \<and> e = CHR 0x80"

fun trim_is_empty :: "string \<Rightarrow> bool" where
  "trim_is_empty [] \<longleftrightarrow> True"
| "trim_is_empty [c] \<longleftrightarrow> white1 c"
| "trim_is_empty [c, d] \<longleftrightarrow> white1 c \<and> trim_is_empty [d] \<or> white2 c d"
| "trim_is_empty (c # d # e # es) \<longleftrightarrow> white1 c \<and> trim_is_empty (d # e # es) \<or>
     white2 c d \<and> trim_is_empty (e # es) \<or> white3 c d e \<and> trim_is_empty es"

definition canonical_peer_path :: "service_os \<Rightarrow> string \<Rightarrow> string" where
  "canonical_peer_path os path = (case so_canonicalize os path of Some p \<Rightarrow> p | None \<Rightarrow> path)"

definition resolve_peer_id :: "service_os \<Rightarrow> ServiceContext \<Rightarrow> MultifrostError + string" where
  "resolve_peer_id os ctx = (case ctx_service_id ctx of
     Some service_id \<Rightarrow> Inr service_id
   | None \<Rightarrow>
       (let derived = Inr (canonical_peer_path os
              (case ctx_entrypoint_path ctx of
                 Some p \<Rightarrow> p
               | None \<Rightarrow> (case so_entrypoint_path os of
                   Some p \<Rightarrow> p
                 | None \<Rightarrow> (case so_current_exe os of Some p \<Rightarrow> p | None \<Rightarrow> ''.''))))
        in case so_service_peer_id os of
             Some explicit \<Rightarrow> if \<not> trim_is_empty explicit then Inr explicit else derived
           | None \<Rightarrow> derived))"

section \<open>The service's world\<close>

text \<open>
  \<open>sv_sent\<close> are the frames written to the router, \<open>sv_log\<close> the lines on standard
  error, and \<open>sv_worker\<close> the state of the user's worker.
\<close>

record 'w ServiceWorld =
  sv_sent :: "bytes list"
  sv_send_err :: "bytes \<Rightarrow> string option"
  sv_clock :: "f64 option"
  sv_log :: "string list"
  sv_worker :: 'w

type_synonym 'w worker = "string \<Rightarrow> Value list \<Rightarrow> 'w \<Rightarrow> (MultifrostError + Value) \<times> 'w"
type_synonym ('w, 'a) service_task = "('w ServiceWorld, 'a) prog"

definition sv_now_ts :: "('w, f64) service_task" where
  "sv_now_ts = act (\<lambda>w. (mf_now_ts (sv_clock w), w))"

definition eprintln :: "string \<Rightarrow> ('w, unit) service_task" where
  "eprintln line = act (\<lambda>w. ((), w\<lparr>sv_log := sv_log w @ [line]\<rparr>))"

definition send_ws_frame :: "bytes \<Rightarrow> ('w, MultifrostError + unit) service_task" where
  "send_ws_frame frame = act (\<lambda>w. case sv_send_err w frame of
     None \<Rightarrow> (Inr (), w\<lparr>sv_sent := sv_sent w @ [frame]\<rparr>)
   | Some err \<Rightarrow> (Inl (WebSocketError err), w))"

definition call_worker :: "'w worker \<Rightarrow> string \<Rightarrow> Value list \<Rightarrow> ('w, MultifrostError + Value) service_task" where
  "call_worker worker function args = act (\<lambda>w.
     case worker function args (sv_worker w) of (r, st) \<Rightarrow> (r, w\<lparr>sv_worker := st\<rparr>))"

section \<open>Calls\<close>

definition send_error ::
    "codec \<Rightarrow> string \<Rightarrow> string \<Rightarrow> string \<Rightarrow> string \<Rightarrow> string \<Rightarrow> string \<Rightarrow> WireValue option \<Rightarrow>
     ('w, MultifrostError + unit) service_task" where
  "send_error cd from_peer to_peer msg_id code kind message details =
     pbind sv_now_ts (\<lambda>ts.
       let envelope = build_error_envelope ts from_peer to_peer msg_id in
       plift (mf_encode_error_body cd \<lparr>err_code = code, err_message = message, err_kind = kind,
                err_stack = None, err_details = details\<rparr>) (\<lambda>body.
         plift (mf_encode_frame cd envelope body) send_ws_frame))"

definition child_build_response_envelope :: "f64 \<Rightarrow> string \<Rightarrow> string \<Rightarrow> string \<Rightarrow> Envelope" where
  "child_build_response_envelope ts from to msg_id =
     \<lparr>env_v = MF_PROTOCOL_VERSION, env_kind = MF_KIND_RESPONSE, env_msg_id = msg_id,
      env_from = from, env_to = to, env_ts = ts\<rparr>"

definition handle_call_frame ::
    "codec \<Rightarrow> string \<Rightarrow> 'w worker \<Rightarrow> FrameParts \<Rightarrow> ('w, MultifrostError + unit) service_task" where
  "handle_call_frame cd peer_id worker frame =
     (let caller = env_from (fp_envelope frame); msg_id = env_msg_id (fp_envelope frame) in
      case decode_call_body cd (fp_body_bytes frame) of
        Inl err \<Rightarrow> send_error cd peer_id caller msg_id ''malformed_call'' ''protocol'' (error_text err) None
      | Inr call \<Rightarrow>
          if (case call_namespace call of Some namespace \<Rightarrow> namespace \<noteq> ''default'' | None \<Rightarrow> False)
          then send_error cd peer_id caller msg_id ''invalid_namespace'' ''protocol''
                 (''unsupported namespace: '' @ the (call_namespace call)) None
          else
            pbind (call_worker worker (call_function call) (call_args call)) (\<lambda>reply.
              pbind sv_now_ts (\<lambda>ts.
                plift (case reply of
                    Inr result \<Rightarrow>
                      and_then (encode_response_body cd \<lparr>resp_result = result\<rparr>)
                        (mf_encode_frame cd (child_build_response_envelope ts peer_id caller msg_id))
                  | Inl err \<Rightarrow>
                      and_then (mf_encode_error_body cd \<lparr>err_code = ''application_error'',
                          err_message = error_text err, err_kind = ''application'',
                          err_stack = None, err_details = None\<rparr>)
                        (mf_encode_frame cd (build_error_envelope ts peer_id caller msg_id)))
                  send_ws_frame)))"

section \<open>The service loop\<close>

datatype service_ctl = ServiceContinue | ServiceBreak

definition service_item ::
    "codec \<Rightarrow> string \<Rightarrow> 'w worker \<Rightarrow> ws_item \<Rightarrow> ('w, service_ctl) service_task" where
  "service_item cd peer_id worker item = (case item of
     ItemOk (Binary bs) \<Rightarrow> (case mf_decode_frame cd bs of
         Inl err \<Rightarrow> pbind (eprintln (''malformed inbound frame: '' @ error_text err)) (\<lambda>_. Ret ServiceContinue)
       | Inr frame \<Rightarrow>
           if env_to (fp_envelope frame) \<noteq> peer_id then Ret ServiceContinue
           else if env_kind (fp_envelope frame) = MF_KIND_CALL
           then pbind (handle_call_frame cd peer_id worker frame) (\<lambda>r. case r of
                  Inl err \<Rightarrow> pbind (eprintln (''service call handling error: '' @ error_text err))
                               (\<lambda>_. Ret ServiceContinue)
                | Inr _ \<Rightarrow> Ret ServiceContinue)
           else if env_kind (fp_envelope frame) = MF_KIND_DISCONNECT then Ret ServiceBreak
           else Ret ServiceContinue)
   | ItemOk Close \<Rightarrow> Ret ServiceBreak
   | ItemOk _ \<Rightarrow> Ret ServiceContinue
   | ItemErr err \<Rightarrow> pbind (eprintln (''service websocket error: '' @ err)) (\<lambda>_. Ret ServiceBreak)
   | ItemEnd \<Rightarrow> Ret ServiceBreak)"

fun service_loop :: "codec \<Rightarrow> string \<Rightarrow> 'w worker \<Rightarrow> ws_item list \<Rightarrow> ('w, unit) service_task" where
  "service_loop cd peer_id worker [] = Ret ()"
| "service_loop cd peer_id worker (item # items) =
     pbind (service_item cd peer_id worker item) (\<lambda>ctl. case ctl of
       ServiceBreak \<Rightarrow> Ret ()
     | ServiceContinue \<Rightarrow> service_loop cd peer_id worker items)"

definition send_disconnect_frame :: "codec \<Rightarrow> string \<Rightarrow> string \<Rightarrow> ('w, MultifrostError + unit) service_task" where
  "send_disconnect_frame cd fresh_id peer_id =
     pbind sv_now_ts (\<lambda>ts. plift (disconnect_frame cd fresh_id ts peer_id) send_ws_frame)"

text \<open>
  The service from its start to its end, for the items received after the registration:
  the first is the reply to it. \<open>bootstrap\<close> and \<open>ws\<close> are the results of reaching the
  router, \<open>register_id\<close> and \<open>disconnect_id\<close> the two fresh message identifiers.
\<close>

definition run_service_async ::
    "codec \<Rightarrow> service_os \<Rightarrow> MultifrostError + unit \<Rightarrow> string option \<Rightarrow> string \<Rightarrow> string \<Rightarrow> 'w worker \<Rightarrow>
     ServiceContext \<Rightarrow> ws_item list \<Rightarrow> ('w, MultifrostError + unit) service_task" where
  "run_service_async cd os bootstrap ws register_id disconnect_id worker ctx items =
     plift (resolve_peer_id os ctx) (\<lambda>peer_id.
       plift bootstrap (\<lambda>_.
         plift (case ws of Some err \<Rightarrow> Inl (RouterUnavailable err) | None \<Rightarrow> Inr ()) (\<lambda>_.
           pbind sv_now_ts (\<lambda>ts.
             plift (register_frame cd register_id ts peer_id Service) (\<lambda>frame.
               ptry (send_ws_frame frame) (\<lambda>_.
                 plift (register_reply cd ''router rejected service registration''
                          (case items of [] \<Rightarrow> ItemEnd | i # _ \<Rightarrow> i)) (\<lambda>_.
                   pbind (service_loop cd peer_id worker (tl items)) (\<lambda>_.
                     pbind (send_disconnect_frame cd disconnect_id peer_id) (\<lambda>_. Ret (Inr ()))))))))))"

section \<open>Running a service as a process\<close>

text \<open>
  \<open>SyncToAsyncAdapter\<close> runs a synchronous worker inside the call. \<open>run_service\<close> and
  \<open>run_service_sync\<close> return when the service ends well, and otherwise print the error and
  exit with status 1. \<open>runtime\<close> is the error of creating a tokio runtime, if it fails.
\<close>

definition sync_to_async_adapter :: "'w worker \<Rightarrow> 'w worker" where
  "sync_to_async_adapter worker = (\<lambda>function args w. worker function args w)"

datatype service_end = ServiceReturned | ServiceExited string nat

definition exit_on_error :: "MultifrostError + unit \<Rightarrow> service_end" where
  "exit_on_error r = (case r of
     Inl err \<Rightarrow> ServiceExited (''Worker error: '' @ error_text err) 1
   | Inr _ \<Rightarrow> ServiceReturned)"

definition run_service ::
    "codec \<Rightarrow> service_os \<Rightarrow> MultifrostError + unit \<Rightarrow> string option \<Rightarrow> string \<Rightarrow> string \<Rightarrow> 'w worker \<Rightarrow>
     ServiceContext \<Rightarrow> ws_item list \<Rightarrow> ('w, service_end) service_task" where
  "run_service cd os bootstrap ws register_id disconnect_id worker ctx items =
     pbind (run_service_async cd os bootstrap ws register_id disconnect_id worker ctx items)
       (\<lambda>r. Ret (exit_on_error r))"

definition run_service_sync_inner ::
    "string option \<Rightarrow> codec \<Rightarrow> service_os \<Rightarrow> MultifrostError + unit \<Rightarrow> string option \<Rightarrow> string \<Rightarrow> string \<Rightarrow>
     'w worker \<Rightarrow> ServiceContext \<Rightarrow> ws_item list \<Rightarrow> ('w, MultifrostError + unit) service_task" where
  "run_service_sync_inner runtime cd os bootstrap ws register_id disconnect_id worker ctx items =
     plift (case runtime of Some err \<Rightarrow> Inl (IoError err) | None \<Rightarrow> Inr ()) (\<lambda>_.
       run_service_async cd os bootstrap ws register_id disconnect_id (sync_to_async_adapter worker) ctx items)"

definition run_service_sync ::
    "string option \<Rightarrow> codec \<Rightarrow> service_os \<Rightarrow> MultifrostError + unit \<Rightarrow> string option \<Rightarrow> string \<Rightarrow> string \<Rightarrow>
     'w worker \<Rightarrow> ServiceContext \<Rightarrow> ws_item list \<Rightarrow> ('w, service_end) service_task" where
  "run_service_sync runtime cd os bootstrap ws register_id disconnect_id worker ctx items =
     pbind (run_service_sync_inner runtime cd os bootstrap ws register_id disconnect_id worker ctx items)
       (\<lambda>r. Ret (exit_on_error r))"

text \<open>With a runtime, a synchronous worker is served as an asynchronous one.\<close>

lemma run_service_sync_same:
  "run_service_sync None cd os bootstrap ws register_id disconnect_id worker ctx items =
     run_service cd os bootstrap ws register_id disconnect_id worker ctx items"
  by (simp add: run_service_sync_def run_service_sync_inner_def run_service_def sync_to_async_adapter_def)

end
