(* ===== verification/Client_Service_Spec.thy ===== *)
theory Client_Service_Spec
  imports Client_Service "HOL-Library.Sublist"
begin

text \<open>
  What the service runtime of rust/src/child.rs guarantees: every call is answered by
  exactly one frame for its caller with its identifier, replies come in the order of the
  calls and none is left out, other traffic has no effect, and a run of the service is registration, replies,
  disconnect.
\<close>

section \<open>Runs of the elementary actions\<close>

definition sv_transmit :: "MultifrostError + bytes \<Rightarrow> 'w ServiceWorld \<Rightarrow> (MultifrostError + unit) \<times> 'w ServiceWorld" where
  "sv_transmit r w = (case r of
     Inl e \<Rightarrow> (Inl e, w)
   | Inr f \<Rightarrow> (case sv_send_err w f of
       None \<Rightarrow> (Inr (), w\<lparr>sv_sent := sv_sent w @ [f]\<rparr>)
     | Some err \<Rightarrow> (Inl (WebSocketError err), w)))"

named_theorems sv_run_simps \<open>runs of the service's tasks\<close>

lemma run_sv [simp, sv_run_simps]:
  "run sv_now_ts w = (mf_now_ts (sv_clock w), w)"
  "run (eprintln l) w = ((), w\<lparr>sv_log := sv_log w @ [l]\<rparr>)"
  "run (call_worker worker fn args) w =
     (fst (worker fn args (sv_worker w)), w\<lparr>sv_worker := snd (worker fn args (sv_worker w))\<rparr>)"
  by (simp_all add: sv_now_ts_def eprintln_def call_worker_def split_beta)

lemma run_send_ws_frame [simp, sv_run_simps]: "run (send_ws_frame f) w = sv_transmit (Inr f) w"
  by (simp add: send_ws_frame_def sv_transmit_def)

lemma run_plift_send [simp, sv_run_simps]: "run (plift r send_ws_frame) w = sv_transmit r w"
  by (cases r) (simp_all add: sv_transmit_def)

section \<open>The answer to a call\<close>

text \<open>
  What a call amounts to: it does not decode, it names a namespace that is not served,
  or the worker answers it. Only in the last case the worker runs, and once.
\<close>

datatype outcome = Undecodable MultifrostError | ForeignNamespace string | Answer "MultifrostError + Value"

definition call_outcome :: "codec \<Rightarrow> 'w worker \<Rightarrow> FrameParts \<Rightarrow> 'w \<Rightarrow> outcome \<times> 'w" where
  "call_outcome cd worker frame st = (case dec_call cd (fp_body_bytes frame) of
     Inl err \<Rightarrow> (Undecodable (MfMalformedFrame err), st)
   | Inr call \<Rightarrow>
       if call_namespace call \<in> {None, Some ''default''}
       then (case worker (call_function call) (call_args call) st of (r, st') \<Rightarrow> (Answer r, st'))
       else (ForeignNamespace (the (call_namespace call)), st))"

definition failure_body :: "string \<Rightarrow> string \<Rightarrow> string \<Rightarrow> ErrorBody" where
  "failure_body code kind message =
     \<lparr>err_code = code, err_message = message, err_kind = kind, err_stack = None, err_details = None\<rparr>"

definition answer_envelope :: "f64 \<Rightarrow> string \<Rightarrow> Envelope \<Rightarrow> outcome \<Rightarrow> Envelope" where
  "answer_envelope ts peer_id e out =
     \<lparr>env_v = 5, env_kind = (case out of Answer (Inr _) \<Rightarrow> ''response'' | _ \<Rightarrow> ''error''),
      env_msg_id = env_msg_id e, env_from = peer_id, env_to = env_from e, env_ts = ts\<rparr>"

fun answer_body :: "codec \<Rightarrow> outcome \<Rightarrow> string + bytes" where
  "answer_body cd (Undecodable err) = enc_error cd (failure_body ''malformed_call'' ''protocol'' (error_text err))"
| "answer_body cd (ForeignNamespace ns) =
     enc_error cd (failure_body ''invalid_namespace'' ''protocol'' (''unsupported namespace: '' @ ns))"
| "answer_body cd (Answer (Inr v)) = enc_response cd \<lparr>resp_result = v\<rparr>"
| "answer_body cd (Answer (Inl err)) = enc_error cd (failure_body ''application_error'' ''application'' (error_text err))"

definition answer_frame :: "codec \<Rightarrow> f64 \<Rightarrow> string \<Rightarrow> Envelope \<Rightarrow> outcome \<Rightarrow> MultifrostError + bytes" where
  "answer_frame cd ts peer_id e out =
     and_then (map_err SerializeError (answer_body cd out)) (mf_encode_frame cd (answer_envelope ts peer_id e out))"

lemma run_handle_call_frame:
  "run (handle_call_frame cd peer_id worker frame) w =
     (let (out, st) = call_outcome cd worker frame (sv_worker w)
      in sv_transmit (answer_frame cd (mf_now_ts (sv_clock w)) peer_id (fp_envelope frame) out)
           (w\<lparr>sv_worker := st\<rparr>))"
proof -
  have err: "run (send_error cd peer_id caller m code kind msg None) w =
      sv_transmit (and_then (map_err SerializeError (enc_error cd (failure_body code kind msg)))
        (mf_encode_frame cd (build_error_envelope (mf_now_ts (sv_clock w)) peer_id caller m))) w" for caller m code kind msg
    by (cases "enc_error cd (failure_body code kind msg)")
      (simp_all add: send_error_def mf_encode_error_body_def failure_body_def sv_transmit_def Let_def)
  have pl: "run (plift (and_then r g) send_ws_frame) v = sv_transmit (and_then r g) v" for r g and v :: "'a ServiceWorld"
    by simp
  show ?thesis
  proof (cases "dec_call cd (fp_body_bytes frame)")
    case (Inl e)
    then show ?thesis
      by (simp add: handle_call_frame_def decode_call_body_def Let_def err call_outcome_def answer_frame_def
          answer_envelope_def build_error_envelope_def mf_defs)
  next
    case (Inr call)
    show ?thesis
    proof (cases "call_namespace call \<in> {None, Some ''default''}")
      case False
      then show ?thesis using Inr
        by (auto simp: handle_call_frame_def decode_call_body_def Let_def err call_outcome_def answer_frame_def
            answer_envelope_def build_error_envelope_def mf_defs)
    next
      case True
      then have ns: "\<not> (case call_namespace call of Some namespace \<Rightarrow> namespace \<noteq> ''default'' | None \<Rightarrow> False)"
        by auto
      obtain r st where r: "worker (call_function call) (call_args call) (sv_worker w) = (r, st)" by force
      show ?thesis using Inr True ns r
        by (cases r) (auto simp: handle_call_frame_def decode_call_body_def Let_def call_outcome_def
            answer_frame_def answer_envelope_def build_error_envelope_def child_build_response_envelope_def
            mf_defs mf_encode_error_body_def encode_response_body_def failure_body_def)
    qed
  qed
qed

text \<open>
  C16: \<open>handle_call_frame\<close> refines the abstract answer. On every branch (undecodable
  body, foreign namespace, result or error of the worker) it runs the worker at most
  once, with the function and arguments of the call, and hands exactly one frame to the
  socket: the answer, addressed to the caller under the call's identifier. If that frame
  cannot be encoded or sent the error is returned and nothing is sent.
\<close>

theorem handle_call_frame_refines:
  "run (handle_call_frame cd peer_id worker frame) w =
     (let (out, st) = call_outcome cd worker frame (sv_worker w)
      in sv_transmit (answer_frame cd (mf_now_ts (sv_clock w)) peer_id (fp_envelope frame) out)
           (w\<lparr>sv_worker := st\<rparr>))"
  by (rule run_handle_call_frame)

lemma answer_frame_decode:
  assumes "round_trips (enc_envelope cd) (dec_envelope cd)"
    and "well_framed cd (answer_envelope ts peer_id e out)"
    and "answer_frame cd ts peer_id e out = Inr f"
  shows "\<exists>b. answer_body cd out = Inr b \<and>
    mf_decode_frame cd f = Inr \<lparr>fp_envelope = answer_envelope ts peer_id e out, fp_body_bytes = b\<rparr>"
  using assms client_frames.decode_encode [OF assms(1,2)]
  by (auto simp: answer_frame_def and_then_eq_Inr)

section \<open>The loop\<close>

definition call_for :: "codec \<Rightarrow> string \<Rightarrow> ws_item \<Rightarrow> FrameParts option" where
  "call_for cd peer_id item = (case item of
     ItemOk (Binary bs) \<Rightarrow> (case mf_decode_frame cd bs of
         Inr p \<Rightarrow> if env_to (fp_envelope p) = peer_id \<and> env_kind (fp_envelope p) = ''call'' then Some p else None
       | Inl _ \<Rightarrow> None)
   | _ \<Rightarrow> None)"

text \<open>The items that end the loop, and the calls that a service gets before the first of them.\<close>

definition ends_service :: "codec \<Rightarrow> string \<Rightarrow> ws_item \<Rightarrow> bool" where
  "ends_service cd peer_id item = (case item of
     ItemOk (Binary bs) \<Rightarrow> (case mf_decode_frame cd bs of
         Inr p \<Rightarrow> env_to (fp_envelope p) = peer_id \<and> env_kind (fp_envelope p) = ''disconnect''
       | Inl _ \<Rightarrow> False)
   | ItemOk Close \<Rightarrow> True
   | ItemOk _ \<Rightarrow> False
   | _ \<Rightarrow> True)"

definition served_calls :: "codec \<Rightarrow> string \<Rightarrow> ws_item list \<Rightarrow> FrameParts list" where
  "served_calls cd peer_id items =
     List.map_filter (call_for cd peer_id) (takeWhile (\<lambda>item. \<not> ends_service cd peer_id item) items)"

text \<open>
  The frames that answer a sequence of calls, and the worker's state after them: each call
  is put to the worker in the state that the earlier ones left. An answer that cannot be
  encoded is not written.
\<close>

primrec serve_calls :: "codec \<Rightarrow> f64 \<Rightarrow> string \<Rightarrow> 'w worker \<Rightarrow> FrameParts list \<Rightarrow> 'w \<Rightarrow> bytes list \<times> 'w" where
  "serve_calls cd ts peer_id worker [] st = ([], st)"
| "serve_calls cd ts peer_id worker (p # ps) st =
     (case call_outcome cd worker p st of (out, st') \<Rightarrow>
       (case serve_calls cd ts peer_id worker ps st' of (fs, st'') \<Rightarrow>
         ((case answer_frame cd ts peer_id (fp_envelope p) out of Inr f \<Rightarrow> f # fs | Inl _ \<Rightarrow> fs), st'')))"

lemma service_item_no_call:
  assumes "call_for cd peer_id item = None"
  shows "\<exists>ctl log. run (service_item cd peer_id worker item) w = (ctl, w\<lparr>sv_log := log\<rparr>)"
proof -
  have "w\<lparr>sv_log := sv_log w\<rparr> = w" by simp
  then have same: "\<exists>log. w = w\<lparr>sv_log := log\<rparr>" by metis
  show ?thesis
    using assms same
    by (auto simp: service_item_def call_for_def mf_defs split: ws_item.splits Message.splits sum.splits if_splits)
qed

lemma service_item_call:
  assumes "call_for cd peer_id item = Some p"
  shows "run (service_item cd peer_id worker item) w =
    (case run (handle_call_frame cd peer_id worker p) w of
       (Inr _, w') \<Rightarrow> (ServiceContinue, w')
     | (Inl err, w') \<Rightarrow> (ServiceContinue,
         w'\<lparr>sv_log := sv_log w' @ [''service call handling error: '' @ error_text err]\<rparr>))"
  using assms
  by (auto simp: service_item_def call_for_def mf_defs split_beta
      split: ws_item.splits Message.splits sum.splits if_splits)

lemma sv_transmit_sel [simp]:
  "sv_send_err (snd (sv_transmit r w)) = sv_send_err w" "sv_clock (snd (sv_transmit r w)) = sv_clock w"
  by (simp_all add: sv_transmit_def split: sum.splits option.splits)

lemma service_item_ctl:
  "fst (run (service_item cd peer_id worker item) w) =
     (if ends_service cd peer_id item then ServiceBreak else ServiceContinue)"
  by (auto simp: service_item_def ends_service_def mf_defs split_beta
      split: ws_item.splits Message.splits sum.splits)

text \<open>Whatever the socket does, an item only adds to what was written.\<close>

lemma service_item_appends: "prefix (sv_sent w) (sv_sent (snd (run (service_item cd peer_id worker item) w)))"
proof (cases "call_for cd peer_id item")
  case None
  then obtain ctl log where "run (service_item cd peer_id worker item) w = (ctl, w\<lparr>sv_log := log\<rparr>)"
    using service_item_no_call by blast
  then show ?thesis by simp
next
  case (Some p)
  obtain out st where "call_outcome cd worker p (sv_worker w) = (out, st)" by force
  then show ?thesis
    unfolding service_item_call [OF Some]
    by (auto simp: run_handle_call_frame sv_transmit_def split: sum.splits option.splits)
qed

lemma ends_no_call: "ends_service cd peer_id item \<Longrightarrow> call_for cd peer_id item = None"
  by (auto simp: ends_service_def call_for_def split: ws_item.splits Message.splits sum.splits)

lemma service_item_served:
  assumes "\<And>f. sv_send_err w f = None"
  shows "\<exists>log. snd (run (service_item cd peer_id worker item) w) =
    (case serve_calls cd (mf_now_ts (sv_clock w)) peer_id worker
        (List.map_filter (call_for cd peer_id) [item]) (sv_worker w) of
       (fs, st) \<Rightarrow> w\<lparr>sv_sent := sv_sent w @ fs, sv_worker := st, sv_log := log\<rparr>)"
proof (cases "call_for cd peer_id item")
  case None
  then obtain ctl log where "run (service_item cd peer_id worker item) w = (ctl, w\<lparr>sv_log := log\<rparr>)"
    using service_item_no_call by blast
  then show ?thesis using None by (intro exI [of _ log]) (simp add: List.map_filter_simps)
next
  case (Some p)
  obtain out st where out: "call_outcome cd worker p (sv_worker w) = (out, st)" by force
  define r where "r = answer_frame cd (mf_now_ts (sv_clock w)) peer_id (fp_envelope p) out"
  have run: "run (handle_call_frame cd peer_id worker p) w = sv_transmit r (w\<lparr>sv_worker := st\<rparr>)"
    by (simp add: run_handle_call_frame out r_def)
  have calls: "List.map_filter (call_for cd peer_id) [item] = [p]" by (simp add: List.map_filter_simps Some)
  show ?thesis
  proof (cases r)
    case (Inl e)
    then show ?thesis
      unfolding service_item_call [OF Some] run calls
      by (intro exI [of _ "sv_log w @ [''service call handling error: '' @ error_text e]"])
        (simp add: out sv_transmit_def flip: r_def)
  next
    case (Inr f)
    then show ?thesis
      unfolding service_item_call [OF Some] run calls using assms
      by (intro exI [of _ "sv_log w"]) (simp add: out sv_transmit_def flip: r_def)
  qed
qed

lemma serve_calls_append:
  "serve_calls cd ts peer_id worker (ps @ qs) st =
     (case serve_calls cd ts peer_id worker ps st of (fs, st') \<Rightarrow>
       (case serve_calls cd ts peer_id worker qs st' of (gs, st'') \<Rightarrow> (fs @ gs, st'')))"
  by (induction ps arbitrary: st) (auto split: prod.splits sum.splits)

lemma service_loop_served:
  assumes "\<And>f. sv_send_err w f = None"
  shows "\<exists>log. snd (run (service_loop cd peer_id worker items) w) =
    (case serve_calls cd (mf_now_ts (sv_clock w)) peer_id worker (served_calls cd peer_id items) (sv_worker w) of
       (fs, st) \<Rightarrow> w\<lparr>sv_sent := sv_sent w @ fs, sv_worker := st, sv_log := log\<rparr>)"
  using assms
proof (induction items arbitrary: w)
  case Nil
  then show ?case by (intro exI [of _ "sv_log w"]) (simp add: served_calls_def List.map_filter_simps)
next
  case (Cons item items)
  define w1 where "w1 = snd (run (service_item cd peer_id worker item) w)"
  obtain fs st log where one: "serve_calls cd (mf_now_ts (sv_clock w)) peer_id worker
        (List.map_filter (call_for cd peer_id) [item]) (sv_worker w) = (fs, st)"
      "w1 = w\<lparr>sv_sent := sv_sent w @ fs, sv_worker := st, sv_log := log\<rparr>"
    using service_item_served [where w = w and cd = cd and item = item and peer_id = peer_id and worker = worker, OF Cons.prems]
    unfolding w1_def by (cases "serve_calls cd (mf_now_ts (sv_clock w)) peer_id worker
        (List.map_filter (call_for cd peer_id) [item]) (sv_worker w)") (auto simp del: List.map_filter_simps)
  show ?case
  proof (cases "ends_service cd peer_id item")
    case True
    then have none: "call_for cd peer_id item = None" by (rule ends_no_call)
    then have "fs = []" "st = sv_worker w" using one(1) by (simp_all add: List.map_filter_simps)
    then show ?thesis
      using True one(2) none service_item_ctl [of cd peer_id worker item w]
      by (intro exI [of _ log]) (simp add: served_calls_def List.map_filter_simps flip: w1_def)
  next
    case False
    have calls: "served_calls cd peer_id (item # items) =
        List.map_filter (call_for cd peer_id) [item] @ served_calls cd peer_id items"
      using False by (simp add: served_calls_def List.map_filter_simps split: option.splits)
    obtain log' where "snd (run (service_loop cd peer_id worker items) w1) =
        (case serve_calls cd (mf_now_ts (sv_clock w)) peer_id worker (served_calls cd peer_id items) st of
          (gs, st') \<Rightarrow> w1\<lparr>sv_sent := sv_sent w1 @ gs, sv_worker := st', sv_log := log'\<rparr>)"
      using Cons.IH [of w1] Cons.prems one(2) by auto
    then show ?thesis
      using False service_item_ctl [of cd peer_id worker item w] one
      by (intro exI [of _ log']) (simp add: calls serve_calls_append flip: w1_def split: prod.splits)
  qed
qed

lemma service_item_answers:
  assumes "round_trips (enc_envelope cd) (dec_envelope cd)"
    and "mf_decode_frame cd bs = Inr p" and "env_to (fp_envelope p) = peer_id"
    and "env_kind (fp_envelope p) = ''call''"
    and "call_outcome cd worker p (sv_worker w) = (out, st)"
    and "answer_body cd out = Inr b"
    and "well_framed cd (answer_envelope (mf_now_ts (sv_clock w)) peer_id (fp_envelope p) out)"
    and "\<And>f. sv_send_err w f = None"
  shows "\<exists>f reply. run (service_item cd peer_id worker (ItemOk (Binary bs))) w =
      (ServiceContinue, w\<lparr>sv_worker := st, sv_sent := sv_sent w @ [f]\<rparr>) \<and>
    mf_decode_frame cd f = Inr reply \<and> fp_body_bytes reply = b \<and>
    env_from (fp_envelope reply) = peer_id \<and> env_to (fp_envelope reply) = env_from (fp_envelope p) \<and>
    env_msg_id (fp_envelope reply) = env_msg_id (fp_envelope p) \<and>
    env_kind (fp_envelope reply) = (case out of Answer (Inr _) \<Rightarrow> ''response'' | _ \<Rightarrow> ''error'')"
proof -
  let ?ts = "mf_now_ts (sv_clock w)"
  have call: "call_for cd peer_id (ItemOk (Binary bs)) = Some p"
    using assms(2-4) by (simp add: call_for_def)
  obtain f where f: "mf_encode_frame cd (answer_envelope ?ts peer_id (fp_envelope p) out) b = Inr f"
    using client_frames.encode_succeeds [OF assms(7)] by blast
  then have af: "answer_frame cd ?ts peer_id (fp_envelope p) out = Inr f"
    using assms(6) by (simp add: answer_frame_def)
  have run: "run (service_item cd peer_id worker (ItemOk (Binary bs))) w =
      (ServiceContinue, w\<lparr>sv_worker := st, sv_sent := sv_sent w @ [f]\<rparr>)"
    unfolding service_item_call [OF call] using assms(5,8) af
    by (simp add: run_handle_call_frame sv_transmit_def)
  show ?thesis
    using run client_frames.decode_encode [OF assms(1,7) f]
    by (intro exI [of _ f] exI [of _ "\<lparr>fp_envelope = answer_envelope ?ts peer_id (fp_envelope p) out, fp_body_bytes = b\<rparr>"])
      (simp add: answer_envelope_def)
qed

text \<open>
  Every call is answered to its caller. A call addressed to the service, whose
  answer the serialiser can encode and the socket accepts, makes the loop write exactly
  one frame and go on; the frame decodes to an envelope from the service to the caller
  with the call's identifier, of kind \<open>response\<close> if the worker ran and returned a value
  and of kind \<open>error\<close> otherwise, and the worker's state is the one after this single run.
\<close>

theorem call_gets_its_reply:
  assumes "round_trips (enc_envelope cd) (dec_envelope cd)"
    and "mf_decode_frame cd bs = Inr p" and "env_to (fp_envelope p) = peer_id"
    and "env_kind (fp_envelope p) = ''call''"
    and "call_outcome cd worker p (sv_worker w) = (out, st)"
    and "answer_body cd out = Inr b"
    and "well_framed cd (answer_envelope (mf_now_ts (sv_clock w)) peer_id (fp_envelope p) out)"
    and "\<And>f. sv_send_err w f = None"
  shows "\<exists>f reply. run (service_item cd peer_id worker (ItemOk (Binary bs))) w =
      (ServiceContinue, w\<lparr>sv_worker := st, sv_sent := sv_sent w @ [f]\<rparr>) \<and>
    mf_decode_frame cd f = Inr reply \<and> fp_body_bytes reply = b \<and>
    env_from (fp_envelope reply) = peer_id \<and> env_to (fp_envelope reply) = env_from (fp_envelope p) \<and>
    env_msg_id (fp_envelope reply) = env_msg_id (fp_envelope p) \<and>
    env_kind (fp_envelope reply) = (case out of Answer (Inr _) \<Rightarrow> ''response'' | _ \<Rightarrow> ''error'')"
  using assms by (rule service_item_answers)

section \<open>The whole service\<close>

lemma service_run:
  assumes "resolve_peer_id os ctx = Inr peer_id"
    and "register_frame cd register_id (mf_now_ts (sv_clock w)) peer_id Service = Inr rf"
    and "disconnect_frame cd disconnect_id (mf_now_ts (sv_clock w)) peer_id = Inr df"
    and "\<And>f. sv_send_err w f = None"
  shows "case register_reply cd ''router rejected service registration'' (case items of [] \<Rightarrow> ItemEnd | i # _ \<Rightarrow> i) of
      Inl err \<Rightarrow> run (run_service_async cd os (Inr ()) None register_id disconnect_id worker ctx items) w =
        (Inl err, w\<lparr>sv_sent := sv_sent w @ [rf]\<rparr>)
    | Inr _ \<Rightarrow> \<exists>w'. run (run_service_async cd os (Inr ()) None register_id disconnect_id worker ctx items) w =
          (Inr (), w') \<and>
        (case serve_calls cd (mf_now_ts (sv_clock w)) peer_id worker (served_calls cd peer_id (tl items)) (sv_worker w) of
           (fs, st) \<Rightarrow> sv_sent w' = sv_sent w @ [rf] @ fs @ [df] \<and> sv_worker w' = st)"
proof -
  let ?w = "w\<lparr>sv_sent := sv_sent w @ [rf]\<rparr>"
  obtain fs st where served: "serve_calls cd (mf_now_ts (sv_clock w)) peer_id worker
      (served_calls cd peer_id (tl items)) (sv_worker w) = (fs, st)" by force
  then obtain log where loop: "snd (run (service_loop cd peer_id worker (tl items)) ?w) =
      ?w\<lparr>sv_sent := sv_sent ?w @ fs, sv_worker := st, sv_log := log\<rparr>"
    using service_loop_served [where w = ?w and cd = cd and peer_id = peer_id and items = "tl items" and worker = worker]
      assms(4) by auto
  show ?thesis
  proof (cases "register_reply cd ''router rejected service registration'' (case items of [] \<Rightarrow> ItemEnd | i # _ \<Rightarrow> i)")
    case (Inl e)
    then show ?thesis using assms by (simp add: run_service_async_def ptry_run sv_transmit_def)
  next
    case (Inr u)
    then show ?thesis using assms loop served
      by (simp add: run_service_async_def ptry_run sv_transmit_def send_disconnect_frame_def)
  qed
qed

text \<open>
  C21: a service's traffic. With a reachable router, encodable registration and disconnect
  frames, a working socket and a clock that stands still, the service writes its
  registration first; if the reply rejects it, it stops with that error having written
  nothing else. Otherwise it serves every call addressed to it up to the first message that
  ends the loop (a close, an error or end of the stream, or a disconnect for it), in their
  order and each exactly once: the worker goes through the states that these calls lead
  to, and the frames written are the registration, then for each call the answer that the
  worker's outcome calls for, then one disconnect, and the service ends without error.
\<close>

theorem service_traffic:
  assumes "resolve_peer_id os ctx = Inr peer_id"
    and "register_frame cd register_id (mf_now_ts (sv_clock w)) peer_id Service = Inr rf"
    and "disconnect_frame cd disconnect_id (mf_now_ts (sv_clock w)) peer_id = Inr df"
    and "\<And>f. sv_send_err w f = None"
  shows "case register_reply cd ''router rejected service registration'' (case items of [] \<Rightarrow> ItemEnd | i # _ \<Rightarrow> i) of
      Inl err \<Rightarrow> run (run_service_async cd os (Inr ()) None register_id disconnect_id worker ctx items) w =
        (Inl err, w\<lparr>sv_sent := sv_sent w @ [rf]\<rparr>)
    | Inr _ \<Rightarrow> \<exists>w'. run (run_service_async cd os (Inr ()) None register_id disconnect_id worker ctx items) w =
          (Inr (), w') \<and>
        (case serve_calls cd (mf_now_ts (sv_clock w)) peer_id worker (served_calls cd peer_id (tl items)) (sv_worker w) of
           (fs, st) \<Rightarrow> sv_sent w' = sv_sent w @ [rf] @ fs @ [df] \<and> sv_worker w' = st)"
  using assms by (rule service_run)

text \<open>
  The namespace of the context is never consulted: a service configured with any
  namespace behaves like one configured with any other.
\<close>

theorem namespace_setting_ignored:
  "run_service_async cd os bootstrap ws register_id disconnect_id worker (with_namespace ns ctx) items =
   run_service_async cd os bootstrap ws register_id disconnect_id worker ctx items"
  by (simp add: run_service_async_def resolve_peer_id_def with_namespace_def cong: option.case_cong)

section \<open>A concrete service\<close>

text \<open>A worker that counts its runs and answers every call with \<open>true\<close>.\<close>

definition demo_worker :: "nat worker" where
  "demo_worker function args n = (Inr (VBool True), Suc n)"

definition demo_world :: "nat ServiceWorld" where
  "demo_world = \<lparr>sv_sent = [], sv_send_err = (\<lambda>_. None), sv_clock = Some 0, sv_log = [], sv_worker = 0\<rparr>"

definition demo_call :: CallBody where
  "demo_call = \<lparr>call_function = ''add'', call_args = [VPosInt 1, VPosInt 2], call_namespace = None\<rparr>"

definition demo_call_frame :: FrameParts where
  "demo_call_frame = \<lparr>fp_envelope = build_call_envelope ''m1'' 0 ''cli'' ''svc'', fp_body_bytes = mp_call demo_call\<rparr>"

definition demo_call_bytes :: bytes where
  "demo_call_bytes = frame_bytes msgpack (fp_envelope demo_call_frame) (fp_body_bytes demo_call_frame)"

lemma demo_call_decode: "mf_decode_frame msgpack demo_call_bytes = Inr demo_call_frame"
proof -
  have "well_framed msgpack (fp_envelope demo_call_frame)"
    by (rule msgpack_well_framed)
      (simp_all add: demo_call_frame_def build_call_envelope_def mf_defs PROTOCOL_VERSION_def)
  then show ?thesis
    using mf_decode_frame_bytes [of msgpack "fp_envelope demo_call_frame" "fp_body_bytes demo_call_frame"]
    by (simp add: demo_call_bytes_def)
qed

lemma demo_call_body: "dec_call msgpack (mp_call demo_call) = Inr demo_call"
proof -
  have "enc_call msgpack demo_call = Inr (mp_call demo_call)"
    by (simp add: msgpack_def mk_enc_def demo_call_def call_ok_def args_ok_def str_ok_def)
  then show ?thesis by (rule round_tripsD [OF msgpack_round_trips(7)])
qed

lemma demo_outcome: "call_outcome msgpack demo_worker demo_call_frame 0 = (Answer (Inr (VBool True)), 1)"
  by (simp add: call_outcome_def demo_call_frame_def demo_call_body) (simp add: demo_call_def demo_worker_def)

theorem call_gets_its_reply_witness:
  "\<exists>f reply. run (service_item msgpack ''svc'' demo_worker (ItemOk (Binary demo_call_bytes))) demo_world =
      (ServiceContinue, demo_world\<lparr>sv_worker := 1, sv_sent := [f]\<rparr>) \<and>
    mf_decode_frame msgpack f = Inr reply \<and> env_to (fp_envelope reply) = ''cli'' \<and>
    env_msg_id (fp_envelope reply) = ''m1'' \<and> env_kind (fp_envelope reply) = ''response''"
proof -
  have wf: "well_framed msgpack (answer_envelope 0 ''svc'' (fp_envelope demo_call_frame) (Answer (Inr (VBool True))))"
    by (rule msgpack_well_framed)
      (simp_all add: answer_envelope_def demo_call_frame_def build_call_envelope_def PROTOCOL_VERSION_def)
  have env: "env_to (fp_envelope demo_call_frame) = ''svc''" "env_kind (fp_envelope demo_call_frame) = ''call''"
    "env_from (fp_envelope demo_call_frame) = ''cli''" "env_msg_id (fp_envelope demo_call_frame) = ''m1''"
    by (simp_all add: demo_call_frame_def build_call_envelope_def mf_defs)
  have body: "answer_body msgpack (Answer (Inr (VBool True))) = Inr (mp_response \<lparr>resp_result = VBool True\<rparr>)"
    by (simp add: msgpack_def mk_enc_def)
  have w: "sv_worker demo_world = 0" "mf_now_ts (sv_clock demo_world) = 0" "sv_send_err demo_world f = None"
    "sv_sent demo_world = []" for f
    by (simp_all add: demo_world_def mf_now_ts_def)
  show ?thesis
    using call_gets_its_reply [OF msgpack_round_trips(1) demo_call_decode env(1,2), of demo_worker demo_world
        "Answer (Inr (VBool True))" 1] demo_outcome body wf env w
    by auto
qed

text \<open>The router's acknowledgement of the registration.\<close>

definition demo_ack_bytes :: bytes where
  "demo_ack_bytes = frame_bytes msgpack (build_response_envelope 0 ''router'' ''svc'' ''r'')
     (mp_ack \<lparr>ack_accepted = True, ack_reason = None\<rparr>)"

lemma demo_ack_accepted: "register_reply msgpack reason (ItemOk (Binary demo_ack_bytes)) = Inr ()"
proof -
  let ?e = "build_response_envelope 0 ''router'' ''svc'' ''r''"
  let ?a = "\<lparr>ack_accepted = True, ack_reason = None\<rparr> :: RegisterAckBody"
  have "well_framed msgpack ?e"
    by (rule msgpack_well_framed) (simp_all add: build_response_envelope_def mf_defs PROTOCOL_VERSION_def)
  then have frame: "mf_decode_frame msgpack demo_ack_bytes = Inr \<lparr>fp_envelope = ?e, fp_body_bytes = mp_ack ?a\<rparr>"
    using mf_decode_frame_bytes [of msgpack ?e "mp_ack ?a"] by (simp add: demo_ack_bytes_def)
  have "enc_ack msgpack ?a = Inr (mp_ack ?a)" by (simp add: msgpack_def mk_enc_def)
  then have "dec_ack msgpack (mp_ack ?a) = Inr ?a" by (rule round_tripsD [OF msgpack_round_trips(3)])
  then show ?thesis
    using frame by (simp add: register_reply_def mf_decode_register_ack_body_def build_response_envelope_def mf_defs)
qed

definition demo_os :: service_os where
  "demo_os = \<lparr>so_service_peer_id = Some '' '', so_entrypoint_path = Some ''svc'',
     so_current_exe = None, so_canonicalize = (\<lambda>_. None)\<rparr>"

text \<open>A service that is sent a ping, two calls, a close and a third call, and one that is rejected.\<close>

theorem service_traffic_witness:
  "(\<exists>rf df w' f. run (run_service_async msgpack demo_os (Inr ()) None ''r'' ''d'' demo_worker
        (new_context ''ws://127.0.0.1:9981'')
        [ItemOk (Binary demo_ack_bytes), ItemOk (Ping []), ItemOk (Binary demo_call_bytes),
         ItemOk (Binary demo_call_bytes), ItemOk Close, ItemOk (Binary demo_call_bytes)]) demo_world = (Inr (), w') \<and>
      sv_sent w' = [rf, f, f, df] \<and> sv_worker w' = 2 \<and>
      answer_frame msgpack 0 ''svc'' (fp_envelope demo_call_frame) (Answer (Inr (VBool True))) = Inr f) \<and>
   (\<exists>rf. run (run_service_async msgpack demo_os (Inr ()) None ''r'' ''d'' demo_worker
        (new_context ''ws://127.0.0.1:9981'') [ItemEnd]) demo_world =
      (Inl (RegisterRejected ''router closed''), demo_world\<lparr>sv_sent := [rf]\<rparr>))"
proof -
  have id: "resolve_peer_id demo_os (new_context ''ws://127.0.0.1:9981'') = Inr ''svc''"
    by (simp add: demo_os_def resolve_peer_id_def new_context_def canonical_peer_path_def white1_def)
  have "well_framed msgpack (build_register_envelope ''r'' 0 ''svc'' Service)"
    "well_framed msgpack (build_disconnect_envelope 0 ''svc'' ''router'' ''d'')"
    by (rule msgpack_well_framed;
        simp add: build_register_envelope_def build_disconnect_envelope_def mf_defs PROTOCOL_VERSION_def)+
  moreover have "mf_encode_register_body msgpack \<lparr>reg_peer_id = ''svc'', reg_class = Service\<rparr> \<in> range Inr"
    by (simp add: mf_encode_register_body_def msgpack_def mk_enc_def str_ok_def)
  ultimately obtain rf df where frames: "register_frame msgpack ''r'' 0 ''svc'' Service = Inr rf"
      "disconnect_frame msgpack ''d'' 0 ''svc'' = Inr df"
    using client_frames.encode_succeeds
    by (fastforce simp: register_frame_def disconnect_frame_def MF_ROUTER_PEER_ID_def)
  have w: "mf_now_ts (sv_clock demo_world) = 0" "sv_send_err demo_world f = None" "sv_sent demo_world = []"
      "sv_worker demo_world = 0" for f
    by (simp_all add: demo_world_def mf_now_ts_def)
  have "answer_body msgpack (Answer (Inr (VBool True))) = Inr (mp_response \<lparr>resp_result = VBool True\<rparr>)"
    by (simp add: msgpack_def mk_enc_def)
  moreover have "well_framed msgpack (answer_envelope 0 ''svc'' (fp_envelope demo_call_frame) (Answer (Inr (VBool True))))"
    by (rule msgpack_well_framed)
      (simp_all add: answer_envelope_def demo_call_frame_def build_call_envelope_def PROTOCOL_VERSION_def)
  ultimately obtain f where f:
    "answer_frame msgpack 0 ''svc'' (fp_envelope demo_call_frame) (Answer (Inr (VBool True))) = Inr f"
    using client_frames.encode_succeeds by (fastforce simp: answer_frame_def)
  have env: "env_to (fp_envelope demo_call_frame) = ''svc''" "env_kind (fp_envelope demo_call_frame) = ''call''"
    by (simp_all add: demo_call_frame_def build_call_envelope_def mf_defs)
  have calls: "served_calls msgpack ''svc'' [ItemOk (Ping []), ItemOk (Binary demo_call_bytes),
      ItemOk (Binary demo_call_bytes), ItemOk Close, ItemOk (Binary demo_call_bytes)] = [demo_call_frame, demo_call_frame]"
    by (simp add: served_calls_def ends_service_def call_for_def demo_call_decode env List.map_filter_simps)
  have out: "call_outcome msgpack demo_worker demo_call_frame n = (Answer (Inr (VBool True)), Suc n)" for n
    by (simp add: call_outcome_def demo_call_frame_def demo_call_body) (simp add: demo_call_def demo_worker_def)
  have served: "serve_calls msgpack 0 ''svc'' demo_worker [demo_call_frame, demo_call_frame] 0 = ([f, f], 2)"
    using f by (simp add: out)
  note traffic = service_traffic [OF id, of msgpack "''r''" demo_world rf "''d''" df, unfolded w, OF frames]
  show ?thesis
    using traffic [where worker = demo_worker and items = "[ItemOk (Binary demo_ack_bytes), ItemOk (Ping []), ItemOk (Binary demo_call_bytes),
        ItemOk (Binary demo_call_bytes), ItemOk Close, ItemOk (Binary demo_call_bytes)]"]
      traffic [where worker = demo_worker and items = "[ItemEnd]"] f
    by (auto simp: demo_ack_accepted calls served register_reply_def [of _ _ ItemEnd] w simp del: serve_calls.simps)
qed

end
