(* ===== verification/Client_Bootstrap.thy ===== *)
theory Client_Bootstrap
  imports Complex_Main Client_Message "HOL-Library.Sublist"
begin

text \<open>
  rust/src/router_bootstrap.rs: finding or starting the router. Any number of processes
  call \<open>connect_or_bootstrap\<close>, each as often as it connects or serves, one call after
  another or several at the same time; all calls share one lock file, the set of live
  processes and the router. Each file-system call and each reachability probe is one
  atomic step of \<open>boot_exec\<close>. Instants are in milliseconds; UNIX times are rational
  numbers of seconds, and \<open>f64\<close> addition is a parameter.
\<close>

section \<open>Configuration\<close>

definition DEFAULT_ROUTER_PORT :: u16 where "DEFAULT_ROUTER_PORT = 9981"
definition ROUTER_LOCK_PATH :: string where "ROUTER_LOCK_PATH = ''.multifrost/router.lock''"
definition ROUTER_LOG_PATH :: string where "ROUTER_LOG_PATH = ''.multifrost/router.log''"

record RouterEndpointConfig =
  ep_host :: string
  ep_port :: u16

definition ws_url :: "RouterEndpointConfig \<Rightarrow> string" where
  "ws_url ep = ''ws://'' @ ep_host ep @ '':'' @ show_nat (unat (ep_port ep))"

record RouterBootstrapConfig =
  bc_endpoint :: RouterEndpointConfig
  bc_lock_path :: string
  bc_log_path :: string
  bc_readiness_timeout :: nat
  bc_readiness_poll_interval :: nat

text \<open>
  The environment of a process: the variables \<open>MULTIFROST_ROUTER_PORT\<close> and \<open>HOME\<close>, and
  \<open>dirs::home_dir()\<close>. \<open>join\<close> is \<open>Path::join\<close>.
\<close>

record boot_os =
  bo_router_port :: "string option"
  bo_dirs_home :: "string option"
  bo_home_var :: "string option"
  bo_join :: "string \<Rightarrow> string \<Rightarrow> string"

definition router_port_from_env :: "boot_os \<Rightarrow> u16" where
  "router_port_from_env os = (case bo_router_port os of
     None \<Rightarrow> DEFAULT_ROUTER_PORT
   | Some raw \<Rightarrow> (case parse_unsigned (2 ^ 16) raw of None \<Rightarrow> DEFAULT_ROUTER_PORT | Some n \<Rightarrow> of_nat n))"

definition home_dir :: "boot_os \<Rightarrow> string option" where
  "home_dir os = (case bo_dirs_home os of Some h \<Rightarrow> Some h | None \<Rightarrow> bo_home_var os)"

definition default_router_lock_path :: "boot_os \<Rightarrow> string" where
  "default_router_lock_path os =
     bo_join os (case home_dir os of Some h \<Rightarrow> h | None \<Rightarrow> ''.'') ROUTER_LOCK_PATH"

definition default_router_log_path :: "boot_os \<Rightarrow> string" where
  "default_router_log_path os =
     bo_join os (case home_dir os of Some h \<Rightarrow> h | None \<Rightarrow> ''.'') ROUTER_LOG_PATH"

definition endpoint_from_env :: "boot_os \<Rightarrow> RouterEndpointConfig" where
  "endpoint_from_env os = \<lparr>ep_host = ''127.0.0.1'', ep_port = router_port_from_env os\<rparr>"

definition bootstrap_from_env :: "boot_os \<Rightarrow> RouterBootstrapConfig" where
  "bootstrap_from_env os =
     \<lparr>bc_endpoint = endpoint_from_env os, bc_lock_path = default_router_lock_path os,
      bc_log_path = default_router_log_path os, bc_readiness_timeout = 10000,
      bc_readiness_poll_interval = 100\<rparr>"

definition router_ws_url :: "u16 \<Rightarrow> string" where
  "router_ws_url port = ''ws://127.0.0.1:'' @ show_nat (unat port)"

text \<open>\<open>up\<close> is \<open>router_is_reachable\<close>: whether \<open>connect_async\<close> succeeds.\<close>

definition ensure_router :: "bool \<Rightarrow> RouterEndpointConfig \<Rightarrow> MultifrostError + unit" where
  "ensure_router up endpoint =
     (if up then Inr () else Inl (RouterUnavailable (ws_url endpoint)))"

section \<open>Lock files\<close>

record LockFileData =
  lk_format :: string
  lk_pid :: u32
  lk_router_pid :: "u32 option"
  lk_port :: u16
  lk_created_at_unix :: rat
  lk_expires_at_unix :: rat
  lk_status :: string
  lk_language :: string

datatype LockEvalResult = Reclaim | SkipSpawn | Wait

text \<open>
  \<open>serde_json\<close> on lock files. Serialising this struct of texts and numbers has no
  error case.
\<close>

record lock_json =
  lj_ser :: "LockFileData \<Rightarrow> string"
  lj_de :: "string \<Rightarrow> LockFileData option"

definition lock_round_trip :: "lock_json \<Rightarrow> LockFileData \<Rightarrow> bool" where
  "lock_round_trip js d \<longleftrightarrow> lj_de js (lj_ser js d) = Some d"

text \<open>
  The check of a process on each platform. \<open>pt_kill\<close> says whether \<open>kill\<close> ran and succeeded
  on its arguments, \<open>pt_tasklist\<close> gives the output of \<open>tasklist\<close>; both are absent when
  the command cannot be started. Replacing malformed UTF-8 in that output does not touch
  the ASCII text that is searched.
\<close>

datatype platform = Unix | Windows | OtherPlatform

record process_tools =
  pt_kill :: "string list \<Rightarrow> bool option"
  pt_tasklist :: "string list \<Rightarrow> string option"

definition platform_is_process_alive :: "platform \<Rightarrow> process_tools \<Rightarrow> u32 \<Rightarrow> bool" where
  "platform_is_process_alive platform tools pid = (case platform of
     Unix \<Rightarrow> (case pt_kill tools [''-0'', show_nat (unat pid)] of Some success \<Rightarrow> success | None \<Rightarrow> False)
   | Windows \<Rightarrow> (case pt_tasklist tools [''/FI'', ''PID eq '' @ show_nat (unat pid), ''/FO'', ''csv'', ''/NH''] of
         Some out \<Rightarrow> sublist ([CHR 0x22] @ show_nat (unat pid) @ [CHR 0x22]) out
       | None \<Rightarrow> False)
   | OtherPlatform \<Rightarrow> False)"

text \<open>\<open>alive\<close> is \<open>platform_is_process_alive\<close> of the platform at this moment.\<close>

definition is_process_alive :: "(u32 \<Rightarrow> bool) \<Rightarrow> u32 \<Rightarrow> bool" where
  "is_process_alive alive pid = (if pid = 0 then False else alive pid)"

text \<open>\<open>content\<close> is the file's text, absent when it cannot be read.\<close>

definition evaluate_existing_lock ::
    "lock_json \<Rightarrow> (u32 \<Rightarrow> bool) \<Rightarrow> rat \<Rightarrow> string option \<Rightarrow> LockEvalResult" where
  "evaluate_existing_lock js alive now content = (case content of
     None \<Rightarrow> Reclaim
   | Some text \<Rightarrow> (case lj_de js text of
       None \<Rightarrow> Reclaim
     | Some lock \<Rightarrow>
         if lk_format lock \<noteq> ''v1'' then Reclaim
         else if lk_expires_at_unix lock < now then Reclaim
         else if \<not> is_process_alive alive (lk_pid lock) then Reclaim
         else if lk_status lock = ''failed'' then Reclaim
         else case lk_router_pid lock of
           Some router_pid \<Rightarrow> if is_process_alive alive router_pid then SkipSpawn else Wait
         | None \<Rightarrow> Wait))"

definition fresh_lock :: "(rat \<Rightarrow> rat \<Rightarrow> rat) \<Rightarrow> rat \<Rightarrow> u32 \<Rightarrow> u16 \<Rightarrow> nat \<Rightarrow> LockFileData" where
  "fresh_lock f64_add now pid port stale_after =
     \<lparr>lk_format = ''v1'', lk_pid = pid, lk_router_pid = None, lk_port = port,
      lk_created_at_unix = now, lk_expires_at_unix = f64_add now (of_nat stale_after / 1000),
      lk_status = ''starting'', lk_language = ''rust''\<rparr>"

section \<open>The shared world\<close>

text \<open>
  The lock file is its identity (which a process that created it keeps open, even if the
  path is removed meanwhile) and its text. \<open>bw_spawned\<close> are the router processes started
  and \<open>bw_killed\<close> those killed after a failed start.
\<close>

record boot_world =
  bw_file :: "(nat \<times> string) option"
  bw_next_file :: nat
  bw_up :: bool
  bw_alive :: "u32 \<Rightarrow> bool"
  bw_instant :: nat
  bw_unix :: rat
  bw_spawned :: "u32 list"
  bw_killed :: "u32 list"

text \<open>
  The parameters of a run: JSON, \<open>f64\<close> addition and the configuration, which all
  processes share.
\<close>

record boot_params =
  bp_json :: lock_json
  bp_f64_add :: "rat \<Rightarrow> rat \<Rightarrow> rat"
  bp_config :: RouterBootstrapConfig

text \<open>\<open>Debug\<close> text of a \<open>Duration\<close> of whole milliseconds.\<close>

definition pad3 :: "nat \<Rightarrow> string" where
  "pad3 n = (if n < 10 then ''00'' else if n < 100 then ''0'' else '''') @ show_nat n"

definition show_duration :: "nat \<Rightarrow> string" where
  "show_duration ms =
     (if ms = 0 then ''0ns''
      else if ms < 1000 then show_nat ms @ ''ms''
      else if ms mod 1000 = 0 then show_nat (ms div 1000) @ ''s''
      else show_nat (ms div 1000) @ ''.'' @
             rev (dropWhile (\<lambda>c. c = CHR ''0'') (rev (pad3 (ms mod 1000)))) @ ''s'')"

text \<open>\<open>create_new\<close>, writing through the handle, and \<open>std::fs::write\<close> by path.\<close>

definition create_file :: "boot_world \<Rightarrow> boot_world" where
  "create_file w = w\<lparr>bw_file := Some (bw_next_file w, ''''), bw_next_file := bw_next_file w + 1\<rparr>"

definition write_handle :: "nat \<Rightarrow> string \<Rightarrow> boot_world \<Rightarrow> boot_world" where
  "write_handle file text w = (case bw_file w of
     Some (current, _) \<Rightarrow> if current = file then w\<lparr>bw_file := Some (file, text)\<rparr> else w
   | None \<Rightarrow> w)"

definition write_path :: "string \<Rightarrow> boot_world \<Rightarrow> boot_world" where
  "write_path text w = (case bw_file w of
     Some (current, _) \<Rightarrow> w\<lparr>bw_file := Some (current, text)\<rparr>
   | None \<Rightarrow> w\<lparr>bw_file := Some (bw_next_file w, text), bw_next_file := bw_next_file w + 1\<rparr>)"

definition remove_path :: "boot_world \<Rightarrow> boot_world" where
  "remove_path w = w\<lparr>bw_file := None\<rparr>"

section \<open>One call\<close>

text \<open>
  Where a call stands: the first probe of \<open>connect_or_bootstrap\<close>, the probe of
  \<open>bootstrap_router\<close>, the steps of \<open>acquire_lock\<close> (with its deadline), the wait for a
  router of somebody else, the steps of the lock holder with the lock's data, and the
  result. Dropping \<open>AcquiredLock\<close> is the step \<open>Dropping\<close>.
\<close>

datatype boot_pc =
    Probe
  | Probe2
  | MakeDir
  | Create nat
  | WriteLock nat
  | Evaluate nat
  | Remove nat
  | AwaitOther nat
  | Recheck LockFileData
  | MarkReady LockFileData
  | OpenRouterLog LockFileData
  | SpawnRouter LockFileData
  | RecordPid LockFileData u32
  | Poll LockFileData nat
  | MarkFailed LockFileData
  | Dropping "MultifrostError + unit"
  | BootDone "MultifrostError + unit"

text \<open>
  \<open>failure\<close> is the error of the system call that a step makes, if it fails; for \<open>create_new\<close>
  an error other than \<open>AlreadyExists\<close>, which the existing file decides. Updating the lock file ignores a failed write, reclaiming and dropping a failed removal.
\<close>

definition update_lock :: "lock_json \<Rightarrow> string option \<Rightarrow> LockFileData \<Rightarrow> boot_world \<Rightarrow> boot_world" where
  "update_lock js failure data w = (if failure = None then write_path (lj_ser js data) w else w)"

definition drop_lock :: "string option \<Rightarrow> boot_world \<Rightarrow> boot_world" where
  "drop_lock failure w = (if failure = None then remove_path w else w)"

text \<open>One step of \<open>acquire_lock\<close> for process \<open>pid\<close>.\<close>

fun acquire_lock ::
    "boot_params \<Rightarrow> u32 \<Rightarrow> string option \<Rightarrow> boot_pc \<Rightarrow> boot_world \<Rightarrow> boot_pc \<times> boot_world" where
  "acquire_lock bp pid failure MakeDir w = (case failure of
     Some err \<Rightarrow> (BootDone (Inl (IoError err)), w)
   | None \<Rightarrow> (Create (bw_instant w + 10000), w))"
| "acquire_lock bp pid failure (Create deadline) w =
     (case failure of
        Some err \<Rightarrow> (BootDone (Inl (IoError err)), w)
      | None \<Rightarrow> if bw_file w \<noteq> None then (Evaluate deadline, w)
                else (WriteLock (bw_next_file w), create_file w))"
| "acquire_lock bp pid failure (WriteLock file) w = (case failure of
     Some err \<Rightarrow> (BootDone (Inl (IoError err)), w)
   | None \<Rightarrow>
       let data = fresh_lock (bp_f64_add bp) (bw_unix w) pid (ep_port (bc_endpoint (bp_config bp))) 10000
       in (Recheck data, write_handle file (lj_ser (bp_json bp) data) w))"
| "acquire_lock bp pid failure (Evaluate deadline) w =
     (case evaluate_existing_lock (bp_json bp) (bw_alive w) (bw_unix w)
             (if failure = None then map_option snd (bw_file w) else None) of
        Reclaim \<Rightarrow> (Remove deadline, w)
      | SkipSpawn \<Rightarrow> (AwaitOther (bw_instant w + bc_readiness_timeout (bp_config bp)), w)
      | Wait \<Rightarrow> if deadline \<le> bw_instant w
                then (BootDone (Inl (BootstrapFailure ''timed out waiting for router bootstrap lock'')), w)
                else (Create deadline, w))"
| "acquire_lock bp pid failure (Remove deadline) w =
     (Create deadline, if failure = None then remove_path w else w)"
| "acquire_lock bp pid failure pc w = (pc, w)"

definition spawn_router_process ::
    "string option \<Rightarrow> u32 \<Rightarrow> boot_pc \<Rightarrow> boot_world \<Rightarrow> boot_pc \<times> boot_world" where
  "spawn_router_process failure child pc w = (case pc of
     OpenRouterLog data \<Rightarrow> (case failure of
         Some err \<Rightarrow> (Dropping (Inl (IoError err)), w)
       | None \<Rightarrow> (SpawnRouter data, w))
   | SpawnRouter data \<Rightarrow> (case failure of
         Some err \<Rightarrow> (Dropping (Inl (BootstrapFailure err)), w)
       | None \<Rightarrow> (RecordPid data child, w\<lparr>bw_spawned := bw_spawned w @ [child]\<rparr>))
   | _ \<Rightarrow> (pc, w))"

text \<open>\<open>child\<close> is the identifier a spawned router gets.\<close>

fun bootstrap_router ::
    "boot_params \<Rightarrow> u32 \<Rightarrow> string option \<Rightarrow> u32 \<Rightarrow> boot_pc \<Rightarrow> boot_world \<Rightarrow> boot_pc \<times> boot_world" where
  "bootstrap_router bp pid failure child Probe2 w = (if bw_up w then BootDone (Inr ()) else MakeDir, w)"
| "bootstrap_router bp pid failure child (AwaitOther deadline) w =
     (if bw_instant w < deadline
      then (if bw_up w then BootDone (Inr ()) else AwaitOther deadline, w)
      else (BootDone (Inl (BootstrapFailure
             ''timeout waiting for router to become reachable (skip_spawn)'')), w))"
| "bootstrap_router bp pid failure child (Recheck data) w =
     (if bw_up w then MarkReady data else OpenRouterLog data, w)"
| "bootstrap_router bp pid failure child (MarkReady data) w =
     (Dropping (Inr ()), update_lock (bp_json bp) failure (data\<lparr>lk_status := ''ready''\<rparr>) w)"
| "bootstrap_router bp pid failure child (OpenRouterLog data) w =
     spawn_router_process failure child (OpenRouterLog data) w"
| "bootstrap_router bp pid failure child (SpawnRouter data) w =
     spawn_router_process failure child (SpawnRouter data) w"
| "bootstrap_router bp pid failure child (RecordPid data router_pid) w =
     (let data' = data\<lparr>lk_router_pid := Some router_pid\<rparr>
      in (Poll data' (bw_instant w + bc_readiness_timeout (bp_config bp)),
          update_lock (bp_json bp) failure data' w))"
| "bootstrap_router bp pid failure child (Poll data deadline) w =
     (if bw_up w then (MarkReady data, w)
      else if deadline \<le> bw_instant w then (MarkFailed data, w)
      else (Poll data deadline, w))"
| "bootstrap_router bp pid failure child (MarkFailed data) w =
     (Dropping (Inl (BootstrapFailure
        (''router did not become reachable at '' @ ws_url (bc_endpoint (bp_config bp)) @ '' within '' @
         show_duration (bc_readiness_timeout (bp_config bp))))),
      (update_lock (bp_json bp) failure (data\<lparr>lk_status := ''failed''\<rparr>) w)
        \<lparr>bw_killed := bw_killed w @ (case lk_router_pid data of Some child \<Rightarrow> [child] | None \<Rightarrow> [])\<rparr>)"
| "bootstrap_router bp pid failure child (Dropping r) w = (BootDone r, drop_lock failure w)"
| "bootstrap_router bp pid failure child (BootDone r) w = (BootDone r, w)"
| "bootstrap_router bp pid failure child pc w = acquire_lock bp pid failure pc w"

definition connect_or_bootstrap ::
    "boot_params \<Rightarrow> u32 \<Rightarrow> string option \<Rightarrow> u32 \<Rightarrow> boot_pc \<Rightarrow> boot_world \<Rightarrow> boot_pc \<times> boot_world" where
  "connect_or_bootstrap bp pid failure child pc w =
     (if pc = Probe then (if bw_up w then BootDone (Inr ()) else Probe2, w)
      else bootstrap_router bp pid failure child pc w)"

section \<open>All calls of all processes\<close>

text \<open>
  The calls of \<open>connect_or_bootstrap\<close> made so far, each with the identifier of the process
  that makes it and where it stands. A process enters a new call whenever it connects a
  caller or runs a service, whatever became of its earlier calls.
\<close>

record boot_system =
  by_world :: boot_world
  by_calls :: "nat \<rightharpoonup> u32 \<times> boot_pc"

datatype boot_action =
    Enter nat u32
  | Step nat "string option" u32
  | World bool "u32 \<Rightarrow> bool" nat rat

fun boot_exec :: "boot_params \<Rightarrow> boot_action \<Rightarrow> boot_system \<Rightarrow> boot_system option" where
  "boot_exec bp (Enter call pid) s = (case by_calls s call of
     None \<Rightarrow> Some (s\<lparr>by_calls := (by_calls s)(call \<mapsto> (pid, Probe))\<rparr>)
   | Some _ \<Rightarrow> None)"
| "boot_exec bp (Step call failure child) s = (case by_calls s call of
     None \<Rightarrow> None
   | Some (pid, pc) \<Rightarrow> (case connect_or_bootstrap bp pid failure child pc (by_world s) of
       (pc', w) \<Rightarrow> Some (s\<lparr>by_calls := (by_calls s)(call \<mapsto> (pid, pc')), by_world := w\<rparr>)))"
| "boot_exec bp (World up alive later unix) s = Some (s\<lparr>by_world := (by_world s)
     \<lparr>bw_up := up, bw_alive := alive, bw_instant := bw_instant (by_world s) + later, bw_unix := unix\<rparr>\<rparr>)"

fun boot_run :: "boot_params \<Rightarrow> boot_action list \<Rightarrow> boot_system \<Rightarrow> boot_system option" where
  "boot_run bp [] s = Some s"
| "boot_run bp (a # as) s = (case boot_exec bp a s of None \<Rightarrow> None | Some t \<Rightarrow> boot_run bp as t)"

end
