(* ===== verification/Client_Bootstrap_Spec.thy ===== *)
theory Client_Bootstrap_Spec
  imports Client_Bootstrap
begin

text \<open>
  Properties of the router bootstrap: a call succeeds exactly when one of its probes found
  the router reachable, a call on its own releases the lock, a lock is respected until it
  expires, and two ways in which the lock fails.
\<close>

section \<open>Runs\<close>

lemma boot_run_append:
  "boot_run bp (as @ bs) s = (case boot_run bp as s of None \<Rightarrow> None | Some t \<Rightarrow> boot_run bp bs t)"
  by (induction as arbitrary: s) (auto split: option.splits)

lemma boot_run_snoc:
  "boot_run bp (as @ [a]) s = Some t \<longleftrightarrow> (\<exists>u. boot_run bp as s = Some u \<and> boot_exec bp a u = Some t)"
  by (auto simp: boot_run_append split: option.splits)

text \<open>One step of a process, on all states it may be in.\<close>

lemmas boot_defs = connect_or_bootstrap_def spawn_router_process_def update_lock_def drop_lock_def
  write_path_def write_handle_def remove_path_def create_file_def

section \<open>Probes\<close>

text \<open>Whether the next step of a call asks \<open>router_is_reachable\<close>.\<close>

fun probes :: "boot_pc \<Rightarrow> boot_world \<Rightarrow> bool" where
  "probes Probe w = True"
| "probes Probe2 w = True"
| "probes (AwaitOther deadline) w = (bw_instant w < deadline)"
| "probes (Recheck _) w = True"
| "probes (Poll _ _) w = True"
| "probes _ w = False"

text \<open>The answers that one call gets from its probes during an action, and during a run.\<close>

fun probe_of :: "nat \<Rightarrow> boot_system \<Rightarrow> boot_action \<Rightarrow> bool list" where
  "probe_of call s (Step c failure child) = (case by_calls s c of
     Some (pid, pc) \<Rightarrow> if c = call \<and> probes pc (by_world s) then [bw_up (by_world s)] else []
   | None \<Rightarrow> [])"
| "probe_of call s _ = []"

fun probe_log :: "boot_params \<Rightarrow> nat \<Rightarrow> boot_action list \<Rightarrow> boot_system \<Rightarrow> bool list" where
  "probe_log bp call [] s = []"
| "probe_log bp call (a # as) s =
     probe_of call s a @ (case boot_exec bp a s of None \<Rightarrow> [] | Some t \<Rightarrow> probe_log bp call as t)"

lemma probe_log_snoc:
  "boot_run bp as s = Some u \<Longrightarrow> probe_log bp call (as @ [a]) s = probe_log bp call as s @ probe_of call u a"
  by (induction as arbitrary: s) (auto split: option.splits)

text \<open>The answers so far, by where the call stands.\<close>

fun probed :: "boot_pc \<Rightarrow> bool list \<Rightarrow> bool" where
  "probed Probe ups = (ups = [])"
| "probed Probe2 ups = (ups = [False])"
| "probed (MarkReady _) ups = (\<exists>n. ups = replicate n False @ [True])"
| "probed (Dropping (Inr _)) ups = (\<exists>n. ups = replicate n False @ [True])"
| "probed (BootDone (Inr _)) ups = (\<exists>n. ups = replicate n False @ [True])"
| "probed pc ups = (\<exists>n\<ge>2. ups = replicate n False)"

lemma replicate_two_more: "2 \<le> n \<Longrightarrow> \<exists>m\<ge>2. replicate n False @ [False] = replicate m False"
  by (intro exI [of _ "Suc n"]) (simp add: replicate_append_same)

lemma probed_results:
  "probed (Dropping r) ups \<Longrightarrow> probed (BootDone r) ups"
  "(\<exists>n. ups = replicate n False @ [True]) \<Longrightarrow> probed (BootDone (Inr u)) ups"
  "(\<exists>n\<ge>2. ups = replicate n False) \<Longrightarrow> probed (BootDone (Inl e)) ups"
  by (cases r; simp)+

lemma acquire_probed:
  assumes "\<exists>n\<ge>2. ups = replicate n False"
  shows "pc \<in> {MakeDir} \<union> range Create \<union> range WriteLock \<union> range Evaluate \<union> range Remove \<Longrightarrow>
    probed (fst (acquire_lock bp pid failure pc w)) ups"
  using assms by (auto simp: Let_def split: option.splits LockEvalResult.splits)

lemma step_probed:
  assumes "probed pc ups"
  shows "probed (fst (connect_or_bootstrap bp pid failure child pc w))
    (ups @ (if probes pc w then [bw_up w] else []))"
proof -
  have two: "replicate 2 False = [False, False]" by (simp add: numeral_eq_Suc)
  have first: "\<exists>n. [True] = replicate n False @ [True]" "\<exists>n. [False, True] = replicate n False @ [True]"
    by (rule exI [of _ 0], simp, rule exI [of _ 1], simp)
  show ?thesis
    using assms first acquire_probed [of ups pc bp pid failure w] probed_results(1) [of _ ups]
    by (cases pc; cases failure)
      (auto simp: connect_or_bootstrap_def spawn_router_process_def Let_def two [symmetric]
        simp del: acquire_lock.simps intro: replicate_two_more)
qed

lemma exec_probed:
  assumes "boot_exec bp a u = Some t" and "by_calls t call = Some (pid, pc)"
    and "\<And>q qc. by_calls u call = Some (q, qc) \<Longrightarrow> probed qc ups"
    and "by_calls u call = None \<Longrightarrow> ups = []"
  shows "probed pc (ups @ probe_of call u a)"
proof (cases a)
  case (Enter c q)
  then show ?thesis using assms by (auto split: option.splits if_splits)
next
  case (Step c failure child)
  then obtain q qc where qc: "by_calls u c = Some (q, qc)"
    and t: "by_calls t = (by_calls u)(c \<mapsto> (q, fst (connect_or_bootstrap bp q failure child qc (by_world u))))"
    using assms(1) by (auto simp: split_beta split: option.splits)
  show ?thesis
  proof (cases "c = call")
    case True
    then have "pc = fst (connect_or_bootstrap bp q failure child qc (by_world u))" "probed qc ups"
      using t assms(2,3) qc by auto
    then show ?thesis using step_probed [of qc ups bp q failure child "by_world u"] True qc Step by simp
  next
    case False
    then show ?thesis using t assms(2,3) qc Step by simp
  qed
next
  case (World up alive later unix)
  then show ?thesis using assms by auto
qed

lemma run_probed:
  assumes "boot_run bp as s = Some t" and "by_calls s call = None"
  shows "case by_calls t call of None \<Rightarrow> probe_log bp call as s = [] | Some (pid, pc) \<Rightarrow> probed pc (probe_log bp call as s)"
  using assms(1)
proof (induction as arbitrary: t rule: rev_induct)
  case Nil
  then show ?case using assms(2) by simp
next
  case (snoc a as)
  then obtain u where u: "boot_run bp as s = Some u" "boot_exec bp a u = Some t"
    by (auto simp: boot_run_snoc)
  note IH = snoc.IH [OF u(1)]
  show ?case
  proof (cases "by_calls t call")
    case None
    then have "by_calls u call = None" "probe_of call u a = []"
      using u(2) by (cases a; auto split: option.splits prod.splits if_splits)+
    then show ?thesis using None IH by (simp add: probe_log_snoc [OF u(1)])
  next
    case (Some p)
    then have "probed (snd p) (probe_log bp call as s @ probe_of call u a)"
      using IH by (intro exec_probed [OF u(2), of call "fst p"]) (auto split: option.splits)
    then show ?thesis using Some by (simp add: probe_log_snoc [OF u(1)] split_beta)
  qed
qed

text \<open>
  C38: a call of \<open>connect_or_bootstrap\<close> succeeds exactly if one of its own probes found the
  router reachable. In every run of any number of calls of any number of processes, with
  any failures: when a call has returned \<open>Ok\<close>, the last probe it made found the router
  reachable and all earlier ones did not; when it has returned an error, it probed at least
  twice and never found the router reachable.
\<close>

theorem success_means_reachable:
  assumes "boot_run bp as s = Some t" and "by_calls s call = None"
    and "by_calls t call = Some (pid, BootDone r)"
  shows "case r of
      Inr _ \<Rightarrow> \<exists>n. probe_log bp call as s = replicate n False @ [True]
    | Inl _ \<Rightarrow> \<exists>n\<ge>2. probe_log bp call as s = replicate n False"
  using run_probed [OF assms(1,2)] assms(3) by (cases r) simp_all

section \<open>Lock files\<close>

text \<open>
  A lock is respected until it expires and no longer. For as long as its time stamp
  is not passed, the lock that a live process just wrote makes every other process wait,
  and once it names a live router, wait for that router; after the time stamp, ten
  seconds after the acquisition whatever the configured readiness time-out, it is
  reclaimed although its holder is alive.
\<close>

theorem fresh_lock_respected_until_expiry:
  assumes "lock_round_trip js (fresh_lock add now pid port 10000)"
    and "lock_round_trip js ((fresh_lock add now pid port 10000)\<lparr>lk_router_pid := Some router\<rparr>)"
    and "pid \<noteq> 0" and "alive pid"
  shows "evaluate_existing_lock js alive later (Some (lj_ser js (fresh_lock add now pid port 10000))) =
      (if add now 10 < later then Reclaim else Wait) \<and>
    evaluate_existing_lock js alive later
        (Some (lj_ser js ((fresh_lock add now pid port 10000)\<lparr>lk_router_pid := Some router\<rparr>))) =
      (if add now 10 < later then Reclaim
       else if router \<noteq> 0 \<and> alive router then SkipSpawn else Wait)"
  using assms
  by (auto simp: evaluate_existing_lock_def lock_round_trip_def fresh_lock_def is_process_alive_def)

text \<open>A serialiser that is faithful on the locks of process 7 with router 8.\<close>

definition demo_lock :: LockFileData where
  "demo_lock = fresh_lock (+) 100 7 9981 10000"

definition demo_json :: lock_json where
  "demo_json = \<lparr>lj_ser = (\<lambda>d. if lk_router_pid d = None then ''{}'' else ''{router}''),
     lj_de = (\<lambda>t. if t = ''{}'' then Some demo_lock
        else if t = ''{router}'' then Some (demo_lock\<lparr>lk_router_pid := Some 8\<rparr>) else None)\<rparr>"

theorem fresh_lock_respected_until_expiry_witness:
  "evaluate_existing_lock demo_json (\<lambda>_. True) 105 (Some (lj_ser demo_json demo_lock)) = Wait \<and>
   evaluate_existing_lock demo_json (\<lambda>_. True) 111 (Some (lj_ser demo_json demo_lock)) = Reclaim"
proof -
  have rt: "lock_round_trip demo_json (fresh_lock (+) 100 7 9981 10000)"
    "lock_round_trip demo_json ((fresh_lock (+) 100 7 9981 10000)\<lparr>lk_router_pid := Some 8\<rparr>)"
    by (simp_all add: lock_round_trip_def demo_json_def demo_lock_def fresh_lock_def)
  show ?thesis
    using fresh_lock_respected_until_expiry [OF rt, of "\<lambda>_. True" 105]
      fresh_lock_respected_until_expiry [OF rt, of "\<lambda>_. True" 111]
    by (simp flip: demo_lock_def)
qed

section \<open>A call on its own\<close>

text \<open>\<open>n\<close> steps of one call in which no system call fails.\<close>

primrec quiet_steps :: "boot_params \<Rightarrow> u32 \<Rightarrow> nat \<Rightarrow> boot_pc \<times> boot_world \<Rightarrow> boot_pc \<times> boot_world" where
  "quiet_steps bp pid 0 x = x"
| "quiet_steps bp pid (Suc n) x = quiet_steps bp pid n (connect_or_bootstrap bp pid None 0 (fst x) (snd x))"

abbreviation quiet :: "nat \<Rightarrow> boot_action" where
  "quiet call \<equiv> Step call None 0"

lemma run_quiet:
  "by_calls s call = Some (pid, pc) \<Longrightarrow> quiet_steps bp pid n (pc, by_world s) = (pc', w') \<Longrightarrow>
   boot_run bp (replicate n (quiet call)) s =
     Some (s\<lparr>by_calls := (by_calls s)(call \<mapsto> (pid, pc')), by_world := w'\<rparr>)"
proof (induction n arbitrary: s pc)
  case 0
  then show ?case by (simp add: fun_upd_idem)
next
  case (Suc n)
  let ?x = "connect_or_bootstrap bp pid None 0 pc (by_world s)"
  let ?s = "s\<lparr>by_calls := (by_calls s)(call \<mapsto> (pid, fst ?x)), by_world := snd ?x\<rparr>"
  have ex: "boot_exec bp (quiet call) s = Some ?s" using Suc.prems(1) by (simp add: split_beta)
  have "boot_run bp (replicate n (quiet call)) ?s =
      Some (?s\<lparr>by_calls := (by_calls ?s)(call \<mapsto> (pid, pc')), by_world := w'\<rparr>)"
    using Suc.prems(2) by (intro Suc.IH [of ?s "fst ?x"]) simp_all
  moreover have "?s\<lparr>by_calls := (by_calls ?s)(call \<mapsto> (pid, pc')), by_world := w'\<rparr> =
      s\<lparr>by_calls := (by_calls s)(call \<mapsto> (pid, pc')), by_world := w'\<rparr>" by simp
  ultimately show ?case unfolding replicate_Suc boot_run.simps(2) ex option.case by metis
qed

definition demo_boot_params :: "lock_json \<Rightarrow> boot_params" where
  "demo_boot_params js = \<lparr>bp_json = js, bp_f64_add = (+), bp_config =
     \<lparr>bc_endpoint = \<lparr>ep_host = ''127.0.0.1'', ep_port = 9981\<rparr>, bc_lock_path = ''router.lock'',
      bc_log_path = ''router.log'', bc_readiness_timeout = 10000, bc_readiness_poll_interval = 100\<rparr>\<rparr>"

text \<open>From entering to polling for the router that the call has started.\<close>

definition solo_start :: "nat \<Rightarrow> u32 \<Rightarrow> u32 \<Rightarrow> boot_action list" where
  "solo_start call pid child = [Enter call pid, quiet call, quiet call, quiet call, quiet call, quiet call,
     quiet call, quiet call, Step call None child, quiet call]"

definition recorded_lock :: "boot_params \<Rightarrow> boot_world \<Rightarrow> u32 \<Rightarrow> u32 \<Rightarrow> LockFileData" where
  "recorded_lock bp w pid child =
     (fresh_lock (bp_f64_add bp) (bw_unix w) pid (ep_port (bc_endpoint (bp_config bp))) 10000)
       \<lparr>lk_router_pid := Some child\<rparr>"

lemma solo_start_run:
  assumes "by_calls s call = None" and "bw_file (by_world s) = None" and "\<not> bw_up (by_world s)"
  shows "\<exists>t. boot_run bp (solo_start call pid child) s = Some t \<and>
    by_calls t = (by_calls s)(call \<mapsto> (pid, Poll (recorded_lock bp (by_world s) pid child)
      (bw_instant (by_world s) + bc_readiness_timeout (bp_config bp)))) \<and>
    map_option snd (bw_file (by_world t)) = Some (lj_ser (bp_json bp) (recorded_lock bp (by_world s) pid child)) \<and>
    bw_spawned (by_world t) = bw_spawned (by_world s) @ [child] \<and> \<not> bw_up (by_world t) \<and>
    bw_instant (by_world t) = bw_instant (by_world s) \<and> bw_killed (by_world t) = bw_killed (by_world s)"
  using assms by (simp add: solo_start_def boot_defs recorded_lock_def Let_def)

text \<open>
  Rounds of waiting for the router: in each, the world changes (which processes live, and
  how much later it is) and the call polls once.
\<close>

definition poll_rounds :: "nat \<Rightarrow> ((u32 \<Rightarrow> bool) \<times> nat \<times> rat) list \<Rightarrow> boot_action list" where
  "poll_rounds call rounds = concat (map (\<lambda>(alive, later, unix). [World False alive later unix, quiet call]) rounds)"

definition rounds_time :: "((u32 \<Rightarrow> bool) \<times> nat \<times> rat) list \<Rightarrow> nat" where
  "rounds_time rounds = sum_list (map (\<lambda>(alive, later, unix). later) rounds)"

lemma poll_rounds_run:
  assumes "by_calls t call = Some (pid, Poll data deadline)" and "bw_instant (by_world t) + rounds_time rounds < deadline"
  shows "\<exists>u. boot_run bp (poll_rounds call rounds) t = Some u \<and> by_calls u call = Some (pid, Poll data deadline) \<and>
    bw_instant (by_world u) = bw_instant (by_world t) + rounds_time rounds \<and>
    bw_spawned (by_world u) = bw_spawned (by_world t) \<and> bw_killed (by_world u) = bw_killed (by_world t)"
  using assms
proof (induction rounds arbitrary: t)
  case Nil
  then show ?case by (simp add: poll_rounds_def rounds_time_def)
next
  case (Cons r rounds)
  obtain alive later unix where r: "r = (alive, later, unix)" by (cases r)
  obtain t' where t': "boot_run bp [World False alive later unix, quiet call] t = Some t'"
    "by_calls t' call = Some (pid, Poll data deadline)" "bw_instant (by_world t') = bw_instant (by_world t) + later"
    "bw_spawned (by_world t') = bw_spawned (by_world t)" "bw_killed (by_world t') = bw_killed (by_world t)"
    using Cons.prems by (simp add: boot_defs r rounds_time_def)
  have split: "poll_rounds call (r # rounds) = [World False alive later unix, quiet call] @ poll_rounds call rounds"
    and time: "rounds_time (r # rounds) = later + rounds_time rounds"
    by (simp_all add: poll_rounds_def rounds_time_def r)
  have "bw_instant (by_world t') + rounds_time rounds < deadline"
    using Cons.prems(2) t'(3) time by simp
  note rest = Cons.IH [OF t'(2) this]
  show ?case
    using rest unfolding split boot_run_append t'(1) option.case time t'(3-5) by (simp add: add.assoc)
qed

text \<open>
  C39: a call on its own starts exactly one router and releases the lock. From a state
  without lock file and router it writes a lock with its process, starts one router,
  records it in the lock and polls, for any number of rounds within the readiness
  time-out. If the router becomes reachable it then returns \<open>Ok\<close>; if the time-out passes
  first it kills that router and returns \<open>BootstrapFailure\<close>. In both cases the lock file
  is gone.
\<close>

theorem solo_bootstrap_releases_lock:
  assumes "by_calls s call = None" and "bw_file (by_world s) = None" and "\<not> bw_up (by_world s)"
    and "rounds_time rounds < bc_readiness_timeout (bp_config bp)"
    and "bc_readiness_timeout (bp_config bp) \<le> rounds_time rounds + late"
  shows "(\<exists>t. boot_run bp (solo_start call pid child @ poll_rounds call rounds @
        [World True alive later unix, quiet call, quiet call, quiet call]) s = Some t \<and>
      by_calls t call = Some (pid, BootDone (Inr ())) \<and> bw_file (by_world t) = None \<and>
      bw_spawned (by_world t) = bw_spawned (by_world s) @ [child] \<and>
      bw_killed (by_world t) = bw_killed (by_world s)) \<and>
    (\<exists>t err. boot_run bp (solo_start call pid child @ poll_rounds call rounds @
        [World False alive late unix, quiet call, quiet call, quiet call]) s = Some t \<and>
      by_calls t call = Some (pid, BootDone (Inl (BootstrapFailure err))) \<and> bw_file (by_world t) = None \<and>
      bw_spawned (by_world t) = bw_spawned (by_world s) @ [child] \<and>
      bw_killed (by_world t) = bw_killed (by_world s) @ [child])"
proof -
  obtain t where run: "boot_run bp (solo_start call pid child) s = Some t"
    and t: "by_calls t call = Some (pid, Poll (recorded_lock bp (by_world s) pid child)
        (bw_instant (by_world s) + bc_readiness_timeout (bp_config bp)))"
      "bw_spawned (by_world t) = bw_spawned (by_world s) @ [child]"
      "bw_instant (by_world t) = bw_instant (by_world s)" "bw_killed (by_world t) = bw_killed (by_world s)"
    using solo_start_run [OF assms(1-3), of bp pid child] by fastforce
  obtain u where poll: "boot_run bp (poll_rounds call rounds) t = Some u"
    and u: "by_calls u call = Some (pid, Poll (recorded_lock bp (by_world s) pid child)
        (bw_instant (by_world s) + bc_readiness_timeout (bp_config bp)))"
      "bw_instant (by_world u) = bw_instant (by_world t) + rounds_time rounds"
      "bw_spawned (by_world u) = bw_spawned (by_world t)" "bw_killed (by_world u) = bw_killed (by_world t)"
    using poll_rounds_run [OF t(1), of rounds bp] assms(4) t(3) by auto
  have "lk_router_pid (recorded_lock bp (by_world s) pid child) = Some child" by (simp add: recorded_lock_def)
  then show ?thesis
    unfolding boot_run_append run poll option.case using t u assms(5)
    by (simp add: boot_defs split: option.splits)
qed

definition empty_system :: boot_system where
  "empty_system = \<lparr>by_world = \<lparr>bw_file = None, bw_next_file = 0, bw_up = False, bw_alive = (\<lambda>_. True),
     bw_instant = 0, bw_unix = 100, bw_spawned = [], bw_killed = []\<rparr>, by_calls = Map.empty\<rparr>"

lemma empty_system_sel [simp]: "by_calls empty_system = Map.empty" "bw_file (by_world empty_system) = None"
  "\<not> bw_up (by_world empty_system)" "bw_spawned (by_world empty_system) = []"
  "bw_killed (by_world empty_system) = []"
  by (simp_all add: empty_system_def)

theorem solo_bootstrap_releases_lock_witness:
  "\<exists>t. boot_run (demo_boot_params demo_json) (solo_start 0 7 8 @ poll_rounds 0 [(\<lambda>_. True, 20, 100), (\<lambda>_. True, 30, 101)] @
        [World True (\<lambda>_. True) 50 100, quiet 0, quiet 0, quiet 0]) empty_system = Some t \<and>
      by_calls t 0 = Some (7, BootDone (Inr ())) \<and> bw_file (by_world t) = None \<and> bw_spawned (by_world t) = [8]"
  using solo_bootstrap_releases_lock [of empty_system 0 "[(\<lambda>_. True, 20, 100), (\<lambda>_. True, 30, 101)]"
      "demo_boot_params demo_json" 30000 7 8 "\<lambda>_. True" 50 100]
  by (auto simp: rounds_time_def demo_boot_params_def)

text \<open>A call that finds the router at its second probe.\<close>

theorem success_means_reachable_witness:
  "\<exists>n. probe_log (demo_boot_params demo_json) 0
     [Enter 0 7, quiet 0, World True (\<lambda>_. True) 0 100, quiet 0] empty_system = replicate n False @ [True]"
proof -
  obtain t where t: "boot_run (demo_boot_params demo_json)
      [Enter 0 7, quiet 0, World True (\<lambda>_. True) 0 100, quiet 0] empty_system = Some t"
    "by_calls t 0 = Some (7, BootDone (Inr ()))"
    by (simp add: connect_or_bootstrap_def)
  show ?thesis using success_means_reachable [OF t(1) _ t(2)] by simp
qed

section \<open>Where the lock fails\<close>

definition initial_lock :: "boot_params \<Rightarrow> boot_world \<Rightarrow> u32 \<Rightarrow> LockFileData" where
  "initial_lock bp w pid = fresh_lock (bp_f64_add bp) (bw_unix w) pid (ep_port (bc_endpoint (bp_config bp))) 10000"

text \<open>
  C40: the lock does not exclude. The file exists empty between its creation and the write
  of its content; a second call (of another process or of the same) that looks at it then
  takes it for a legacy lock, removes it and acquires a lock of its own. From a state
  without lock file there is a run, in which no system call fails and no time passes, that
  ends with the calls of two processes in the lock-protected part, each having started a
  router.
\<close>

theorem lock_does_not_exclude:
  assumes "lj_de (bp_json bp) '''' = None" and "a \<noteq> b"
    and "by_calls s = Map.empty" and "bw_file (by_world s) = None" and "\<not> bw_up (by_world s)"
    and "bw_spawned (by_world s) = []"
  shows "\<exists>t. boot_run bp
      ([Enter a p, Enter b q] @ replicate 4 (quiet a) @ replicate 6 (quiet b) @
       replicate 3 (quiet a) @ [Step a None 21] @ replicate 4 (quiet b) @ [Step b None 22]) s = Some t \<and>
    by_calls t a = Some (p, RecordPid (initial_lock bp (by_world s) p) 21) \<and>
    by_calls t b = Some (q, RecordPid (initial_lock bp (by_world s) q) 22) \<and>
    bw_spawned (by_world t) = [21, 22]"
proof -
  let ?w = "by_world s" and ?f = "bw_next_file (by_world s)" and ?dl = "bw_instant (by_world s) + 10000"
  let ?da = "initial_lock bp ?w p" and ?db = "initial_lock bp ?w q"
  let ?w1 = "create_file ?w" and ?w2 = "remove_path (create_file ?w)"
  let ?w3 = "?w2\<lparr>bw_spawned := [21]\<rparr>"
  let ?w4 = "(create_file ?w3)\<lparr>bw_file := Some (Suc ?f, lj_ser (bp_json bp) ?db)\<rparr>"
  note eval = initial_lock_def boot_defs evaluate_existing_lock_def numeral_eq_Suc Let_def
  have q1: "quiet_steps bp p 4 (Probe, ?w) = (WriteLock ?f, ?w1)"
    and q2: "quiet_steps bp q 6 (Probe, ?w1) = (Create ?dl, ?w2)"
    and q3: "quiet_steps bp p 3 (WriteLock ?f, ?w2) = (SpawnRouter ?da, ?w2)"
    and q4: "quiet_steps bp q 4 (Create ?dl, ?w3) = (SpawnRouter ?db, ?w4)"
    using assms by (simp_all add: eval)
  define s1 where "s1 = s\<lparr>by_calls := [a \<mapsto> (p, Probe), b \<mapsto> (q, Probe)]\<rparr>"
  define s2 where "s2 = s1\<lparr>by_calls := (by_calls s1)(a \<mapsto> (p, WriteLock ?f)), by_world := ?w1\<rparr>"
  define s3 where "s3 = s2\<lparr>by_calls := (by_calls s2)(b \<mapsto> (q, Create ?dl)), by_world := ?w2\<rparr>"
  define s4 where "s4 = s3\<lparr>by_calls := (by_calls s3)(a \<mapsto> (p, SpawnRouter ?da)), by_world := ?w2\<rparr>"
  define s5 where "s5 = s4\<lparr>by_calls := (by_calls s4)(a \<mapsto> (p, RecordPid ?da 21)), by_world := ?w3\<rparr>"
  define s6 where "s6 = s5\<lparr>by_calls := (by_calls s5)(b \<mapsto> (q, SpawnRouter ?db)), by_world := ?w4\<rparr>"
  define s7 where "s7 = s6\<lparr>by_calls := (by_calls s6)(b \<mapsto> (q, RecordPid ?db 22)), by_world := ?w4\<lparr>bw_spawned := [21, 22]\<rparr>\<rparr>"
  note ss = s1_def s2_def s3_def s4_def s5_def s6_def s7_def
  have "boot_run bp [Enter a p, Enter b q] s = Some s1" using assms(2,3) by (simp add: s1_def)
  moreover have "boot_run bp (replicate 4 (quiet a)) s1 = Some s2"
    unfolding s2_def by (rule run_quiet [of _ _ _ Probe]) (use assms(2) q1 in \<open>simp_all add: s1_def\<close>)
  moreover have "boot_run bp (replicate 6 (quiet b)) s2 = Some s3"
    unfolding s3_def by (rule run_quiet [of _ _ _ Probe]) (use assms(2) q2 in \<open>simp_all add: s1_def s2_def\<close>)
  moreover have "boot_run bp (replicate 3 (quiet a)) s3 = Some s4"
    unfolding s4_def by (rule run_quiet [of _ _ _ "WriteLock ?f"]) (use assms(2) q3 in \<open>simp_all add: s1_def s2_def s3_def\<close>)
  moreover have "boot_run bp [Step a None 21] s4 = Some s5"
    using assms(6) by (simp add: s4_def s5_def boot_defs)
  moreover have "boot_run bp (replicate 4 (quiet b)) s5 = Some s6"
    unfolding s6_def by (rule run_quiet [of _ _ _ "Create ?dl"])
      (use assms(2) q4 in \<open>simp_all add: s3_def s4_def s5_def\<close>)
  moreover have "boot_run bp [Step b None 22] s6 = Some s7"
    by (simp add: s6_def s7_def boot_defs)
  ultimately have "boot_run bp ([Enter a p, Enter b q] @ replicate 4 (quiet a) @ replicate 6 (quiet b) @
       replicate 3 (quiet a) @ [Step a None 21] @ replicate 4 (quiet b) @ [Step b None 22]) s = Some s7"
    by (simp only: boot_run_append option.case)
  then show ?thesis
    using assms(2) by (intro exI [of _ s7]) (simp add: s5_def s6_def s7_def)
qed

theorem lock_does_not_exclude_witness:
  "\<exists>t. boot_run (demo_boot_params demo_json)
      ([Enter 0 7, Enter 1 9] @ replicate 4 (quiet 0) @ replicate 6 (quiet 1) @
       replicate 3 (quiet 0) @ [Step 0 None 21] @ replicate 4 (quiet 1) @ [Step 1 None 22]) empty_system = Some t \<and>
    bw_spawned (by_world t) = [21, 22]"
  using lock_does_not_exclude [of "demo_boot_params demo_json" 0 1 empty_system 7 9]
  by (auto simp: demo_boot_params_def demo_json_def)

text \<open>
  Reclaiming has no deadline. If a lock that must be reclaimed cannot be removed, a
  call keeps creating, evaluating and removing without end, however late it is: after
  any number of rounds the system is in the very same state.
\<close>

theorem reclaim_can_spin_forever:
  assumes "by_calls s call = Some (pid, Create deadline)" and "bw_file (by_world s) \<noteq> None"
    and "evaluate_existing_lock (bp_json bp) (bw_alive (by_world s)) (bw_unix (by_world s))
      (map_option snd (bw_file (by_world s))) = Reclaim"
  shows "boot_run bp (concat (replicate n [quiet call, quiet call, Step call (Some err) 0])) s = Some s"
proof (induction n)
  case 0
  then show ?case by simp
next
  case (Suc n)
  have same: "s\<lparr>by_calls := (by_calls s)(call \<mapsto> (pid, Create deadline)), by_world := by_world s\<rparr> = s"
    using assms(1) by (simp add: fun_upd_idem)
  have "boot_run bp [quiet call, quiet call, Step call (Some err) 0] s = Some s"
    using assms same by (simp add: boot_defs)
  then show ?case
    using Suc unfolding replicate_Suc concat.simps boot_run_append by (simp del: boot_run.simps)
qed

definition stuck_system :: boot_system where
  "stuck_system = \<lparr>by_world = (by_world empty_system)\<lparr>bw_file := Some (0, ''legacy''), bw_instant := 60000\<rparr>,
     by_calls = [0 \<mapsto> (7, Create 10000)]\<rparr>"

theorem reclaim_can_spin_forever_witness:
  "boot_run (demo_boot_params demo_json)
     (concat (replicate 1000 [quiet 0, quiet 0, Step 0 (Some ''permission denied'') 0])) stuck_system = Some stuck_system"
  by (rule reclaim_can_spin_forever [of _ _ 7 10000])
    (simp_all add: stuck_system_def evaluate_existing_lock_def demo_boot_params_def demo_json_def)

end
