(* ===== verification/Client_Bootstrap_Once.thy ===== *)
theory Client_Bootstrap_Once
  imports Client_Bootstrap_Spec
begin

text \<open>
  Who starts which router: in every run of the bootstrap, a call of
  \<open>connect_or_bootstrap\<close> starts at most one router and kills only the router it has started
  itself. A process that calls it several times may start several.
\<close>

section \<open>Starting a router\<close>

fun starts_router :: "boot_pc option \<Rightarrow> string option \<Rightarrow> bool" where
  "starts_router (Some (SpawnRouter _)) None = True"
| "starts_router _ _ = False"

text \<open>The call and the router that an action starts, and those of a run.\<close>

fun spawn_of :: "boot_system \<Rightarrow> boot_action \<Rightarrow> (nat \<times> u32) list" where
  "spawn_of s (Step call failure child) =
     (if starts_router (map_option snd (by_calls s call)) failure then [(call, child)] else [])"
| "spawn_of s _ = []"

fun spawn_log :: "boot_params \<Rightarrow> boot_action list \<Rightarrow> boot_system \<Rightarrow> (nat \<times> u32) list" where
  "spawn_log bp [] s = []"
| "spawn_log bp (a # as) s =
     spawn_of s a @ (case boot_exec bp a s of None \<Rightarrow> [] | Some t \<Rightarrow> spawn_log bp as t)"

text \<open>The routers an action kills, with the call that kills them.\<close>

definition killed_by :: "boot_pc \<Rightarrow> u32 list" where
  "killed_by pc = (case pc of MarkFailed data \<Rightarrow> (case lk_router_pid data of Some c \<Rightarrow> [c] | None \<Rightarrow> []) | _ \<Rightarrow> [])"

fun kill_of :: "boot_system \<Rightarrow> boot_action \<Rightarrow> (nat \<times> u32) list" where
  "kill_of s (Step call failure child) =
     (case by_calls s call of Some (pid, pc) \<Rightarrow> map (Pair call) (killed_by pc) | None \<Rightarrow> [])"
| "kill_of s _ = []"

fun kill_log :: "boot_params \<Rightarrow> boot_action list \<Rightarrow> boot_system \<Rightarrow> (nat \<times> u32) list" where
  "kill_log bp [] s = []"
| "kill_log bp (a # as) s =
     kill_of s a @ (case boot_exec bp a s of None \<Rightarrow> [] | Some t \<Rightarrow> kill_log bp as t)"

text \<open>States in which a call may still start a router, and the router it has started.\<close>

fun may_start :: "boot_pc \<Rightarrow> bool" where
  "may_start (RecordPid _ _) = False"
| "may_start (Poll _ _) = False"
| "may_start (MarkReady _) = False"
| "may_start (MarkFailed _) = False"
| "may_start (Dropping _) = False"
| "may_start (BootDone _) = False"
| "may_start _ = True"

fun started :: "boot_pc \<Rightarrow> u32 option" where
  "started (RecordPid _ child) = Some child"
| "started (Poll data _) = lk_router_pid data"
| "started (MarkFailed data) = lk_router_pid data"
| "started _ = None"

lemma file_ops_keep [simp]:
  "bw_spawned (update_lock js failure data w) = bw_spawned w" "bw_killed (update_lock js failure data w) = bw_killed w"
  "bw_spawned (drop_lock failure w) = bw_spawned w" "bw_killed (drop_lock failure w) = bw_killed w"
  "bw_spawned (write_handle file contents w) = bw_spawned w" "bw_killed (write_handle file contents w) = bw_killed w"
  "bw_spawned (create_file w) = bw_spawned w" "bw_killed (create_file w) = bw_killed w"
  "bw_spawned (remove_path w) = bw_spawned w" "bw_killed (remove_path w) = bw_killed w"
  by (auto simp: update_lock_def drop_lock_def write_handle_def write_path_def create_file_def remove_path_def
      split: option.splits)

lemma acquire_effect:
  "bw_spawned (snd (acquire_lock bp pid failure pc w)) = bw_spawned w \<and>
   bw_killed (snd (acquire_lock bp pid failure pc w)) = bw_killed w"
  by (cases pc; cases failure) (simp_all add: Let_def split: LockEvalResult.splits)

lemma acquire_pc:
  "may_start pc \<Longrightarrow> started (fst (acquire_lock bp pid failure pc w)) = None"
  by (cases pc; cases failure) (simp_all add: Let_def split: LockEvalResult.splits)

lemma step_spawned:
  "bw_spawned (snd (connect_or_bootstrap bp pid failure child pc w)) =
     bw_spawned w @ (if starts_router (Some pc) failure then [child] else [])"
  using acquire_effect [of bp pid failure pc w]
  by (cases pc; cases failure)
    (simp_all add: connect_or_bootstrap_def spawn_router_process_def Let_def del: acquire_lock.simps)

lemma step_killed:
  "bw_killed (snd (connect_or_bootstrap bp pid failure child pc w)) = bw_killed w @ killed_by pc"
  using acquire_effect [of bp pid failure pc w]
  by (cases pc; cases failure)
    (simp_all add: connect_or_bootstrap_def spawn_router_process_def killed_by_def Let_def del: acquire_lock.simps)

lemma step_may_start:
  "may_start (fst (connect_or_bootstrap bp pid failure child pc w)) \<Longrightarrow>
     may_start pc \<and> \<not> starts_router (Some pc) failure"
  by (cases pc; cases failure)
    (simp_all add: connect_or_bootstrap_def spawn_router_process_def Let_def del: acquire_lock.simps split: if_splits)

lemma step_started:
  "started (fst (connect_or_bootstrap bp pid failure child pc w)) = Some c \<Longrightarrow>
     started pc = Some c \<or> starts_router (Some pc) failure \<and> c = child"
  using acquire_pc [of pc bp pid failure w]
  by (cases pc; cases failure)
    (simp_all add: connect_or_bootstrap_def spawn_router_process_def Let_def del: acquire_lock.simps split: if_splits)

lemma killed_started: "c \<in> set (killed_by pc) \<Longrightarrow> started pc = Some c"
  by (cases pc) (auto simp: killed_by_def split: option.splits)

lemma starts_may_start: "starts_router (Some pc) failure \<Longrightarrow> may_start pc"
  by (cases pc) simp_all

section \<open>The invariant of a run\<close>

text \<open>
  \<open>routers\<close> lists the routers started so far with the calls that started them: such a call
  starts no further router, and the router a call may kill is its own.
\<close>

definition spawn_inv ::
    "(nat \<times> u32) list \<Rightarrow> (nat \<times> u32) list \<Rightarrow> boot_system \<Rightarrow> boot_system \<Rightarrow> bool" where
  "spawn_inv routers kills s t \<longleftrightarrow>
     bw_spawned (by_world t) = bw_spawned (by_world s) @ map snd routers \<and>
     distinct (map fst routers) \<and>
     bw_killed (by_world t) = bw_killed (by_world s) @ map snd kills \<and>
     set kills \<subseteq> set routers \<and>
     (\<forall>call c. (call, c) \<in> set routers \<longrightarrow> (\<exists>pid pc. by_calls t call = Some (pid, pc) \<and> \<not> may_start pc)) \<and>
     (\<forall>call pid pc c. by_calls t call = Some (pid, pc) \<and> started pc = Some c \<longrightarrow> (call, c) \<in> set routers)"

lemma spawn_inv_process:
  assumes inv: "spawn_inv routers kills s t" and exec: "boot_exec bp a t = Some u"
    and a: "a = Step call failure child"
  shows "spawn_inv (routers @ spawn_of t a) (kills @ kill_of t a) s u"
proof -
  from exec a obtain pid pc where pc: "by_calls t call = Some (pid, pc)" by (auto split: option.splits)
  define r where "r = connect_or_bootstrap bp pid failure child pc (by_world t)"
  have u: "by_calls u = (by_calls t)(call \<mapsto> (pid, fst r))" "by_world u = snd r"
    using exec a pc by (auto simp: r_def split: prod.splits)
  have new: "spawn_of t a = (if starts_router (Some pc) failure then [(call, child)] else [])"
    "kill_of t a = map (Pair call) (killed_by pc)"
    using a pc by simp_all
  have fresh: "(call, c) \<notin> set routers" if "may_start pc" for c
    using inv pc that unfolding spawn_inv_def by fastforce
  have own: "(call, c) \<in> set routers" if "started pc = Some c" for c
    using inv pc that unfolding spawn_inv_def by blast
  have world: "bw_spawned (by_world u) = bw_spawned (by_world s) @ map snd (routers @ spawn_of t a)"
    "bw_killed (by_world u) = bw_killed (by_world s) @ map snd (kills @ kill_of t a)"
    using inv by (simp_all add: u r_def step_spawned step_killed new spawn_inv_def comp_def)
  have dist: "distinct (map fst (routers @ spawn_of t a))"
    using inv fresh [OF starts_may_start] by (force simp: new spawn_inv_def)
  have killed: "set (kills @ kill_of t a) \<subseteq> set (routers @ spawn_of t a)"
    using inv by (auto simp: new spawn_inv_def dest!: killed_started own)
  have owners: "\<exists>p q. by_calls u k = Some (p, q) \<and> \<not> may_start q"
    if "(k, c) \<in> set (routers @ spawn_of t a)" for k c
  proof (cases "k = call")
    case True
    have "\<not> may_start pc \<or> starts_router (Some pc) failure"
      using that fresh True by (auto simp: new split: if_splits)
    then show ?thesis
      using True step_may_start [of bp pid failure child pc "by_world t"] by (auto simp: u r_def)
  next
    case False
    then have "(k, c) \<in> set routers" using that by (auto simp: new split: if_splits)
    then show ?thesis using inv False by (auto simp: u spawn_inv_def)
  qed
  have started: "(k, c) \<in> set (routers @ spawn_of t a)"
    if "by_calls u k = Some (p, q)" "started q = Some c" for k p q c
  proof (cases "k = call")
    case True
    then show ?thesis
      using that own step_started [of bp pid failure child pc "by_world t" c] by (auto simp: u r_def new)
  next
    case False
    then show ?thesis using that inv by (auto simp: u spawn_inv_def)
  qed
  show ?thesis unfolding spawn_inv_def using world dist killed owners started by blast
qed

lemma spawn_inv_step:
  assumes inv: "spawn_inv routers kills s t" and exec: "boot_exec bp a t = Some u"
  shows "spawn_inv (routers @ spawn_of t a) (kills @ kill_of t a) s u"
proof (cases a)
  case (Enter call pid)
  with exec have t: "by_calls t call = None" and u: "u = t\<lparr>by_calls := (by_calls t)(call \<mapsto> (pid, Probe))\<rparr>"
    by (simp_all split: option.splits)
  have "(call, c) \<notin> set routers" for c
    using inv t unfolding spawn_inv_def by (metis option.distinct(1))
  then show ?thesis using inv by (auto simp: spawn_inv_def u Enter split: if_splits)
next
  case (World up alive later unix)
  with assms show ?thesis by (auto simp: spawn_inv_def)
next
  case (Step call failure child)
  with assms show ?thesis by (rule spawn_inv_process)
qed

lemma spawn_inv_run:
  "spawn_inv routers kills s t \<Longrightarrow> boot_run bp as t = Some u \<Longrightarrow>
     spawn_inv (routers @ spawn_log bp as t) (kills @ kill_log bp as t) s u"
proof (induction as arbitrary: routers kills t)
  case Nil
  then show ?case by simp
next
  case (Cons a as)
  then obtain v where v: "boot_exec bp a t = Some v" "boot_run bp as v = Some u"
    by (auto split: option.splits)
  show ?case using Cons.IH [OF spawn_inv_step [OF Cons.prems(1) v(1)] v(2)] v(1) by simp
qed

section \<open>Property\<close>

text \<open>
  C12: routers are started and killed with care. In every run of any number of calls of
  \<open>connect_or_bootstrap\<close>, made by any number of processes one after another or at the same
  time, with any interleaving and any failures of system calls: no call starts two routers,
  however often it had to wait for or reclaim the lock, and a call kills no router but the
  one it has started itself. Different calls of one process may each start a router.
\<close>

theorem bootstrap_spawns_once:
  assumes "by_calls s = Map.empty" "boot_run bp as s = Some t"
  shows "bw_spawned (by_world t) = bw_spawned (by_world s) @ map snd (spawn_log bp as s) \<and>
    distinct (map fst (spawn_log bp as s)) \<and>
    bw_killed (by_world t) = bw_killed (by_world s) @ map snd (kill_log bp as s) \<and>
    set (kill_log bp as s) \<subseteq> set (spawn_log bp as s)"
  using spawn_inv_run [of "[]" "[]" s s bp as t] assms by (simp add: spawn_inv_def)

text \<open>
  A process that gives up on its router and kills it, and connects again: its second call
  starts another router.
\<close>

definition reconnecting :: "boot_action list" where
  "reconnecting = solo_start 0 7 8 @ [World False (\<lambda>_. True) 10000 100, quiet 0, quiet 0, quiet 0] @ solo_start 1 7 9"

theorem bootstrap_spawns_once_witness:
  "\<exists>t. boot_run (demo_boot_params demo_json) reconnecting empty_system = Some t \<and>
     map_option fst (by_calls t 0) = Some 7 \<and> map_option fst (by_calls t 1) = Some 7 \<and>
     spawn_log (demo_boot_params demo_json) reconnecting empty_system = [(0, 8), (1, 9)] \<and>
     kill_log (demo_boot_params demo_json) reconnecting empty_system = [(0, 8)] \<and>
     bw_spawned (by_world t) = [8, 9] \<and> bw_killed (by_world t) = [8]"
proof -
  let ?bp = "demo_boot_params demo_json"
  note eval = reconnecting_def solo_start_def boot_defs empty_system_def demo_boot_params_def killed_by_def Let_def
  obtain t where t: "boot_run ?bp reconnecting empty_system = Some t"
    "map_option fst (by_calls t 0) = Some 7" "map_option fst (by_calls t 1) = Some 7"
    by (simp add: eval)
  have logs: "spawn_log ?bp reconnecting empty_system = [(0, 8), (1, 9)]"
    "kill_log ?bp reconnecting empty_system = [(0, 8)]"
    by (simp_all add: eval)
  show ?thesis using bootstrap_spawns_once [OF _ t(1)] t logs by simp
qed

end
