(* ===== verification/Client_Bootstrap_Termination.thy ===== *)
theory Client_Bootstrap_Termination
  imports Client_Bootstrap_Spec
begin

text \<open>
  How long a call of \<open>connect_or_bootstrap\<close> takes. Its loops poll with a sleep between two
  rounds and give up at a deadline, except that a lock found stale is reclaimed without
  looking at the deadline. The bound counts the steps of one call among the steps of all
  others, which may do anything to the lock file and the router in between.
\<close>

section \<open>Sleeping\<close>








section \<open>Rounds that are left\<close>








section \<open>Runs\<close>











end
