(* ===== verification/Float64.thy ===== *)
theory Float64
  imports Complex_Main MF_Prelude "HOL-Library.Log_Nat"
begin

text \<open>
  IEEE-754 double precision as far as the crates compute with \<open>f64\<close>: the value of a
  pattern, rounding of a rational number to the nearest pattern (ties to even),
  addition, multiplication and division, comparison, and the casts between \<open>usize\<close>
  and \<open>f64\<close>. An operation that gives NaN gives the quiet NaN.
\<close>

section \<open>Patterns and values\<close>

definition f64_mag :: "f64 \<Rightarrow> int" where
  "f64_mag w = uint w mod 2 ^ 63"

definition f64_neg :: "f64 \<Rightarrow> bool" where
  "f64_neg w \<longleftrightarrow> 2 ^ 63 \<le> uint w"

definition f64_make :: "bool \<Rightarrow> int \<Rightarrow> f64" where
  "f64_make neg mag = of_int ((if neg then 2 ^ 63 else 0) + mag)"

abbreviation f64_inf_mag :: int where
  "f64_inf_mag \<equiv> 2047 * 2 ^ 52"

definition f64_nan :: f64 where
  "f64_nan = f64_make False (f64_inf_mag + 2 ^ 51)"

definition is_nan :: "f64 \<Rightarrow> bool" where
  "is_nan w \<longleftrightarrow> f64_inf_mag < f64_mag w"

definition is_infinite :: "f64 \<Rightarrow> bool" where
  "is_infinite w \<longleftrightarrow> f64_mag w = f64_inf_mag"

definition mag_val :: "int \<Rightarrow> rat" where
  "mag_val mag = (if mag = 0 then 0
     else if mag div 2 ^ 52 = 0 then of_int mag * 2 powi (-1074)
     else of_int (mag mod 2 ^ 52 + 2 ^ 52) * 2 powi (mag div 2 ^ 52 - 1075))"

definition f64_val :: "f64 \<Rightarrow> rat" where
  "f64_val w = (if f64_neg w then - 1 else 1) * mag_val (f64_mag w)"

section \<open>Rounding\<close>

definition round_even :: "rat \<Rightarrow> int" where
  "round_even q = (let f = \<lfloor>q\<rfloor>; r = q - of_int f in
     if r < 1 / 2 then f else if 1 / 2 < r then f + 1 else if even f then f else f + 1)"

definition flog2 :: "rat \<Rightarrow> int" where
  "flog2 q = (case quotient_of q of (a, b) \<Rightarrow>
     let d = bitlen a - bitlen b in if 2 powi d \<le> q then d else d - 1)"

definition f64_round :: "bool \<Rightarrow> rat \<Rightarrow> f64" where
  "f64_round neg q = (if q = 0 then f64_make neg 0
     else let e = max (-1074) (flog2 q - 52)
          in f64_make neg (min f64_inf_mag (round_even (q / 2 powi e) + (e + 1074) * 2 ^ 52)))"

section \<open>Operations\<close>

text \<open>The sign of an exact sum zero is negative only if both operands are.\<close>

definition f64_add :: "f64 \<Rightarrow> f64 \<Rightarrow> f64" where
  "f64_add x y =
     (if is_nan x \<or> is_nan y then f64_nan
      else if is_infinite x then (if is_infinite y \<and> f64_neg x \<noteq> f64_neg y then f64_nan else x)
      else if is_infinite y then y
      else let s = f64_val x + f64_val y
           in f64_round (if s = 0 then f64_neg x \<and> f64_neg y else s < 0) \<bar>s\<bar>)"

definition f64_mul :: "f64 \<Rightarrow> f64 \<Rightarrow> f64" where
  "f64_mul x y = (let neg = (f64_neg x \<noteq> f64_neg y) in
     if is_nan x \<or> is_nan y then f64_nan
     else if is_infinite x \<or> is_infinite y
     then (if f64_mag x = 0 \<or> f64_mag y = 0 then f64_nan else f64_make neg f64_inf_mag)
     else f64_round neg \<bar>f64_val x * f64_val y\<bar>)"

definition f64_div :: "f64 \<Rightarrow> f64 \<Rightarrow> f64" where
  "f64_div x y = (let neg = (f64_neg x \<noteq> f64_neg y) in
     if is_nan x \<or> is_nan y then f64_nan
     else if is_infinite x then (if is_infinite y then f64_nan else f64_make neg f64_inf_mag)
     else if is_infinite y then f64_make neg 0
     else if f64_mag y = 0 then (if f64_mag x = 0 then f64_nan else f64_make neg f64_inf_mag)
     else f64_round neg \<bar>f64_val x / f64_val y\<bar>)"

text \<open>
  \<open>partial_cmp\<close>: patterns that are not NaN are ordered like their keys, and the two zeros
  are equal.
\<close>

definition f64_key :: "f64 \<Rightarrow> int" where
  "f64_key w = (if f64_neg w then - f64_mag w else f64_mag w)"

text \<open>\<open>n as f64\<close> for an unsigned integer.\<close>

definition f64_of_uint :: "int \<Rightarrow> f64" where
  "f64_of_uint n = f64_round False (of_int n)"

text \<open>\<open>x as usize\<close>: truncation that saturates; NaN gives 0.\<close>

definition f64_to_usize :: "f64 \<Rightarrow> nat" where
  "f64_to_usize x =
     (if is_nan x \<or> f64_neg x then 0
      else if is_infinite x then 2 ^ 64 - 1
      else nat (min (2 ^ 64 - 1) \<lfloor>f64_val x\<rfloor>))"

text \<open>
  \<open>x as f64\<close> for an \<open>f32\<close> pattern, which is exact; a NaN becomes the quiet NaN.
\<close>

definition f32_to_f64 :: "32 word \<Rightarrow> f64" where
  "f32_to_f64 x = (let neg = (2 ^ 31 \<le> uint x); mag = uint x mod 2 ^ 31 in
     if mag > 255 * 2 ^ 23 then f64_nan
     else if mag = 255 * 2 ^ 23 then f64_make neg f64_inf_mag
     else f64_round neg (if mag div 2 ^ 23 = 0 then of_int mag * 2 powi (-149)
       else of_int (mag mod 2 ^ 23 + 2 ^ 23) * 2 powi (mag div 2 ^ 23 - 150)))"

section \<open>Facts\<close>

lemma f64_make_fields [simp]:
  assumes "0 \<le> mag" "mag < 2 ^ 63"
  shows "f64_mag (f64_make neg mag) = mag" "f64_neg (f64_make neg mag) = neg"
proof -
  have "uint (f64_make neg mag) = (if neg then 2 ^ 63 else 0) + mag"
    using assms by (simp add: f64_make_def uint_word_of_int del: of_int_add)
  then show "f64_mag (f64_make neg mag) = mag" "f64_neg (f64_make neg mag) = neg"
    using assms by (auto simp: f64_mag_def f64_neg_def)
qed

lemma round_even_nonneg [simp]: "0 \<le> q \<Longrightarrow> 0 \<le> round_even q"
  by (auto simp: round_even_def Let_def)

lemma f64_round_fields:
  assumes "0 \<le> q"
  shows "f64_mag (f64_round neg q) \<le> f64_inf_mag" "f64_neg (f64_round neg q) = neg" "0 \<le> f64_mag (f64_round neg q)"
proof -
  have "\<exists>k. 0 \<le> k \<and> k \<le> f64_inf_mag \<and> f64_round neg q = f64_make neg k"
  proof (cases "q = 0")
    case True
    then show ?thesis by (intro exI [of _ 0]) (simp add: f64_round_def)
  next
    case False
    define e where "e = max (-1074) (flog2 q - 52)"
    have "0 \<le> round_even (q / 2 powi e)" "-1074 \<le> e" using assms by (simp_all add: e_def)
    then show ?thesis
      using False by (intro exI [of _ "min f64_inf_mag (round_even (q / 2 powi e) + (e + 1074) * 2 ^ 52)"])
        (simp add: f64_round_def Let_def flip: e_def)
  qed
  then show "f64_mag (f64_round neg q) \<le> f64_inf_mag" "f64_neg (f64_round neg q) = neg" "0 \<le> f64_mag (f64_round neg q)"
    by auto
qed

lemma f64_round_not_nan [simp]: "0 \<le> q \<Longrightarrow> \<not> is_nan (f64_round neg q)"
  using f64_round_fields [of q neg] by (simp add: is_nan_def)

lemma flog2_bounds:
  assumes "0 < q"
  shows "2 powi flog2 q \<le> q" "q < 2 powi (flog2 q + 1)"
proof -
  obtain a b where ab: "quotient_of q = (a, b)" by (cases "quotient_of q")
  have b: "0 < b" using quotient_of_denom_pos [OF ab] .
  have q: "q = of_int a / of_int b" using quotient_of_div [OF ab] .
  then have a: "0 < a" using assms b by (simp add: zero_less_divide_iff)
  define i j where "i = bitlen a" and "j = bitlen b"
  have ij: "1 \<le> i" "1 \<le> j" using a b by (simp_all add: i_def j_def bitlen_alt_def)
  have pow: "of_int (2 ^ nat k) = (2 :: rat) powi k" if "0 \<le> k" for k
    using that by (simp add: power_int_def)
  have pw: "(of_int (2 ^ nat (i - 1)) :: rat) = 2 powi (i - 1)" "(of_int (2 ^ nat i) :: rat) = 2 powi i"
    "(of_int (2 ^ nat (j - 1)) :: rat) = 2 powi (j - 1)" "(of_int (2 ^ nat j) :: rat) = 2 powi j"
    using ij by (simp_all add: pow del: of_int_power)
  have "(of_int (2 ^ nat (i - 1)) :: rat) \<le> of_int a" "(of_int a :: rat) < of_int (2 ^ nat i)"
    "(of_int (2 ^ nat (j - 1)) :: rat) \<le> of_int b" "(of_int b :: rat) < of_int (2 ^ nat j)"
    using bitlen_bounds [OF a] bitlen_bounds [OF b] unfolding i_def j_def by (simp_all only: of_int_le_iff of_int_less_iff)
  then have A: "(2 :: rat) powi (i - 1) \<le> of_int a" "(of_int a :: rat) < 2 powi i"
    and B: "(2 :: rat) powi (j - 1) \<le> of_int b" "(of_int b :: rat) < 2 powi j"
    by (simp_all only: pw)
  have "2 powi (i - 1 - j) \<le> q"
  proof -
    have "(2 :: rat) powi (i - 1 - j) * of_int b \<le> 2 powi (i - 1 - j) * 2 powi j"
      using B(2) by (intro mult_left_mono) simp_all
    also have "\<dots> = 2 powi (i - 1)" by (simp flip: power_int_add)
    also have "\<dots> \<le> of_int a" by (rule A(1))
    finally show ?thesis using b by (simp add: q pos_le_divide_eq)
  qed
  moreover have "q < 2 powi (i - j + 1)"
  proof -
    have "(of_int a :: rat) < 2 powi i" by (rule A(2))
    also have "\<dots> = 2 powi (i - j + 1) * 2 powi (j - 1)" by (simp flip: power_int_add)
    also have "\<dots> \<le> 2 powi (i - j + 1) * of_int b"
      using B(1) by (intro mult_left_mono) simp_all
    finally show ?thesis using b by (simp add: q pos_divide_less_eq)
  qed
  ultimately show "2 powi flog2 q \<le> q" "q < 2 powi (flog2 q + 1)"
    by (auto simp: flog2_def ab Let_def i_def [symmetric] j_def [symmetric] algebra_simps)
qed

lemma powi_less_iff: "(2 :: rat) powi i < 2 powi j \<longleftrightarrow> i < j"
  using power_int_increasing [of j i "2 :: rat"] power_int_strict_increasing [of i j "2 :: rat"]
  by (meson not_le one_less_numeral_iff order.order_iff_strict semiring_norm(76))

lemma round_even_near: "\<bar>of_int (round_even q) - q\<bar> \<le> 1 / 2"
proof -
  have "of_int \<lfloor>q\<rfloor> \<le> q" "q < of_int \<lfloor>q\<rfloor> + 1" by linarith+
  then show ?thesis unfolding round_even_def Let_def by (auto simp: abs_le_iff)
qed

lemma round_even_unique:
  assumes "\<bar>q - of_int m\<bar> < 1 / 2"
  shows "round_even q = m"
proof -
  have "\<bar>of_int (round_even q) - of_int m\<bar> < (1 :: rat)"
    using assms round_even_near [of q] by linarith
  then have "\<bar>round_even q - m\<bar> < 1" by (simp flip: of_int_diff of_int_abs)
  then show ?thesis by simp
qed

lemma round_even_of_int [simp]: "round_even (of_int m) = m"
  by (rule round_even_unique) simp

lemma round_even_bounds:
  assumes "of_int a \<le> q" "q \<le> of_int b"
  shows "a \<le> round_even q" "round_even q \<le> b"
proof -
  have "of_int a - 1 < (of_int (round_even q) :: rat)" "of_int (round_even q) < (of_int b + 1 :: rat)"
    using assms round_even_near [of q] by linarith+
  then show "a \<le> round_even q" "round_even q \<le> b" by linarith+
qed

text \<open>
  Numbers between 2 to the -1000 and 2 to the 1000 are rounded to 53 significant bits.
\<close>

lemma f64_round_normal:
  assumes "2 powi (-1000) \<le> q" "q < 2 powi 1000"
  shows "f64_val (f64_round False q) =
      of_int (round_even (q / 2 powi (flog2 q - 52))) * 2 powi (flog2 q - 52)"
    and "\<not> is_infinite (f64_round False q)"
proof -
  define e where "e = flog2 q - 52"
  have q: "0 < q" using assms(1) zero_less_power_int [of "2 :: rat" "-1000"] by linarith
  note fl = flog2_bounds [OF q]
  have "(2 :: rat) powi (-1000) < 2 powi (flog2 q + 1)" using assms(1) fl(2) by (rule le_less_trans)
  then have e0: "-1052 \<le> e" unfolding e_def powi_less_iff by simp
  have "(2 :: rat) powi flog2 q < 2 powi 1000" using fl(1) assms(2) by (rule le_less_trans)
  then have e1: "e < 948" unfolding e_def powi_less_iff by simp
  have sc: "of_int (2 ^ 52) \<le> q / 2 powi e" "q / 2 powi e \<le> of_int (2 ^ 53)"
  proof -
    have "(2 :: rat) powi (52 + e) \<le> q" "q \<le> 2 powi (53 + e)" using fl by (simp_all add: e_def add.commute)
    then show "of_int (2 ^ 52) \<le> q / 2 powi e" "q / 2 powi e \<le> of_int (2 ^ 53)"
      by (simp_all add: power_int_add pos_le_divide_eq pos_divide_le_eq)
  qed
  define m where "m = round_even (q / 2 powi e)"
  have m: "2 ^ 52 \<le> m" "m \<le> 2 ^ 53"
    using round_even_bounds [OF sc] by (simp_all add: m_def)
  define g where "g = e + 1074"
  have g: "0 \<le> g" "g < 2022" using e0 e1 by (auto simp: g_def)
  have mag: "0 \<le> m + g * 2 ^ 52" "m + g * 2 ^ 52 < f64_inf_mag" using m g by simp_all
  have round: "f64_round False q = f64_make False (m + g * 2 ^ 52)"
    using q e0 mag by (simp add: f64_round_def Let_def e_def m_def g_def max_def min_def)
  have mv: "mag_val (m + g * 2 ^ 52) = of_int m * 2 powi e"
  proof (cases "m = 2 ^ 53")
    case True
    then have "m + g * 2 ^ 52 = (g + 2) * 2 ^ 52" by simp
    then have "mag_val (m + g * 2 ^ 52) = 2 ^ 52 * 2 powi (g + 2 - 1075)"
      using g(1) by (simp add: mag_val_def)
    also have "g + 2 - 1075 = e + 1" by (simp add: g_def)
    finally show ?thesis by (simp add: True power_int_add)
  next
    case False
    define k where "k = m - 2 ^ 52"
    have k: "m = k + 2 ^ 52" "0 \<le> k" "k < 2 ^ 52" using m False by (simp_all add: k_def)
    then have "m + g * 2 ^ 52 = k + (g + 1) * 2 ^ 52" by simp
    then have "(m + g * 2 ^ 52) div 2 ^ 52 = g + 1" "(m + g * 2 ^ 52) mod 2 ^ 52 = k"
      using k(2,3) by simp_all
    then have "mag_val (m + g * 2 ^ 52) = of_int (k + 2 ^ 52) * 2 powi (g + 1 - 1075)"
      using g(1) m(1) by (simp add: mag_val_def)
    also have "g + 1 - 1075 = e" by (simp add: g_def)
    finally show ?thesis by (simp add: k(1))
  qed
  show "f64_val (f64_round False q) =
      of_int (round_even (q / 2 powi (flog2 q - 52))) * 2 powi (flog2 q - 52)"
    using mag mv unfolding e_def [symmetric] m_def [symmetric] by (simp add: f64_val_def round)
  show "\<not> is_infinite (f64_round False q)"
    using mag by (simp add: is_infinite_def round)
qed

lemma f64_of_uint_number [simp]: "0 \<le> n \<Longrightarrow> \<not> is_nan (f64_of_uint n)" "0 \<le> n \<Longrightarrow> \<not> f64_neg (f64_of_uint n)"
  by (simp_all add: f64_of_uint_def f64_round_fields)

lemma f64_make_inf [simp]: "\<not> is_nan (f64_make neg 9218868437227405312)" "f64_neg (f64_make neg 9218868437227405312) = neg"
  "\<not> is_nan (f64_make neg 0)" "f64_neg (f64_make neg 0) = neg"
  by (simp_all add: is_nan_def)

lemma f64_of_uint_exact:
  assumes "0 \<le> n" "n \<le> 2 ^ 53"
  shows "f64_val (f64_of_uint n) = of_int n" "\<not> is_infinite (f64_of_uint n)"
proof -
  have "f64_val (f64_of_uint n) = of_int n \<and> \<not> is_infinite (f64_of_uint n)"
  proof (cases "n = 0")
    case True
    then show ?thesis by (simp add: f64_of_uint_def f64_round_def f64_val_def mag_val_def is_infinite_def)
  next
    case False
    define q :: rat where "q = of_int n"
    define e where "e = flog2 q - 52"
    have le: "q \<le> 2 powi 53" using assms(2) by (simp add: q_def)
    have q1: "1 \<le> q" using False assms(1) by (simp add: q_def)
    have q: "2 powi (-1000) \<le> q" "q < 2 powi 1000"
      using q1 le powi_less_iff [of "-1000" 0] powi_less_iff [of 53 1000] by simp_all
    have "2 powi flog2 q < (2 :: rat) powi 54"
      using flog2_bounds(1) [of q] q1 le powi_less_iff [of 53 54] by simp
    then have e: "e \<le> 1" unfolding e_def powi_less_iff by simp
    have "\<exists>k. q / 2 powi e = of_int k"
    proof (cases "e = 1")
      case True
      then have "flog2 q = 53" by (simp add: e_def)
      then have "q = 2 powi 53" using flog2_bounds(1) [of q] q1 le by simp
      then show ?thesis using True by (intro exI [of _ "2 ^ 52"]) simp
    next
      case False
      then have "q / 2 powi e = of_int (n * 2 ^ nat (- e))"
        using e by (simp add: q_def power_int_def field_simps)
      then show ?thesis by blast
    qed
    then obtain k where k: "q / 2 powi e = of_int k" ..
    then have "of_int (round_even (q / 2 powi e)) = q / 2 powi e" by (simp only: round_even_of_int)
    then have "of_int (round_even (q / 2 powi e)) * 2 powi e = q" by simp
    then show ?thesis
      using f64_round_normal [OF q] by (simp add: f64_of_uint_def e_def q_def)
  qed
  then show "f64_val (f64_of_uint n) = of_int n" "\<not> is_infinite (f64_of_uint n)" by simp_all
qed

text \<open>Rounding to a multiple of \<open>u\<close>: near an integer it gives the integer, and it errs by half a unit.\<close>

lemma round_even_scaled_exact:
  fixes u x :: rat
  assumes "u = 2 powi e" and "e \<le> 0" and "\<bar>x - of_nat m\<bar> * 2 < u"
  shows "of_int (round_even (x / u)) * u = of_nat m"
proof -
  have u: "0 < u" using assms(1) by simp
  have mu: "of_nat m / u = of_int (int m * 2 ^ nat (- e))"
    using assms(2) by (simp add: assms(1) power_int_def field_simps)
  have "\<bar>x / u - of_nat m / u\<bar> < 1 / 2"
    using assms(3) u by (simp flip: diff_divide_distrib)
  then have "round_even (x / u) = int m * 2 ^ nat (- e)"
    unfolding mu by (rule round_even_unique)
  then show ?thesis using mu u by (simp add: field_simps)
qed

lemma round_even_scaled_near:
  fixes u x :: rat
  assumes "0 < u"
  shows "\<bar>of_int (round_even (x / u)) * u - x\<bar> \<le> u / 2"
proof -
  have "\<bar>of_int (round_even (x / u)) - x / u\<bar> * u \<le> 1 / 2 * u"
    using round_even_near [of "x / u"] assms by (intro mult_right_mono) simp_all
  then show ?thesis using assms by (simp add: abs_mult_pos left_diff_distrib)
qed

text \<open>
  A count times a constant close to \<open>p\<close> percent, rounded and truncated, is the exact
  integer part of \<open>p\<close> percent of the count.
\<close>

lemma percent_floor:
  fixes c :: rat
  assumes n: "1 \<le> n" "n \<le> 2 ^ 40" and c: "1 / 2 \<le> c" "c \<le> 1"
    and close: "2 ^ 54 * \<bar>c - of_nat p / 100\<bar> < c"
  shows "\<lfloor>f64_val (f64_round False (of_nat n * c))\<rfloor> = int (p * n div 100)"
    and "\<not> is_infinite (f64_round False (of_nat n * c))"
proof -
  define x where "x = of_nat n * c"
  define y :: rat where "y = of_nat (p * n) / 100"
  define e where "e = flog2 x - 52"
  define u :: rat where "u = 2 powi e"
  have nr: "(1 :: rat) \<le> of_nat n" "(of_nat n :: rat) \<le> 2 ^ 40"
    using n by (simp, simp flip: of_nat_power)
  have x: "1 / 2 \<le> x" "x \<le> of_nat n"
    using mult_mono [OF nr(1) c(1)] mult_left_mono [OF c(2), of "of_nat n"] by (simp_all add: x_def)
  have range: "2 powi (-1000) \<le> x" "x < 2 powi 1000"
    using x nr(2) powi_less_iff [of "-1000" "-1"] powi_less_iff [of 40 1000] by simp_all
  note fl = flog2_bounds [of x]
  have u: "0 < u" "u * 2 ^ 52 \<le> x" "x < u * 2 ^ 53"
    using fl x(1) by (simp_all add: u_def e_def power_int_diff power_int_add)
  have val: "f64_val (f64_round False x) = of_int (round_even (x / u)) * u" "\<not> is_infinite (f64_round False x)"
    using f64_round_normal [OF range] by (simp_all add: u_def e_def)
  have err: "\<bar>x - y\<bar> = of_nat n * \<bar>c - of_nat p / 100\<bar>"
    by (simp add: x_def y_def abs_mult_pos' flip: abs_mult_pos) (simp add: algebra_simps)
  have xy: "\<bar>x - y\<bar> * 2 ^ 54 < x"
  proof -
    have "of_nat n * (2 ^ 54 * \<bar>c - of_nat p / 100\<bar>) < of_nat n * c"
      using close nr(1) by (intro mult_strict_left_mono) simp_all
    then show ?thesis unfolding err unfolding x_def by (simp only: mult_ac)
  qed
  have "\<lfloor>of_int (round_even (x / u)) * u\<rfloor> = int (p * n div 100)"
  proof (cases "100 dvd p * n")
    case True
    then obtain m where m: "p * n = 100 * m" ..
    then have y: "y = of_nat m" by (simp add: y_def)
    have "(2 :: rat) powi flog2 x < 2 powi 41"
      using fl(1) x nr(2) powi_less_iff [of 40 41] by simp
    then have "e \<le> 0" unfolding powi_less_iff by (simp add: e_def)
    then have "of_int (round_even (x / u)) * u = of_nat m"
      using xy u(3) y by (intro round_even_scaled_exact [OF u_def]) simp_all
    then show ?thesis using m by simp
  next
    case False
    define k r where "k = p * n div 100" and "r = p * n mod 100"
    have kr: "p * n = k * 100 + r" "1 \<le> r" "r \<le> 99"
      using False by (auto simp: k_def r_def dvd_eq_mod_eq_0 Suc_le_eq)
    have y: "y = of_nat k + of_nat r / 100" unfolding y_def kr(1) by (simp add: field_simps)
    have "\<bar>of_int (round_even (x / u)) * u - x\<bar> \<le> u / 2" using u(1) by (rule round_even_scaled_near)
    moreover have "u \<le> 1 / 1000" "\<bar>x - y\<bar> \<le> 1 / 1000" using u(2) x(2) nr(2) xy by simp_all
    ultimately have "\<bar>of_int (round_even (x / u)) * u - y\<bar> < 1 / 100" by linarith
    moreover have "1 / 100 \<le> (of_nat r / 100 :: rat)" "(of_nat r / 100 :: rat) \<le> 99 / 100"
      using kr(2,3) by simp_all
    ultimately have "of_nat k \<le> of_int (round_even (x / u)) * u" "of_int (round_even (x / u)) * u < of_nat k + 1"
      unfolding y by linarith+
    then show ?thesis unfolding k_def [symmetric] by (simp add: floor_eq_iff)
  qed
  then show "\<lfloor>f64_val (f64_round False (of_nat n * c))\<rfloor> = int (p * n div 100)"
    "\<not> is_infinite (f64_round False (of_nat n * c))"
    using val by (simp_all add: x_def)
qed

end
