(* ===== verification/Client_Metrics.thy ===== *)
theory Client_Metrics
  imports Float64
begin

text \<open>
  rust/src/metrics.rs: the collector of request, queue, circuit-breaker and heartbeat
  figures behind one lock, and its snapshot. Every method takes the lock once, so each is
  one atomic operation on the record of the collector. Counters are \<open>usize\<close> words, whose
  additions wrap as in a release build.
\<close>

section \<open>The collector\<close>

type_synonym usize = "64 word"

text \<open>\<open>std::time::Duration\<close> and \<open>as_secs_f64\<close>.\<close>

record Duration =
  du_secs :: "64 word"
  du_nanos :: u32

definition as_secs_f64 :: "Duration \<Rightarrow> f64" where
  "as_secs_f64 d = f64_add (f64_of_uint (uint (du_secs d)))
     (f64_div (f64_of_uint (uint (du_nanos d))) (f64_of_uint 1000000000))"

record RequestMetrics =
  rm_request_id :: string
  rm_function :: string
  rm_namespace :: string
  rm_success :: bool
  rm_latency_ms :: f64
  rm_error :: "string option"
  rm_timestamp :: f64

record MetricsSnapshot =
  ms_requests_total :: usize
  ms_requests_success :: usize
  ms_requests_failed :: usize
  ms_latency_avg_ms :: f64
  ms_latency_p50_ms :: f64
  ms_latency_p95_ms :: f64
  ms_latency_p99_ms :: f64
  ms_latency_min_ms :: f64
  ms_latency_max_ms :: f64
  ms_queue_depth :: usize
  ms_queue_max_depth :: usize
  ms_circuit_breaker_trips :: usize
  ms_circuit_breaker_state :: string
  ms_heartbeat_rtt_avg_ms :: f64
  ms_heartbeat_rtt_last_ms :: f64
  ms_heartbeat_misses :: usize
  ms_window_seconds :: f64
  ms_timestamp :: f64

record MetricsInner =
  mi_max_latency_samples :: usize
  mi_window_seconds :: f64
  mi_requests_total :: usize
  mi_requests_success :: usize
  mi_requests_failed :: usize
  mi_circuit_breaker_trips :: usize
  mi_circuit_breaker_state :: string
  mi_queue_depth :: usize
  mi_queue_max_depth :: usize
  mi_latencies :: "f64 list"
  mi_heartbeat_rtts :: "f64 list"
  mi_heartbeat_misses :: usize

definition with_options :: "usize \<Rightarrow> f64 \<Rightarrow> MetricsInner" where
  "with_options max_latency_samples window_seconds =
     \<lparr>mi_max_latency_samples = max_latency_samples, mi_window_seconds = window_seconds,
      mi_requests_total = 0, mi_requests_success = 0, mi_requests_failed = 0,
      mi_circuit_breaker_trips = 0, mi_circuit_breaker_state = ''closed'',
      mi_queue_depth = 0, mi_queue_max_depth = 0, mi_latencies = [], mi_heartbeat_rtts = [],
      mi_heartbeat_misses = 0\<rparr>"

definition new_metrics :: MetricsInner where
  "new_metrics = with_options 1000 (f64_of_uint 60)"

section \<open>Recording\<close>

definition start_request :: "MetricsInner \<Rightarrow> MetricsInner" where
  "start_request m = m
     \<lparr>mi_requests_total := mi_requests_total m + 1,
      mi_queue_depth := mi_queue_depth m + 1,
      mi_queue_max_depth := max (mi_queue_max_depth m) (mi_queue_depth m + 1)\<rparr>"

definition saturating_sub :: "usize \<Rightarrow> usize \<Rightarrow> usize" where
  "saturating_sub a b = (if a < b then 0 else a - b)"

text \<open>\<open>push_back\<close>, then \<open>pop_front\<close> if the buffer got longer than its bound.\<close>

definition push_bounded :: "nat \<Rightarrow> 'a \<Rightarrow> 'a list \<Rightarrow> 'a list" where
  "push_bounded bound x xs =
     (let ys = xs @ [x] in if bound < length ys then tl ys else ys)"

definition latency_of :: "Duration \<Rightarrow> f64" where
  "latency_of elapsed = f64_mul (as_secs_f64 elapsed) (f64_of_uint 1000)"

definition end_request :: "Duration \<Rightarrow> bool \<Rightarrow> MetricsInner \<Rightarrow> f64 \<times> MetricsInner" where
  "end_request elapsed success m =
     (let latency_ms = latency_of elapsed;
          m1 = m\<lparr>mi_queue_depth := saturating_sub (mi_queue_depth m) 1\<rparr>;
          m2 = (if success then m1\<lparr>mi_requests_success := mi_requests_success m1 + 1\<rparr>
                else m1\<lparr>mi_requests_failed := mi_requests_failed m1 + 1\<rparr>);
          m3 = m2\<lparr>mi_latencies :=
                 push_bounded (unat (mi_max_latency_samples m2)) latency_ms (mi_latencies m2)\<rparr>
      in (latency_ms, m3))"

definition record_circuit_breaker_trip :: "MetricsInner \<Rightarrow> MetricsInner" where
  "record_circuit_breaker_trip m = m\<lparr>mi_circuit_breaker_trips := mi_circuit_breaker_trips m + 1,
     mi_circuit_breaker_state := ''open''\<rparr>"

definition record_circuit_breaker_reset :: "MetricsInner \<Rightarrow> MetricsInner" where
  "record_circuit_breaker_reset m = m\<lparr>mi_circuit_breaker_state := ''closed''\<rparr>"

definition record_circuit_breaker_half_open :: "MetricsInner \<Rightarrow> MetricsInner" where
  "record_circuit_breaker_half_open m = m\<lparr>mi_circuit_breaker_state := ''half-open''\<rparr>"

definition record_heartbeat_rtt :: "f64 \<Rightarrow> MetricsInner \<Rightarrow> MetricsInner" where
  "record_heartbeat_rtt rtt_ms m =
     m\<lparr>mi_heartbeat_rtts := push_bounded 100 rtt_ms (mi_heartbeat_rtts m)\<rparr>"

definition record_heartbeat_miss :: "MetricsInner \<Rightarrow> MetricsInner" where
  "record_heartbeat_miss m = m\<lparr>mi_heartbeat_misses := mi_heartbeat_misses m + 1\<rparr>"

definition reset_metrics :: "MetricsInner \<Rightarrow> MetricsInner" where
  "reset_metrics m = m
     \<lparr>mi_requests_total := 0, mi_requests_success := 0, mi_requests_failed := 0,
      mi_circuit_breaker_trips := 0, mi_circuit_breaker_state := ''closed'',
      mi_queue_depth := 0, mi_queue_max_depth := 0, mi_latencies := [], mi_heartbeat_rtts := [],
      mi_heartbeat_misses := 0\<rparr>"

section \<open>The snapshot\<close>

text \<open>
  \<open>sort_by(|a, b| a.partial_cmp(b).unwrap())\<close> is a stable sort. It panics (\<open>None\<close>) when
  it compares with a NaN, as it does if there is one and another element.
\<close>

definition sort_by_partial_cmp :: "f64 list \<Rightarrow> f64 list option" where
  "sort_by_partial_cmp xs =
     (if 2 \<le> length xs \<and> list_ex is_nan xs then None else Some (sort_key f64_key xs))"

text \<open>\<open>iter().sum::<f64>()\<close> starts from the neutral element, which is negative zero.\<close>

definition f64_sum :: "f64 list \<Rightarrow> f64" where
  "f64_sum = foldl f64_add (f64_make True 0)"

text \<open>\<open>(n as f64 * fraction) as usize\<close>, kept within the vector.\<close>

definition percentile_index :: "f64 \<Rightarrow> nat \<Rightarrow> nat" where
  "percentile_index fraction n =
     min (f64_to_usize (f64_mul (f64_of_uint (int n)) fraction)) (n - 1)"

definition lit_050 :: f64 where "lit_050 = f64_round False (50 / 100)"
definition lit_095 :: f64 where "lit_095 = f64_round False (95 / 100)"
definition lit_099 :: f64 where "lit_099 = f64_round False (99 / 100)"

definition snapshot :: "f64 option \<Rightarrow> MetricsInner \<Rightarrow> MetricsSnapshot option" where
  "snapshot clock m =
     (case (if mi_latencies m \<noteq> []
            then (case sort_by_partial_cmp (mi_latencies m) of
                None \<Rightarrow> None
              | Some sorted_latencies \<Rightarrow>
                  let n = length sorted_latencies
                  in Some (f64_div (f64_sum sorted_latencies) (f64_of_uint (int n)),
                           sorted_latencies ! percentile_index lit_050 n,
                           sorted_latencies ! percentile_index lit_095 n,
                           sorted_latencies ! percentile_index lit_099 n,
                           sorted_latencies ! 0,
                           sorted_latencies ! (n - 1)))
            else Some (0, 0, 0, 0, 0, 0)) of
       None \<Rightarrow> None
     | Some (latency_avg, latency_p50, latency_p95, latency_p99, latency_min, latency_max) \<Rightarrow>
         let rtts = mi_heartbeat_rtts m;
             (heartbeat_rtt_avg, heartbeat_rtt_last) =
               (if rtts \<noteq> [] then (f64_div (f64_sum rtts) (f64_of_uint (int (length rtts))), last rtts)
                else (0, 0))
         in Some
           \<lparr>ms_requests_total = mi_requests_total m, ms_requests_success = mi_requests_success m,
            ms_requests_failed = mi_requests_failed m, ms_latency_avg_ms = latency_avg,
            ms_latency_p50_ms = latency_p50, ms_latency_p95_ms = latency_p95,
            ms_latency_p99_ms = latency_p99, ms_latency_min_ms = latency_min,
            ms_latency_max_ms = latency_max, ms_queue_depth = mi_queue_depth m,
            ms_queue_max_depth = mi_queue_max_depth m,
            ms_circuit_breaker_trips = mi_circuit_breaker_trips m,
            ms_circuit_breaker_state = mi_circuit_breaker_state m,
            ms_heartbeat_rtt_avg_ms = heartbeat_rtt_avg,
            ms_heartbeat_rtt_last_ms = heartbeat_rtt_last,
            ms_heartbeat_misses = mi_heartbeat_misses m, ms_window_seconds = mi_window_seconds m,
            ms_timestamp = (case clock of Some t \<Rightarrow> t | None \<Rightarrow> 0)\<rparr>)"

section \<open>Histories\<close>

text \<open>The operations that callers of the collector may perform, in the order of the lock.\<close>

datatype metrics_op =
    StartRequest
  | EndRequest Duration bool
  | BreakerTrip
  | BreakerReset
  | BreakerHalfOpen
  | HeartbeatRtt f64
  | HeartbeatMiss
  | ResetMetrics

fun metrics_step :: "metrics_op \<Rightarrow> MetricsInner \<Rightarrow> MetricsInner" where
  "metrics_step StartRequest m = start_request m"
| "metrics_step (EndRequest elapsed success) m = snd (end_request elapsed success m)"
| "metrics_step BreakerTrip m = record_circuit_breaker_trip m"
| "metrics_step BreakerReset m = record_circuit_breaker_reset m"
| "metrics_step BreakerHalfOpen m = record_circuit_breaker_half_open m"
| "metrics_step (HeartbeatRtt rtt) m = record_heartbeat_rtt rtt m"
| "metrics_step HeartbeatMiss m = record_heartbeat_miss m"
| "metrics_step ResetMetrics m = reset_metrics m"

definition metrics_run :: "metrics_op list \<Rightarrow> MetricsInner \<Rightarrow> MetricsInner" where
  "metrics_run ops m = fold metrics_step ops m"

end
