(* ===== verification/Client_Metrics_Spec.thy ===== *)
theory Client_Metrics_Spec
  imports Client_Metrics
begin

text \<open>
  What the metrics collector promises: its state is a function of the operations since
  the last reset, its counters balance, and the percentiles of a snapshot are quantiles
  of the recorded latencies.
\<close>

section \<open>The history a collector stands for\<close>

definition since_reset :: "metrics_op list \<Rightarrow> metrics_op list" where
  "since_reset ops = rev (takeWhile (\<lambda>op. op \<noteq> ResetMetrics) (rev ops))"

definition last_n :: "nat \<Rightarrow> 'a list \<Rightarrow> 'a list" where
  "last_n n xs = drop (length xs - n) xs"

definition count_op :: "(metrics_op \<Rightarrow> bool) \<Rightarrow> metrics_op list \<Rightarrow> nat" where
  "count_op P h = length (filter P h)"

fun is_end :: "bool \<Rightarrow> metrics_op \<Rightarrow> bool" where
  "is_end success (EndRequest _ s) \<longleftrightarrow> s = success"
| "is_end success _ \<longleftrightarrow> False"

fun op_latency :: "metrics_op \<Rightarrow> f64 list" where
  "op_latency (EndRequest elapsed _) = [latency_of elapsed]"
| "op_latency _ = []"

fun op_rtt :: "metrics_op \<Rightarrow> f64 list" where
  "op_rtt (HeartbeatRtt rtt) = [rtt]"
| "op_rtt _ = []"

fun op_breaker :: "metrics_op \<Rightarrow> string list" where
  "op_breaker BreakerTrip = [''open'']"
| "op_breaker BreakerReset = [''closed'']"
| "op_breaker BreakerHalfOpen = [''half-open'']"
| "op_breaker _ = []"

text \<open>Requests outstanding: an end without a start does not count.\<close>

fun op_depth :: "metrics_op \<Rightarrow> nat \<Rightarrow> nat" where
  "op_depth StartRequest d = d + 1"
| "op_depth (EndRequest _ _) d = d - 1"
| "op_depth _ d = d"

definition depth :: "metrics_op list \<Rightarrow> nat" where
  "depth h = fold op_depth h 0"

definition peak_depth :: "metrics_op list \<Rightarrow> nat" where
  "peak_depth h = Max ((\<lambda>k. depth (take k h)) ` {..length h})"

definition metrics_of :: "usize \<Rightarrow> f64 \<Rightarrow> metrics_op list \<Rightarrow> MetricsInner" where
  "metrics_of max_latency_samples window_seconds h =
     \<lparr>mi_max_latency_samples = max_latency_samples, mi_window_seconds = window_seconds,
      mi_requests_total = of_nat (count_op (\<lambda>op. op = StartRequest) h),
      mi_requests_success = of_nat (count_op (is_end True) h),
      mi_requests_failed = of_nat (count_op (is_end False) h),
      mi_circuit_breaker_trips = of_nat (count_op (\<lambda>op. op = BreakerTrip) h),
      mi_circuit_breaker_state = last (''closed'' # concat (map op_breaker h)),
      mi_queue_depth = of_nat (depth h), mi_queue_max_depth = of_nat (peak_depth h),
      mi_latencies = last_n (unat max_latency_samples) (concat (map op_latency h)),
      mi_heartbeat_rtts = last_n 100 (concat (map op_rtt h)),
      mi_heartbeat_misses = of_nat (count_op (\<lambda>op. op = HeartbeatMiss) h)\<rparr>"

section \<open>Lemmas\<close>

lemma since_reset_snoc [simp]:
  "since_reset (ops @ [op]) = (if op = ResetMetrics then [] else since_reset ops @ [op])"
  by (simp add: since_reset_def)

lemma length_since_reset: "length (since_reset ops) \<le> length ops"
  by (simp add: since_reset_def) (metis length_rev length_takeWhile_le)

lemma push_bounded_last_n [simp]: "push_bounded n x (last_n n xs) = last_n n (xs @ [x])"
proof (cases "length xs < n")
  case True
  then show ?thesis by (simp add: push_bounded_def last_n_def Let_def)
next
  case False
  show ?thesis
  proof (cases "n = 0")
    case True
    then show ?thesis by (simp add: push_bounded_def last_n_def)
  next
    case n: False
    define k where "k = length xs - n"
    have k: "Suc (length xs) - n = Suc k" "drop k xs \<noteq> []" "length (drop k xs) = n"
      using False n by (simp_all add: k_def)
    then have "push_bounded n x (last_n n xs) = tl (drop k xs) @ [x]"
      by (simp add: push_bounded_def last_n_def Let_def tl_append2 flip: k_def)
    also have "\<dots> = last_n n (xs @ [x])"
      using k(2) by (simp add: last_n_def k(1) drop_Suc tl_drop)
    finally show ?thesis .
  qed
qed

lemma length_last_n: "length (last_n n xs) \<le> n"
  by (simp add: last_n_def)

lemma count_op_snoc [simp]: "count_op P (h @ [op]) = (if P op then 1 else 0) + count_op P h"
  by (simp add: count_op_def)

lemma depth_snoc [simp]: "depth (h @ [op]) = op_depth op (depth h)"
  by (simp add: depth_def)

lemma peak_depth_snoc: "peak_depth (h @ [op]) = max (peak_depth h) (op_depth op (depth h))"
proof -
  have "(\<lambda>k. depth (take k (h @ [op]))) ` {..length (h @ [op])} =
      insert (op_depth op (depth h)) ((\<lambda>k. depth (take k h)) ` {..length h})"
    by (simp add: atMost_Suc)
  then show ?thesis by (simp add: peak_depth_def max.commute)
qed

lemma depth_le_peak: "depth h \<le> peak_depth h"
  by (auto simp: peak_depth_def intro!: Max_ge image_eqI [of _ _ "length h"])

lemma depth_le_length: "depth h \<le> length h"
proof (induction h rule: rev_induct)
  case Nil
  then show ?case by (simp add: depth_def)
next
  case (snoc op h)
  then show ?case by (cases op) auto
qed

lemma depth_le_starts: "depth h \<le> count_op (\<lambda>op. op = StartRequest) h"
proof (induction h rule: rev_induct)
  case Nil
  then show ?case by (simp add: depth_def)
next
  case (snoc op h)
  then show ?case by (cases op) auto
qed

lemma peak_le_starts: "peak_depth h \<le> count_op (\<lambda>op. op = StartRequest) h"
proof -
  have "count_op P (take k h) \<le> count_op P h" for k P
    using append_take_drop_id [of k h] unfolding count_op_def
    by (metis filter_append length_append le_add1)
  then have "depth (take k h) \<le> count_op (\<lambda>op. op = StartRequest) h" for k
    using depth_le_starts [of "take k h"] order_trans by blast
  then show ?thesis by (simp add: peak_depth_def)
qed

lemma peak_le_length: "peak_depth h \<le> length h"
proof -
  have "depth (take k h) \<le> length h" if "k \<le> length h" for k
    using depth_le_length [of "take k h"] that by simp
  then show ?thesis by (simp add: peak_depth_def)
qed

lemma of_nat_max_word:
  assumes "a < 2 ^ 64" "b < 2 ^ 64"
  shows "max (of_nat a) (of_nat b) = (of_nat (max a b) :: usize)"
  using assms by (auto simp: max_def word_le_nat_alt unat_of_nat)

lemma saturating_sub_of_nat:
  assumes "n < 2 ^ 64"
  shows "saturating_sub (of_nat n) 1 = (of_nat (n - 1) :: usize)"
proof -
  have u: "unat (of_nat n :: usize) = n" using assms by (simp add: unat_of_nat)
  then have "(of_nat n :: usize) < 1 \<longleftrightarrow> n = 0" by (simp only: word_less_nat_alt) simp
  then show ?thesis by (cases n) (simp_all add: saturating_sub_def)
qed

lemma metrics_step_history:
  assumes "length h + 1 < 2 ^ 64" "op \<noteq> ResetMetrics"
  shows "metrics_step op (metrics_of cap window h) = metrics_of cap window (h @ [op])"
proof -
  have d: "depth h + 1 < 2 ^ 64" "peak_depth h < 2 ^ 64" "depth h < 2 ^ 64" "max (peak_depth h) (depth h) = peak_depth h"
    "max (peak_depth h) (depth h - 1) = peak_depth h"
    using assms(1) depth_le_length [of h] peak_le_length [of h] depth_le_peak [of h] by simp_all
  have start: "max (of_nat (peak_depth h)) (of_nat (depth h) + 1) = (of_nat (max (peak_depth h) (depth h + 1)) :: usize)"
    using of_nat_max_word [OF d(2,1)] by (simp add: add.commute)
  show ?thesis
    using assms(2) d start
    by (cases op) (auto simp: metrics_of_def start_request_def end_request_def record_circuit_breaker_trip_def
        record_circuit_breaker_reset_def record_circuit_breaker_half_open_def record_heartbeat_rtt_def
        record_heartbeat_miss_def peak_depth_snoc saturating_sub_of_nat Let_def add.commute)
qed

lemma metrics_run_history:
  assumes "length ops < 2 ^ 64"
  shows "metrics_run ops (with_options cap window) = metrics_of cap window (since_reset ops)"
  using assms
proof (induction ops rule: rev_induct)
  case Nil
  then show ?case
    by (simp add: metrics_run_def with_options_def metrics_of_def since_reset_def count_op_def last_n_def
        peak_depth_def depth_def)
next
  case (snoc op ops)
  have run: "metrics_run (ops @ [op]) (with_options cap window) =
      metrics_step op (metrics_of cap window (since_reset ops))"
    using snoc by (simp add: metrics_run_def)
  show ?case
  proof (cases "op = ResetMetrics")
    case True
    then show ?thesis
      unfolding run by (simp add: reset_metrics_def metrics_of_def count_op_def last_n_def peak_depth_def depth_def)
  next
    case False
    then show ?thesis
      unfolding run using snoc.prems length_since_reset [of ops] by (simp add: metrics_step_history)
  qed
qed

text \<open>Every end of a request had a start before it.\<close>

definition bracketed :: "metrics_op list \<Rightarrow> bool" where
  "bracketed h \<longleftrightarrow> (\<forall>k \<le> length h. count_op (is_end True) (take k h) + count_op (is_end False) (take k h)
     \<le> count_op (\<lambda>op. op = StartRequest) (take k h))"

lemma bracketed_snoc:
  "bracketed (h @ [op]) \<longleftrightarrow> bracketed h \<and> count_op (is_end True) (h @ [op]) + count_op (is_end False) (h @ [op])
     \<le> count_op (\<lambda>op. op = StartRequest) (h @ [op])"
proof -
  have "k \<le> length (h @ [op]) \<longleftrightarrow> k \<le> length h \<or> k = Suc (length h)" for k by auto
  then show ?thesis
    unfolding bracketed_def by (auto simp del: count_op_snoc)
qed

lemma bracketed_balance:
  "bracketed h \<Longrightarrow>
    count_op (\<lambda>op. op = StartRequest) h = count_op (is_end True) h + count_op (is_end False) h + depth h"
proof (induction h rule: rev_induct)
  case Nil
  then show ?case by (simp add: count_op_def depth_def)
next
  case (snoc op h)
  then show ?case by (cases op) (auto simp: bracketed_snoc split: if_splits)
qed

lemma count_op_le_length: "count_op P h \<le> length h"
  by (simp add: count_op_def)

section \<open>Latencies are numbers\<close>

lemma f64_constants:
  "\<not> is_nan (f64_of_uint 1000000000)" "\<not> is_infinite (f64_of_uint 1000000000)" "f64_mag (f64_of_uint 1000000000) \<noteq> 0"
  "\<not> f64_neg (f64_of_uint 1000000000)"
  "\<not> is_nan (f64_of_uint 1000)" "\<not> is_infinite (f64_of_uint 1000)" "f64_mag (f64_of_uint 1000) \<noteq> 0"
  by code_simp+

lemma as_secs_f64_number: "\<not> is_nan (as_secs_f64 d)"
proof -
  define x where "x = f64_of_uint (uint (du_secs d))"
  define y where "y = f64_div (f64_of_uint (uint (du_nanos d))) (f64_of_uint 1000000000)"
  have "\<not> is_nan x" "\<not> f64_neg x" by (simp_all add: x_def)
  moreover have "\<not> is_nan y \<and> \<not> f64_neg y"
    unfolding y_def f64_div_def Let_def using f64_constants by (simp add: f64_round_fields)
  ultimately show ?thesis
    unfolding as_secs_f64_def x_def [symmetric] y_def [symmetric] by (simp add: f64_add_def Let_def)
qed

lemma latency_number: "\<not> is_nan (latency_of d)"
  unfolding latency_of_def f64_mul_def Let_def
  using f64_constants as_secs_f64_number [of d]
  by (cases "f64_mag (as_secs_f64 d) = 0") (auto simp: is_infinite_def)

lemma run_latencies_number:
  assumes "length ops < 2 ^ 64"
  shows "\<forall>x \<in> set (mi_latencies (metrics_run ops (with_options cap window))). \<not> is_nan x"
proof -
  have "\<not> is_nan x" if "x \<in> set (concat (map op_latency h))" for x h
  proof -
    from that obtain op where "x \<in> set (op_latency op)" by auto
    then show ?thesis by (cases op) (auto simp: latency_number)
  qed
  then show ?thesis
    using assms by (auto simp: metrics_run_history metrics_of_def last_n_def dest: in_set_dropD)
qed

section \<open>Percentiles\<close>

lemma lit_values: "f64_val lit_050 = 1 / 2" "f64_val lit_095 = 8556839292003942 / 2 ^ 53"
  "f64_val lit_099 = 8917127262193582 / 2 ^ 53"
  by code_simp+

lemma lit_numbers: "\<not> is_nan lit_050" "\<not> is_nan lit_095" "\<not> is_nan lit_099" "\<not> is_infinite lit_050" "\<not> is_infinite lit_095"
  "\<not> is_infinite lit_099" "\<not> f64_neg lit_050" "\<not> f64_neg lit_095" "\<not> f64_neg lit_099"
  by code_simp+

lemma percentile_index_exact:
  assumes n: "1 \<le> n" "n \<le> 2 ^ 40" and lit: "\<not> is_nan l" "\<not> is_infinite l" "\<not> f64_neg l"
    and c: "1 / 2 \<le> f64_val l" "f64_val l \<le> 1" "2 ^ 54 * \<bar>f64_val l - of_nat p / 100\<bar> < f64_val l" and p: "p < 100"
  shows "percentile_index l n = p * n div 100"
proof -
  have "int n \<le> 2 ^ 40" using n(2) by simp
  then have n': "int n \<le> 2 ^ 53" by simp
  note nf = f64_of_uint_exact [OF _ n', simplified]
  have "f64_mul (f64_of_uint (int n)) l = f64_round False (of_nat n * f64_val l)"
    using lit nf c(1) by (simp add: f64_mul_def Let_def abs_mult)
  moreover have "p * n div 100 \<le> n - 1"
  proof -
    have "p * n \<le> 99 * n" using p by simp
    then have "p * n div 100 < n" using n(1) by (simp add: less_mult_imp_div_less)
    then show ?thesis by simp
  qed
  moreover have "int (p * n div 100) \<le> 2 ^ 64 - 1" using calculation(2) n(2) by simp
  ultimately show ?thesis
    using percent_floor [OF n c] c(1)
    by (simp add: percentile_index_def f64_to_usize_def f64_round_fields min_def)
qed

lemma percentile_indices:
  assumes "1 \<le> n" "n \<le> 2 ^ 40"
  shows "percentile_index lit_050 n = 50 * n div 100" "percentile_index lit_095 n = 95 * n div 100"
    "percentile_index lit_099 n = 99 * n div 100"
  using assms lit_numbers by (intro percentile_index_exact; simp add: lit_values)+

section \<open>Ranks in sorted lists\<close>

lemma sorted_rank:
  assumes "sorted (map f ys)" "i < length ys"
  shows "length (filter (\<lambda>y. f y < f (ys ! i)) ys) \<le> i" "i < length (filter (\<lambda>y. f y \<le> f (ys ! i)) ys)"
proof -
  have le: "f (ys ! j) \<le> f (ys ! k)" if "j \<le> k" "k < length ys" for j k
    using sorted_nth_mono [OF assms(1), of j k] that by simp
  have "filter (\<lambda>y. f y < f (ys ! i)) (drop i ys) = []"
    using le assms(2) by (auto simp: filter_empty_conv in_set_conv_nth not_less)
  then have "filter (\<lambda>y. f y < f (ys ! i)) ys = filter (\<lambda>y. f y < f (ys ! i)) (take i ys)"
    by (metis append_Nil2 append_take_drop_id filter_append)
  then show "length (filter (\<lambda>y. f y < f (ys ! i)) ys) \<le> i"
    using length_filter_le [of _ "take i ys"] by (metis le_trans length_take min.cobounded2)
  have "filter (\<lambda>y. f y \<le> f (ys ! i)) (take (Suc i) ys) = take (Suc i) ys"
    using le assms(2) by (auto simp: filter_id_conv in_set_conv_nth)
  then have "length (take (Suc i) ys) \<le> length (filter (\<lambda>y. f y \<le> f (ys ! i)) ys)"
    by (metis append_take_drop_id filter_append length_append le_add1)
  then show "i < length (filter (\<lambda>y. f y \<le> f (ys ! i)) ys)" using assms(2) by simp
qed

lemma length_filter_sort_key: "length (filter P (sort_key f xs)) = length (filter P xs)"
  by (simp add: filter_sort)

text \<open>\<open>x\<close> is a sample, at most \<open>p\<close> percent of the samples are below it, and more are not above it.\<close>

definition quantile :: "nat \<Rightarrow> f64 \<Rightarrow> f64 list \<Rightarrow> bool" where
  "quantile p x xs \<longleftrightarrow> x \<in> set xs \<and>
     length (filter (\<lambda>y. f64_key y < f64_key x) xs) \<le> p * length xs div 100 \<and>
     p * length xs div 100 < length (filter (\<lambda>y. f64_key y \<le> f64_key x) xs)"

lemma sort_quantile:
  assumes "i = p * length xs div 100" "i < length xs"
  shows "quantile p (sort_key f64_key xs ! i) xs"
proof -
  have s: "sorted (map f64_key (sort_key f64_key xs))" by (rule sorted_sort_key)
  have i: "i < length (sort_key f64_key xs)" using assms(2) by simp
  then have "sort_key f64_key xs ! i \<in> set xs" using nth_mem [OF i] by simp
  then show ?thesis
    using sorted_rank [OF s i] assms(1) by (simp add: quantile_def length_filter_sort_key)
qed

lemma sort_key_nth_mono:
  "i \<le> j \<Longrightarrow> j < length xs \<Longrightarrow> f64_key (sort_key f64_key xs ! i) \<le> f64_key (sort_key f64_key xs ! j)"
  using sorted_nth_mono [OF sorted_sort_key [of f64_key xs], of i j] by simp

lemma snapshot_quantiles:
  fixes cap :: usize and window :: f64 and ops :: "metrics_op list"
  defines "m \<equiv> metrics_run ops (with_options cap window)"
  assumes "length ops < 2 ^ 64" and "mi_latencies m \<noteq> []" and "length (mi_latencies m) \<le> 2 ^ 40"
  shows "\<exists>s. snapshot clock m = Some s \<and>
    quantile 50 (ms_latency_p50_ms s) (mi_latencies m) \<and> quantile 95 (ms_latency_p95_ms s) (mi_latencies m) \<and>
    quantile 99 (ms_latency_p99_ms s) (mi_latencies m) \<and>
    list_all (\<lambda>x. f64_key (ms_latency_min_ms s) \<le> f64_key x \<and> f64_key x \<le> f64_key (ms_latency_max_ms s)) (mi_latencies m) \<and>
    sorted (map f64_key [ms_latency_min_ms s, ms_latency_p50_ms s, ms_latency_p95_ms s, ms_latency_p99_ms s, ms_latency_max_ms s])"
proof -
  define xs where "xs = mi_latencies m"
  define n where "n = length xs"
  define ys where "ys = sort_key f64_key xs"
  have n: "1 \<le> n" "n \<le> 2 ^ 40" using assms(3,4) by (simp_all add: n_def xs_def Suc_le_eq)
  have "\<not> list_ex is_nan xs"
    using run_latencies_number [OF assms(2), of cap window] by (auto simp: xs_def m_def list_ex_iff)
  then have sort: "sort_by_partial_cmp xs = Some ys" by (simp add: sort_by_partial_cmp_def ys_def)
  note idx = percentile_indices [OF n]
  have lt: "50 * n div 100 < n" "95 * n div 100 < n" "99 * n div 100 < n"
    "50 * n div 100 \<le> 95 * n div 100" "95 * n div 100 \<le> 99 * n div 100" "99 * n div 100 \<le> n - 1"
    using n(1) by (auto intro: div_le_mono)
  obtain s where s: "snapshot clock m = Some s" "ms_latency_p50_ms s = ys ! (50 * n div 100)"
    "ms_latency_p95_ms s = ys ! (95 * n div 100)" "ms_latency_p99_ms s = ys ! (99 * n div 100)"
    "ms_latency_min_ms s = ys ! 0" "ms_latency_max_ms s = ys ! (n - 1)"
    using assms(3) sort idx by (simp add: snapshot_def ys_def n_def Let_def split_beta flip: xs_def)
  have "quantile 50 (ys ! (50 * n div 100)) xs" "quantile 95 (ys ! (95 * n div 100)) xs"
    "quantile 99 (ys ! (99 * n div 100)) xs"
    using lt by (auto simp: ys_def n_def intro!: sort_quantile)
  moreover have "f64_key (ys ! 0) \<le> f64_key x \<and> f64_key x \<le> f64_key (ys ! (n - 1))" if x: "x \<in> set xs" for x
  proof -
    from x have "x \<in> set ys" by (simp add: ys_def)
    moreover have "length ys = n" by (simp add: ys_def n_def)
    ultimately obtain i where "i < n" "x = ys ! i" unfolding in_set_conv_nth by auto
    then show ?thesis using sort_key_nth_mono [of 0 i xs] sort_key_nth_mono [of i "n - 1" xs]
      by (simp add: ys_def n_def)
  qed
  moreover have "sorted (map f64_key [ys ! 0, ys ! (50 * n div 100), ys ! (95 * n div 100), ys ! (99 * n div 100), ys ! (n - 1)])"
  proof -
    have "f64_key (ys ! i) \<le> f64_key (ys ! j)" if "i \<le> j" "j < n" for i j
      using sort_key_nth_mono [of i j xs] that by (simp add: ys_def n_def)
    then show ?thesis using lt n(1) by auto
  qed
  ultimately show ?thesis
    by (intro exI [of _ s]) (auto simp: s list_all_iff simp flip: xs_def)
qed

section \<open>Properties\<close>

text \<open>
  C13: the state of the collector is a function of what was recorded since the last reset.
  After any sequence of operations, every counter is the number of the operations it
  counts, the queue depth and its maximum are those of the starts and ends in order, the
  breaker state is that of the last breaker event, and the two sample buffers hold exactly
  the most recent samples, as many as the configured bound and 100.
\<close>

theorem metrics_refine_history:
  assumes "length ops < 2 ^ 64"
  shows "metrics_run ops (with_options cap window) = metrics_of cap window (since_reset ops)"
  using assms by (rule metrics_run_history)

theorem metrics_refine_history_witness:
  "mi_latencies (metrics_run [StartRequest, ResetMetrics, StartRequest, StartRequest,
       EndRequest \<lparr>du_secs = 1, du_nanos = 0\<rparr> True, EndRequest \<lparr>du_secs = 2, du_nanos = 500000000\<rparr> False,
       EndRequest \<lparr>du_secs = 3, du_nanos = 0\<rparr> True] (with_options 2 0)) =
     [f64_of_uint 2500, f64_of_uint 3000]"
proof -
  have "latency_of \<lparr>du_secs = 2, du_nanos = 500000000\<rparr> = f64_of_uint 2500"
    "latency_of \<lparr>du_secs = 3, du_nanos = 0\<rparr> = f64_of_uint 3000"
    by code_simp+
  then show ?thesis
    by (subst metrics_refine_history) (simp_all add: metrics_of_def since_reset_def last_n_def)
qed

text \<open>
  The counters balance. If since the last reset every end of a request had its start,
  then the requests started are those that succeeded, those that failed and those in the
  queue; and no buffer is ever longer than its bound.
\<close>

theorem counters_balance:
  fixes cap :: usize and window :: f64 and ops :: "metrics_op list"
  defines "m \<equiv> metrics_run ops (with_options cap window)"
  assumes "length ops < 2 ^ 64" and "bracketed (since_reset ops)"
  shows "unat (mi_requests_total m) =
      unat (mi_requests_success m) + unat (mi_requests_failed m) + unat (mi_queue_depth m) \<and>
    mi_queue_depth m \<le> mi_queue_max_depth m \<and> mi_queue_max_depth m \<le> mi_requests_total m \<and>
    length (mi_latencies m) \<le> unat cap \<and> length (mi_heartbeat_rtts m) \<le> 100"
proof -
  define h where "h = since_reset ops"
  have m: "m = metrics_of cap window h" using metrics_run_history [OF assms(2)] by (simp add: m_def h_def)
  have len: "length h < 2 ^ 64" using length_since_reset [of ops] assms(2) by (simp add: h_def)
  have u: "unat (of_nat k :: usize) = k" if "k \<le> length h" for k
    using that len by (simp add: unat_of_nat)
  have le: "(of_nat j :: usize) \<le> of_nat k" if "j \<le> k" "k \<le> length h" for j k
    using that u [of j] u [of k] by (simp add: word_le_nat_alt)
  define a where "a = count_op (\<lambda>op. op = StartRequest) h"
  have a: "a \<le> length h" "peak_depth h \<le> a" by (simp_all add: a_def count_op_le_length peak_le_starts)
  have balance: "a = count_op (is_end True) h + count_op (is_end False) h + depth h"
    using bracketed_balance [of h] assms(3) by (simp add: a_def h_def)
  have fields: "mi_requests_total m = of_nat a" "mi_requests_success m = of_nat (count_op (is_end True) h)"
    "mi_requests_failed m = of_nat (count_op (is_end False) h)" "mi_queue_depth m = of_nat (depth h)"
    "mi_queue_max_depth m = of_nat (peak_depth h)"
    by (simp_all add: m metrics_of_def a_def)
  have "unat (mi_requests_total m) =
      unat (mi_requests_success m) + unat (mi_requests_failed m) + unat (mi_queue_depth m)"
    unfolding fields using balance a(1) depth_le_length [of h] by (simp only: u count_op_le_length)
  moreover have "mi_queue_depth m \<le> mi_queue_max_depth m" "mi_queue_max_depth m \<le> mi_requests_total m"
    unfolding fields using a peak_le_length [of h] depth_le_peak [of h] by (simp_all only: le)
  moreover have "length (mi_latencies m) \<le> unat cap" "length (mi_heartbeat_rtts m) \<le> 100"
    by (simp_all add: m metrics_of_def length_last_n)
  ultimately show ?thesis by blast
qed

theorem counters_balance_witness:
  "let m = metrics_run [StartRequest, StartRequest, EndRequest \<lparr>du_secs = 1, du_nanos = 0\<rparr> False] (with_options 2 0)
   in unat (mi_requests_total m) =
      unat (mi_requests_success m) + unat (mi_requests_failed m) + unat (mi_queue_depth m) \<and>
      mi_queue_depth m = 1"
proof -
  define ops where "ops = [StartRequest, StartRequest, EndRequest \<lparr>du_secs = 1, du_nanos = 0\<rparr> False]"
  have "bracketed (since_reset ops)"
    by (auto simp: bracketed_def since_reset_def ops_def count_op_def take_Cons' split: if_splits)
  then show ?thesis
    using counters_balance [of ops 2 0]
    by (simp add: Let_def ops_def metrics_run_def start_request_def end_request_def with_options_def saturating_sub_def)
qed

text \<open>
  C27: a snapshot always succeeds and its percentiles are quantiles of the latencies kept.
  With at most 2 to the 40 samples, minimum and maximum are the least and the greatest
  sample, at most 50, 95 and 99 percent of the samples (rounded down exactly, despite the
  floating-point product) lie below the respective percentile and more do not lie above
  it, and the five figures are in order.
\<close>

theorem snapshot_percentiles:
  fixes cap :: usize and window :: f64 and ops :: "metrics_op list"
  defines "m \<equiv> metrics_run ops (with_options cap window)"
  assumes "length ops < 2 ^ 64" and "mi_latencies m \<noteq> []" and "length (mi_latencies m) \<le> 2 ^ 40"
  shows "\<exists>s. snapshot clock m = Some s \<and>
    quantile 50 (ms_latency_p50_ms s) (mi_latencies m) \<and> quantile 95 (ms_latency_p95_ms s) (mi_latencies m) \<and>
    quantile 99 (ms_latency_p99_ms s) (mi_latencies m) \<and>
    list_all (\<lambda>x. f64_key (ms_latency_min_ms s) \<le> f64_key x \<and> f64_key x \<le> f64_key (ms_latency_max_ms s)) (mi_latencies m) \<and>
    sorted (map f64_key [ms_latency_min_ms s, ms_latency_p50_ms s, ms_latency_p95_ms s, ms_latency_p99_ms s, ms_latency_max_ms s])"
  using assms(2-4) unfolding m_def by (rule snapshot_quantiles)

theorem snapshot_percentiles_witness:
  "let m = metrics_run [StartRequest, EndRequest \<lparr>du_secs = 1, du_nanos = 0\<rparr> True] (with_options 2 0)
   in \<exists>s. snapshot None m = Some s \<and> quantile 95 (ms_latency_p95_ms s) [f64_of_uint 1000]"
proof -
  define ops where "ops = [StartRequest, EndRequest \<lparr>du_secs = 1, du_nanos = 0\<rparr> True]"
  have "latency_of \<lparr>du_secs = 1, du_nanos = 0\<rparr> = f64_of_uint 1000" by code_simp
  then have "mi_latencies (metrics_run ops (with_options 2 0)) = [f64_of_uint 1000]"
    by (simp add: ops_def metrics_run_def start_request_def end_request_def with_options_def push_bounded_def Let_def)
  then show ?thesis
    using snapshot_percentiles [of ops 2 0 None] by (auto simp: Let_def ops_def)
qed

end
