(* ===== verification/Float64_Order.thy ===== *)
theory Float64_Order
  imports Float64
begin

text \<open>
  Order, lower bounds and errors of floating-point results: rounding to \<open>f64\<close> and the value
  of a pattern are monotone, sums and quotients of numbers above a bound stay above one,
  and rounding has a relative error of at most \<open>2 ^ -53\<close>.
\<close>

section \<open>Rounding is monotone\<close>

lemma round_even_mono:
  assumes "p \<le> q"
  shows "round_even p \<le> round_even q"
proof (cases "\<lfloor>p\<rfloor> = \<lfloor>q\<rfloor>")
  case True
  then show ?thesis using assms by (auto simp: round_even_def Let_def)
next
  case False
  then have "\<lfloor>p\<rfloor> + 1 \<le> \<lfloor>q\<rfloor>" using floor_mono [OF assms] by linarith
  moreover have "round_even p \<le> \<lfloor>p\<rfloor> + 1" "\<lfloor>q\<rfloor> \<le> round_even q" by (simp_all add: round_even_def Let_def)
  ultimately show ?thesis by linarith
qed

lemma flog2_mono:
  assumes "0 < p" "p \<le> q"
  shows "flog2 p \<le> flog2 q"
proof -
  have "(2 :: rat) powi flog2 p < 2 powi (flog2 q + 1)"
    using flog2_bounds(1) [of p] flog2_bounds(2) [of q] assms by linarith
  then show ?thesis unfolding powi_less_iff by simp
qed

text \<open>The exponent and the magnitude to which a positive number is rounded.\<close>

definition round_exp :: "rat \<Rightarrow> int" where
  "round_exp q = max (-1074) (flog2 q - 52)"

definition round_mag :: "rat \<Rightarrow> int" where
  "round_mag q = (if q = 0 then 0 else round_even (q / 2 powi round_exp q) + (round_exp q + 1074) * 2 ^ 52)"

lemma round_mag_nonneg:
  assumes "0 \<le> q"
  shows "0 \<le> round_mag q"
proof -
  have "0 \<le> round_exp q + 1074" by (simp add: round_exp_def)
  then show ?thesis using assms by (simp add: round_mag_def)
qed

lemma f64_round_mag:
  assumes "0 \<le> q"
  shows "f64_mag (f64_round neg q) = min f64_inf_mag (round_mag q)"
proof -
  have "f64_round neg q = f64_make neg (min f64_inf_mag (round_mag q))"
    by (simp add: f64_round_def round_mag_def round_exp_def Let_def)
  moreover have "0 \<le> min f64_inf_mag (round_mag q)" "min f64_inf_mag (round_mag q) < 2 ^ 63"
    using round_mag_nonneg [OF assms] by simp_all
  ultimately show ?thesis by (simp only: f64_make_fields)
qed

lemma scaled_bounds:
  assumes "0 < q"
  shows "q / 2 powi round_exp q \<le> of_int (2 ^ 53)"
    and "-1074 < round_exp q \<Longrightarrow> of_int (2 ^ 52) \<le> q / 2 powi round_exp q"
proof -
  define e where "e = round_exp q"
  have "flog2 q + 1 \<le> 53 + e" by (auto simp: e_def round_exp_def)
  then have "(2 :: rat) powi (flog2 q + 1) \<le> 2 powi (53 + e)" by (intro power_int_increasing) simp_all
  then have "q \<le> 2 powi (53 + e)" using flog2_bounds(2) [OF assms] by linarith
  then show "q / 2 powi round_exp q \<le> of_int (2 ^ 53)"
    unfolding e_def [symmetric] by (simp add: power_int_add pos_divide_le_eq)
  assume "-1074 < round_exp q"
  then have "flog2 q = 52 + e" by (auto simp: e_def round_exp_def max_def split: if_splits)
  then have "2 powi (52 + e) \<le> q" using flog2_bounds(1) [OF assms] by simp
  then show "of_int (2 ^ 52) \<le> q / 2 powi round_exp q"
    unfolding e_def [symmetric] by (simp add: power_int_add pos_le_divide_eq)
qed

lemma round_mag_mono:
  assumes "0 \<le> p" "p \<le> q"
  shows "round_mag p \<le> round_mag q"
proof (cases "p = 0")
  case True
  then show ?thesis using round_mag_nonneg [of q] assms by (simp add: round_mag_def)
next
  case False
  then have p: "0 < p" and q: "0 < q" using assms by simp_all
  have e: "round_exp p \<le> round_exp q" using flog2_mono [OF p assms(2)] by (simp add: round_exp_def)
  show ?thesis
  proof (cases "round_exp p = round_exp q")
    case True
    then have "round_even (p / 2 powi round_exp p) \<le> round_even (q / 2 powi round_exp q)"
      using assms(2) by (intro round_even_mono) (simp add: divide_right_mono)
    then show ?thesis using True p q by (simp add: round_mag_def)
  next
    case False
    then have less: "round_exp p + 1 \<le> round_exp q" using e by simp
    then have "- 1074 < round_exp q" by (simp add: round_exp_def)
    then have hi: "2 ^ 52 \<le> round_even (q / 2 powi round_exp q)"
      using round_even_bounds(1) [OF scaled_bounds(2) [OF q] scaled_bounds(1) [OF q]] by simp
    have "0 \<le> p / 2 powi round_exp p" using p by simp
    then have lo: "round_even (p / 2 powi round_exp p) \<le> 2 ^ 53"
      using round_even_bounds(2) [of 0 _ "2 ^ 53"] scaled_bounds(1) [OF p] by simp
    have "(round_exp p + 1 + 1074) * 2 ^ 52 \<le> (round_exp q + 1074) * 2 ^ 52"
      using less by (intro mult_right_mono) simp_all
    then show ?thesis using hi lo p q by (simp add: round_mag_def algebra_simps)
  qed
qed

lemma f64_round_mono: "0 \<le> p \<Longrightarrow> p \<le> q \<Longrightarrow> f64_mag (f64_round m p) \<le> f64_mag (f64_round n q)"
  using round_mag_mono [of p q] by (simp add: f64_round_mag min_def)

section \<open>Values are monotone\<close>

lemma mag_val_exponent:
  assumes "0 \<le> m" "m div 2 ^ 52 = e"
  shows "mag_val m \<le> 2 ^ 53 * 2 powi (max 1 e - 1075)" and "1 \<le> e \<Longrightarrow> 2 ^ 52 * 2 powi (e - 1075) \<le> mag_val m"
proof -
  have m: "m = e * 2 ^ 52 + m mod 2 ^ 52" using assms(2) by (metis div_mult_mod_eq)
  have r: "0 \<le> m mod 2 ^ 52" "m mod 2 ^ 52 < 2 ^ 52" by simp_all
  have e0: "0 \<le> e" using assms by (metis pos_imp_zdiv_nonneg_iff zero_less_numeral zero_less_power)
  show "mag_val m \<le> 2 ^ 53 * 2 powi (max 1 e - 1075)"
  proof (cases "e = 0")
    case True
    then have "mag_val m \<le> of_int (2 ^ 53) * 2 powi (-1074)"
      using assms r m by (auto simp: mag_val_def intro!: mult_right_mono)
    then show ?thesis using True by simp
  next
    case False
    then have "mag_val m = of_int (m mod 2 ^ 52 + 2 ^ 52) * 2 powi (e - 1075)"
      using assms(2) m by (auto simp: mag_val_def)
    also have "\<dots> \<le> of_int (2 ^ 53) * 2 powi (e - 1075)"
      using r by (intro mult_right_mono) (simp_all del: of_int_add)
    finally show ?thesis using False e0 by (simp add: max_def)
  qed
  assume "1 \<le> e"
  then have "mag_val m = of_int (m mod 2 ^ 52 + 2 ^ 52) * 2 powi (e - 1075)"
    using assms(2) m by (auto simp: mag_val_def)
  moreover have "of_int (2 ^ 52) * 2 powi (e - 1075) \<le> of_int (m mod 2 ^ 52 + 2 ^ 52) * (2 :: rat) powi (e - 1075)"
    using r by (intro mult_right_mono) (simp_all del: of_int_add)
  ultimately show "2 ^ 52 * 2 powi (e - 1075) \<le> mag_val m" by simp
qed

lemma mag_val_mono:
  assumes "0 \<le> m" "m \<le> n"
  shows "mag_val m \<le> mag_val n"
proof (cases "m div 2 ^ 52 = n div 2 ^ 52")
  case True
  then have "n div 2 ^ 52 * 2 ^ 52 + m mod 2 ^ 52 \<le> n div 2 ^ 52 * 2 ^ 52 + n mod 2 ^ 52"
    using assms(2) by (metis div_mult_mod_eq)
  then have "m mod 2 ^ 52 \<le> n mod 2 ^ 52" by (rule add_le_imp_le_left)
  then show ?thesis
    using True assms by (auto simp: mag_val_def intro!: mult_right_mono)
next
  case False
  define d e where "d = m div 2 ^ 52" and "e = n div 2 ^ 52"
  have "d \<le> e" unfolding d_def e_def using assms(2) by (rule zdiv_mono1) simp
  then have de: "d + 1 \<le> e" using False by (simp add: d_def e_def)
  have d0: "0 \<le> d" using assms(1) by (simp add: d_def pos_imp_zdiv_nonneg_iff)
  show ?thesis
  proof (cases "d = 0 \<and> e = 1")
    case True
    then have "m < 2 ^ 52" using assms(1) by (auto simp: d_def zdiv_eq_0_iff)
    then have "mag_val m \<le> of_int (2 ^ 52) * 2 powi (-1074)"
      using True assms(1) by (auto simp: mag_val_def d_def intro!: mult_right_mono)
    also have "\<dots> \<le> mag_val n" using mag_val_exponent(2) [of n e] True assms by (simp add: e_def)
    finally show ?thesis .
  next
    case False
    have "mag_val m \<le> 2 ^ 53 * 2 powi (max 1 d - 1075)" using assms(1) by (intro mag_val_exponent) (simp_all add: d_def)
    also have "\<dots> = 2 ^ 52 * 2 powi (max 1 d + 1 - 1075)" by (simp add: power_int_add power_int_diff)
    also have "\<dots> \<le> 2 ^ 52 * 2 powi (e - 1075)"
      using False de d0 by (intro mult_left_mono power_int_increasing) auto
    also have "\<dots> \<le> mag_val n" using de d0 assms by (intro mag_val_exponent) (simp_all add: e_def)
    finally show ?thesis .
  qed
qed

section \<open>Arithmetic on numbers that are not negative\<close>

text \<open>A finite number with sign bit 0, and the order of \<open>partial_cmp\<close>.\<close>

definition f64_pos :: "f64 \<Rightarrow> bool" where
  "f64_pos x \<longleftrightarrow> \<not> f64_neg x \<and> f64_mag x < f64_inf_mag"

definition f64_le :: "f64 \<Rightarrow> f64 \<Rightarrow> bool" where
  "f64_le x y \<longleftrightarrow> \<not> is_nan x \<and> \<not> is_nan y \<and> f64_key x \<le> f64_key y"

definition f64_less :: "f64 \<Rightarrow> f64 \<Rightarrow> bool" where
  "f64_less x y \<longleftrightarrow> \<not> is_nan x \<and> \<not> is_nan y \<and> f64_key x < f64_key y"

lemma f64_posD:
  "f64_pos x \<Longrightarrow> \<not> is_nan x" "f64_pos x \<Longrightarrow> \<not> is_infinite x" "f64_pos x \<Longrightarrow> \<not> f64_neg x"
  "f64_pos x \<Longrightarrow> f64_key x = f64_mag x"
  by (simp_all add: f64_pos_def is_nan_def is_infinite_def f64_key_def)

lemma f64_mag_nonneg [simp]: "0 \<le> f64_mag x"
  by (simp add: f64_mag_def)

lemma mag_val_nonneg: "0 \<le> m \<Longrightarrow> 0 \<le> mag_val m"
  using mag_val_mono [of 0 m] by (simp add: mag_val_def)

lemma f64_val_pos: "f64_pos x \<Longrightarrow> 0 \<le> f64_val x"
  by (simp add: f64_val_def f64_pos_def mag_val_nonneg)

lemma f64_val_mono: "f64_pos x \<Longrightarrow> f64_pos y \<Longrightarrow> f64_mag x \<le> f64_mag y \<Longrightarrow> f64_val x \<le> f64_val y"
  by (simp add: f64_val_def f64_pos_def mag_val_mono)

lemma f64_pos_below: "f64_pos y \<Longrightarrow> \<not> f64_neg x \<Longrightarrow> f64_mag x \<le> f64_mag y \<Longrightarrow> f64_pos x"
  by (simp add: f64_pos_def)

text \<open>Rounding below a bound whose rounding is finite.\<close>

lemma f64_round_pos: "0 \<le> q \<Longrightarrow> q \<le> b \<Longrightarrow> f64_pos (f64_round False b) \<Longrightarrow> f64_pos (f64_round False q)"
  using f64_round_mono [of q b False False] by (auto simp: f64_pos_def f64_round_fields)

lemma f64_add_pos:
  assumes "f64_pos x" "f64_pos y"
  shows "f64_add x y = f64_round False (f64_val x + f64_val y)"
  using assms f64_val_pos [of x] f64_val_pos [of y] by (simp add: f64_add_def Let_def f64_posD)

lemma f64_mul_pos:
  assumes "f64_pos x" "f64_pos y"
  shows "f64_mul x y = f64_round False (f64_val x * f64_val y)"
  using assms f64_val_pos [of x] f64_val_pos [of y] by (simp add: f64_mul_def Let_def f64_posD)

lemma f64_div_pos:
  assumes "f64_pos x" "f64_pos y" "f64_mag y \<noteq> 0"
  shows "f64_div x y = f64_round False (f64_val x / f64_val y)"
  using assms f64_val_pos [of x] f64_val_pos [of y] by (simp add: f64_div_def Let_def f64_posD)

lemma f64_round_val_mono:
  assumes "0 \<le> p" "p \<le> q" "f64_pos (f64_round False q)"
  shows "f64_val (f64_round False p) \<le> f64_val (f64_round False q)"
  using assms f64_round_pos [OF assms] f64_round_mono [OF assms(1,2)] by (intro f64_val_mono) simp_all

section \<open>Lower bounds\<close>

text \<open>\<open>x\<close> is at least the number \<open>q\<close>, possibly infinite.\<close>

definition f64_ge :: "rat \<Rightarrow> f64 \<Rightarrow> bool" where
  "f64_ge q x \<longleftrightarrow> \<not> is_nan x \<and> \<not> f64_neg x \<and> (is_infinite x \<or> q \<le> f64_val x)"

text \<open>\<open>q\<close> is a positive number that an \<open>f64\<close> represents exactly.\<close>

definition f64_exact :: "rat \<Rightarrow> bool" where
  "f64_exact q \<longleftrightarrow> 0 < q \<and> f64_pos (f64_round False q) \<and> f64_val (f64_round False q) = q"

lemma f64_ge_number: "f64_ge q x \<Longrightarrow> \<not> is_nan x"
  by (simp add: f64_ge_def)

lemma f64_finite_pos: "\<not> is_nan x \<Longrightarrow> \<not> f64_neg x \<Longrightarrow> \<not> is_infinite x \<Longrightarrow> f64_pos x"
  by (simp add: f64_pos_def is_nan_def is_infinite_def)

lemma f64_ge_round:
  assumes "f64_exact q" "q \<le> p"
  shows "f64_ge q (f64_round False p)"
proof -
  have p: "0 \<le> p" "0 \<le> q" using assms by (auto simp: f64_exact_def)
  show ?thesis
  proof (cases "is_infinite (f64_round False p)")
    case False
    then have "f64_pos (f64_round False p)" using p by (intro f64_finite_pos) (simp_all add: f64_round_fields)
    then have "f64_val (f64_round False q) \<le> f64_val (f64_round False p)"
      using assms p by (intro f64_round_val_mono)
    then show ?thesis using assms p by (simp add: f64_ge_def f64_exact_def f64_round_fields)
  qed (simp add: f64_ge_def p f64_round_fields)
qed

lemma f64_ge_add:
  assumes q: "f64_exact q" and x: "f64_ge q x" and y: "f64_ge q y"
  shows "f64_ge q (f64_add x y)"
proof (cases "is_infinite x \<or> is_infinite y")
  case True
  then show ?thesis using x y by (auto simp: f64_add_def f64_ge_def)
next
  case False
  then have "f64_pos x" "f64_pos y" "q \<le> f64_val x" "q \<le> f64_val y"
    using x y by (auto simp: f64_ge_def intro: f64_finite_pos)
  then show ?thesis using q by (simp add: f64_add_pos f64_ge_round f64_exact_def)
qed

text \<open>The sum starts from negative zero.\<close>

lemma f64_ge_add_zero:
  assumes q: "f64_exact q" and x: "f64_ge q x"
  shows "f64_ge q (f64_add (f64_make True 0) x)"
proof -
  have z: "\<not> is_nan (f64_make True 0)" "\<not> is_infinite (f64_make True 0)" "f64_val (f64_make True 0) = 0"
    by (simp_all add: is_infinite_def f64_val_def mag_val_def)
  show ?thesis
  proof (cases "is_infinite x")
    case True
    then show ?thesis using x z by (auto simp: f64_add_def f64_ge_def)
  next
    case False
    then have v: "q \<le> f64_val x" "0 < f64_val x" using x q by (auto simp: f64_ge_def f64_exact_def)
    then have "f64_add (f64_make True 0) x = f64_round False (f64_val x)"
      using x z False by (simp add: f64_add_def f64_ge_def Let_def)
    then show ?thesis using f64_ge_round [OF q v(1)] by simp
  qed
qed

lemma f64_ge_div:
  assumes "f64_ge q x" "f64_exact r" "0 < n" "n \<le> 2 ^ 53" "r * of_int n \<le> q"
  shows "f64_ge r (f64_div x (f64_of_uint n))"
proof -
  have n: "f64_val (f64_of_uint n) = of_int n" "\<not> is_infinite (f64_of_uint n)"
    using f64_of_uint_exact [of n] assms(3,4) by simp_all
  then have pos: "f64_pos (f64_of_uint n)" using assms(3) by (intro f64_finite_pos) simp_all
  have mag: "f64_mag (f64_of_uint n) \<noteq> 0"
    using n(1) assms(3) by (auto simp: f64_val_def mag_val_def)
  show ?thesis
  proof (cases "is_infinite x")
    case True
    then show ?thesis using assms(1,3) n(2) by (simp add: f64_div_def f64_ge_def Let_def is_infinite_def)
  next
    case False
    then have x: "f64_pos x" "q \<le> f64_val x" using assms(1) by (auto simp: f64_ge_def intro: f64_finite_pos)
    have "r * of_int n \<le> f64_val x" using x(2) assms(5) by simp
    then have "r \<le> f64_val x / of_int n" using assms(3) by (simp add: pos_le_divide_eq)
    then show ?thesis using f64_ge_round [OF assms(2)] by (simp add: f64_div_pos [OF x(1) pos mag] n(1))
  qed
qed

lemma f64_ge_less:
  assumes "0 < q" "f64_ge q x"
  shows "f64_less 0 x"
proof -
  have "0 < f64_mag x"
  proof (rule ccontr)
    assume "\<not> 0 < f64_mag x"
    then have "f64_mag x = 0" using f64_mag_nonneg [of x] by simp
    then show False using assms by (auto simp: f64_ge_def is_infinite_def f64_val_def mag_val_def)
  qed
  moreover have "\<not> is_nan 0" "f64_key 0 = 0" by (simp_all add: is_nan_def f64_key_def f64_mag_def f64_neg_def)
  ultimately show ?thesis using assms(2) by (simp add: f64_less_def f64_ge_def f64_key_def)
qed

section \<open>Relative errors\<close>

text \<open>\<open>x\<close> is \<open>q\<close> up to the relative error \<open>\<epsilon>\<close>.\<close>

definition approx :: "rat \<Rightarrow> rat \<Rightarrow> rat \<Rightarrow> bool" where
  "approx eps q x \<longleftrightarrow> \<bar>x - q\<bar> \<le> eps * q"

lemma approx_mono: "approx d q x \<Longrightarrow> d \<le> eps \<Longrightarrow> 0 \<le> q \<Longrightarrow> approx eps q x"
  using mult_right_mono [of d eps q] by (simp add: approx_def)

lemma approx_add: "approx eps a x \<Longrightarrow> approx eps b y \<Longrightarrow> approx eps (a + b) (x + y)"
  by (simp add: approx_def algebra_simps)

lemma approx_scale: "approx eps q x \<Longrightarrow> 0 \<le> c \<Longrightarrow> approx eps (q * c) (x * c)"
  using mult_right_mono [of "\<bar>x - q\<bar>" "eps * q" c] by (simp add: approx_def abs_mult left_diff_distrib [symmetric] mult.assoc)

lemma approx_trans:
  assumes "approx d q x" "approx u x y" "0 \<le> u"
  shows "approx (d + u + u * d) q y"
proof -
  have "u * x \<le> u * (q + d * q)" using assms(1,3) by (intro mult_left_mono) (auto simp: approx_def)
  then show ?thesis using assms(1,2) by (auto simp: approx_def algebra_simps abs_le_iff)
qed

lemma approx_lower: "approx eps q x \<Longrightarrow> eps \<le> 1 / 2 \<Longrightarrow> 0 \<le> q \<Longrightarrow> q / 2 \<le> x"
  using mult_right_mono [of eps "1 / 2" q] by (auto simp: approx_def abs_le_iff)

text \<open>Rounding a number of ordinary size has relative error at most \<open>2 ^ -53\<close>.\<close>

lemma round_approx:
  assumes "q = 0 \<or> 2 powi (-1000) \<le> q" "q < 2 powi 1000"
  shows "approx (1 / 2 ^ 53) q (f64_val (f64_round False q))"
proof (cases "q = 0")
  case True
  then show ?thesis by (simp add: approx_def f64_round_def f64_val_def mag_val_def)
next
  case False
  then have q: "2 powi (-1000) \<le> q" using assms(1) by simp
  then have pos: "0 < q" using zero_less_power_int [of "2 :: rat" "-1000"] by linarith
  define e where "e = flog2 q - 52"
  define p :: rat where "p = 2 powi e"
  have p: "0 < p" by (simp add: p_def)
  have "f64_val (f64_round False q) = of_int (round_even (q / p)) * p"
    using f64_round_normal(1) [OF q assms(2)] by (simp add: e_def p_def)
  then have "f64_val (f64_round False q) - q = (of_int (round_even (q / p)) - q / p) * p"
    using p by (simp add: left_diff_distrib)
  then have "\<bar>f64_val (f64_round False q) - q\<bar> \<le> 1 / 2 * p"
    using round_even_near [of "q / p"] p by (simp add: abs_mult)
  moreover have "p * 2 ^ 52 \<le> q"
    using flog2_bounds(1) [OF pos] by (simp add: p_def e_def power_int_diff)
  ultimately show ?thesis by (simp add: approx_def)
qed

lemma powi_bounds: "2 powi (-1000) \<le> (1 / 2 ^ 40 :: rat)" "(2 ^ 80 :: rat) < 2 powi 1000"
  using powi_less_iff [of "-1000" "-40"] powi_less_iff [of 80 1000] by (simp_all add: power_int_minus field_simps)

lemma size_ok: "q = 0 \<or> 1 / 2 ^ 40 \<le> q \<Longrightarrow> q = 0 \<or> 2 powi (-1000) \<le> (q :: rat)"
  using powi_bounds(1) by linarith

end
