(* ===== verification/Client_Latency.thy ===== *)
theory Client_Latency
  imports Client_Metrics_Spec Float64_Order
begin

text \<open>
  The latency that rust/src/metrics.rs computes from a duration: it is monotone in the
  measured time, accurate to a relative error of \<open>2 ^ -50\<close>, and positive for a time that is
  not zero, as is then every average of latencies.
\<close>

section \<open>Latencies are monotone\<close>

text \<open>All intermediate results stay below \<open>2 ^ 80\<close>, far from overflow.\<close>

lemma f64_bounds:
  "f64_pos (f64_round False (2 ^ 64))" "f64_pos (f64_round False (2 ^ 66))" "f64_pos (f64_round False (2 ^ 80))"
  "f64_pos (f64_of_uint 1000000000)" "f64_pos (f64_of_uint 1000)" "f64_mag (f64_of_uint 1000000000) \<noteq> 0"
  "f64_val (f64_round False (2 ^ 64)) = 2 ^ 64" "f64_val (f64_round False (2 ^ 66)) = 2 ^ 66"
  "f64_val (f64_of_uint 1000000000) = 1000000000" "f64_val (f64_of_uint 1000) = 1000"
  by code_simp+

text \<open>The three roundings of \<open>as_secs_f64\<close>, and their sizes.\<close>

definition secs_val :: "Duration \<Rightarrow> rat" where
  "secs_val d = f64_val (f64_round False (of_int (uint (du_secs d))))"

definition nanos_val :: "Duration \<Rightarrow> rat" where
  "nanos_val d = f64_val (f64_round False (of_int (uint (du_nanos d)) / 1000000000))"

definition elapsed_val :: "Duration \<Rightarrow> rat" where
  "elapsed_val d = f64_val (f64_round False (secs_val d + nanos_val d))"

lemma uint_bounds: "uint (w :: 64 word) \<le> 2 ^ 64" "uint (u :: u32) \<le> 2 ^ 32" "0 \<le> (of_int (uint v) :: rat)"
  using uint_lt2p [of w] uint_lt2p [of u] by (simp_all del: of_int_uint)

lemma unsigned_rat_nonneg [simp]: "0 \<le> (unsigned (w :: 'a :: len word) :: rat)"
  using uint_bounds(3) [of w] by simp

lemma part_bounds:
  shows "f64_pos (f64_round False (of_int (uint (du_secs d))))" "0 \<le> secs_val d" "secs_val d \<le> 2 ^ 64"
    "f64_pos (f64_round False (of_int (uint (du_nanos d)) / 1000000000))" "0 \<le> nanos_val d" "nanos_val d \<le> 2 ^ 64"
proof -
  have "of_int (uint (du_secs d)) \<le> (of_int (2 ^ 64) :: rat)"
    using uint_bounds(1) by (subst of_int_le_iff)
  then have s: "of_int (uint (du_secs d)) \<le> (2 ^ 64 :: rat)" by simp
  then show pos: "f64_pos (f64_round False (of_int (uint (du_secs d))))"
    by (intro f64_round_pos [OF _ _ f64_bounds(1)]) simp_all
  then show "0 \<le> secs_val d" by (simp add: secs_val_def f64_val_pos)
  show "secs_val d \<le> 2 ^ 64"
    using f64_round_val_mono [OF _ s f64_bounds(1)] f64_bounds(7) by (simp add: secs_val_def)
  have "of_int (uint (du_nanos d)) \<le> (of_int (2 ^ 64) :: rat)"
    using uint_bounds(2) [of "du_nanos d"] by (subst of_int_le_iff) simp
  then have n: "of_int (uint (du_nanos d)) / 1000000000 \<le> (2 ^ 64 :: rat)" by simp
  then show pos: "f64_pos (f64_round False (of_int (uint (du_nanos d)) / 1000000000))"
    by (intro f64_round_pos [OF _ _ f64_bounds(1)]) simp_all
  then show "0 \<le> nanos_val d" by (simp add: nanos_val_def f64_val_pos)
  show "nanos_val d \<le> 2 ^ 64"
    using f64_round_val_mono [OF _ n f64_bounds(1)] f64_bounds(7) by (simp add: nanos_val_def)
qed

lemma elapsed_bounds: "f64_pos (f64_round False (secs_val d + nanos_val d))" "0 \<le> elapsed_val d" "elapsed_val d \<le> 2 ^ 66"
proof -
  have b: "0 \<le> secs_val d + nanos_val d" "secs_val d + nanos_val d \<le> 2 ^ 66"
    using part_bounds(2,3,5,6) [of d] by simp_all
  then show pos: "f64_pos (f64_round False (secs_val d + nanos_val d))"
    by (intro f64_round_pos [OF _ _ f64_bounds(2)])
  then show "0 \<le> elapsed_val d" by (simp add: elapsed_val_def f64_val_pos)
  show "elapsed_val d \<le> 2 ^ 66"
    using f64_round_val_mono [OF b f64_bounds(2)] f64_bounds(8) by (simp add: elapsed_val_def)
qed

lemma latency_pos: "f64_pos (f64_round False (elapsed_val d * 1000))"
  using elapsed_bounds(2,3) [of d] by (intro f64_round_pos [OF _ _ f64_bounds(3)]) simp_all

lemma latency_of_alt: "latency_of d = f64_round False (elapsed_val d * 1000)"
proof -
  have nanos: "uint (du_nanos d) \<le> 2 ^ 53" using uint_bounds(2) [of "du_nanos d"] by simp
  have n: "f64_pos (f64_of_uint (uint (du_nanos d)))" "f64_val (f64_of_uint (uint (du_nanos d))) = of_int (uint (du_nanos d))"
    using f64_of_uint_exact [OF _ nanos] by (simp_all add: f64_pos_def is_infinite_def f64_of_uint_def f64_round_fields f64_round_mag min_def split: if_splits)
  have div: "f64_div (f64_of_uint (uint (du_nanos d))) (f64_of_uint 1000000000) =
      f64_round False (of_int (uint (du_nanos d)) / 1000000000)"
    by (subst f64_div_pos) (simp_all add: n f64_bounds)
  have "as_secs_f64 d = f64_round False (secs_val d + nanos_val d)"
    unfolding as_secs_f64_def div unfolding f64_of_uint_def
    using part_bounds(1,4) [of d] by (subst f64_add_pos) (simp_all add: secs_val_def nanos_val_def)
  then show ?thesis
    using elapsed_bounds(1) [of d] f64_bounds
    by (simp add: latency_of_def f64_mul_pos elapsed_val_def)
qed

lemma elapsed_mono:
  assumes "secs_val d + nanos_val d \<le> secs_val d' + nanos_val d'"
  shows "f64_key (latency_of d) \<le> f64_key (latency_of d')"
proof -
  have "elapsed_val d \<le> elapsed_val d'"
    using assms part_bounds(2,5) [of d] elapsed_bounds(1) unfolding elapsed_val_def by (intro f64_round_val_mono) simp_all
  then show ?thesis
    using elapsed_bounds(2) [of d] f64_round_mono [of "elapsed_val d * 1000" "elapsed_val d' * 1000" False False]
    by (simp add: latency_of_alt f64_posD(4) [OF latency_pos])
qed

lemma latency_mono:
  assumes "du_secs d \<le> du_secs d'" "du_nanos d \<le> du_nanos d'"
  shows "f64_key (latency_of d) \<le> f64_key (latency_of d')"
proof -
  have "secs_val d \<le> secs_val d'"
    using assms(1) part_bounds(1) unfolding secs_val_def by (intro f64_round_val_mono) (simp_all add: word_le_def uint_bounds(3) del: of_int_uint)
  moreover have "nanos_val d \<le> nanos_val d'"
    using assms(2) part_bounds(4) unfolding nanos_val_def
    by (intro f64_round_val_mono) (simp_all add: word_le_def divide_right_mono uint_bounds(3) del: of_int_uint)
  ultimately show ?thesis by (intro elapsed_mono) simp
qed

section \<open>Sums and averages\<close>

lemma f64_sum_ge:
  assumes q: "f64_exact q" and xs: "\<forall>x \<in> set xs. f64_ge q x" "xs \<noteq> []"
  shows "f64_ge q (f64_sum xs)"
proof -
  have fold: "f64_ge q (foldl f64_add a ys)" if "f64_ge q a" "\<forall>x \<in> set ys. f64_ge q x" for a ys
    using that by (induction ys arbitrary: a) (simp_all add: f64_ge_add [OF q])
  obtain y ys where "xs = y # ys" using xs(2) by (cases xs) auto
  then show ?thesis using xs(1) by (simp add: f64_sum_def fold f64_ge_add_zero [OF q])
qed

text \<open>The recorded latency of a time that is not zero is at least \<open>2 ^ -20\<close> milliseconds.\<close>

lemma latency_ge:
  assumes "du_secs d \<noteq> 0 \<or> du_nanos d \<noteq> 0"
  shows "f64_ge (1 / 2 ^ 20) (latency_of d)"
proof -
  have pos: "f64_pos (latency_of d')" for d' unfolding latency_of_alt by (rule latency_pos)
  have "(1 :: 64 word) \<le> du_secs d \<or> (1 :: u32) \<le> du_nanos d"
    using assms by (auto simp: word_le_nat_alt Suc_le_eq unat_gt_0)
  then obtain d' where d': "d' = \<lparr>du_secs = 1, du_nanos = 0\<rparr> \<or> d' = \<lparr>du_secs = 0, du_nanos = 1\<rparr>"
    "du_secs d' \<le> du_secs d" "du_nanos d' \<le> du_nanos d"
    by fastforce
  have one: "1 / 2 ^ 20 \<le> f64_val (latency_of \<lparr>du_secs = 1, du_nanos = 0\<rparr>)"
    "1 / 2 ^ 20 \<le> f64_val (latency_of \<lparr>du_secs = 0, du_nanos = 1\<rparr>)"
    by code_simp+
  have "f64_val (latency_of d') \<le> f64_val (latency_of d)"
    using latency_mono [OF d'(2,3)] pos by (intro f64_val_mono) (simp_all add: f64_posD(4))
  moreover have "1 / 2 ^ 20 \<le> f64_val (latency_of d')" using one d'(1) by auto
  ultimately show ?thesis using pos [of d] f64_posD [of "latency_of d"] by (simp add: f64_ge_def)
qed

section \<open>Latencies are accurate\<close>

text \<open>The exact time in milliseconds.\<close>

definition exact_ms :: "Duration \<Rightarrow> rat" where
  "exact_ms d = of_int (uint (du_secs d)) * 1000 + of_int (uint (du_nanos d)) / 1000000"

lemma latency_approx: "approx (1 / 2 ^ 50) (exact_ms d) (f64_val (latency_of d))"
proof -
  define s n :: rat where "s = of_int (uint (du_secs d))" and "n = of_int (uint (du_nanos d)) / 1000000000"
  have s: "s = 0 \<or> 1 \<le> s" "0 \<le> s" "s \<le> 2 ^ 64"
  proof -
    have "uint (du_secs d) = 0 \<or> 1 \<le> uint (du_secs d)" using uint_ge_0 [of "du_secs d"] by linarith
    then show "s = 0 \<or> 1 \<le> s" unfolding s_def by (metis of_int_0 of_int_1 of_int_le_iff)
    show "0 \<le> s" by (simp add: s_def uint_bounds(3) del: of_int_uint)
    have "s \<le> of_int (2 ^ 64)" unfolding s_def of_int_le_iff by (rule uint_bounds)
    then show "s \<le> 2 ^ 64" by simp
  qed
  have n: "n = 0 \<or> 1 / 1000000000 \<le> n" "0 \<le> n" "n \<le> 2 ^ 64"
  proof -
    have "uint (du_nanos d) = 0 \<or> 1 \<le> uint (du_nanos d)" using uint_ge_0 [of "du_nanos d"] by linarith
    then have "(of_int (uint (du_nanos d)) :: rat) = 0 \<or> 1 \<le> (of_int (uint (du_nanos d)) :: rat)"
      by (metis of_int_0 of_int_1 of_int_le_iff)
    then show "n = 0 \<or> 1 / 1000000000 \<le> n" unfolding n_def by (auto simp del: of_int_uint)
    show "0 \<le> n" by (simp add: n_def uint_bounds(3) del: of_int_uint)
    have "(of_int (uint (du_nanos d)) :: rat) \<le> of_int (2 ^ 32)" unfolding of_int_le_iff by (rule uint_bounds)
    then show "n \<le> 2 ^ 64" by (simp add: n_def del: of_int_uint)
  qed
  have "approx (1 / 2 ^ 53) s (secs_val d)"
    unfolding secs_val_def s_def [symmetric] using s powi_bounds(2) by (intro round_approx size_ok) auto
  moreover have "approx (1 / 2 ^ 53) n (nanos_val d)"
    unfolding nanos_val_def n_def [symmetric] using n powi_bounds(2) by (intro round_approx size_ok) auto
  ultimately have sum: "approx (1 / 2 ^ 53) (s + n) (secs_val d + nanos_val d)" by (rule approx_add)
  have "secs_val d + nanos_val d = 0 \<or> 1 / 2 ^ 40 \<le> secs_val d + nanos_val d"
    using approx_lower [OF sum] s n sum by (auto simp: approx_def)
  then have "approx (1 / 2 ^ 53) (secs_val d + nanos_val d) (elapsed_val d)"
    unfolding elapsed_val_def using part_bounds(3,6) [of d] powi_bounds(2) by (intro round_approx size_ok) auto
  then have el: "approx (1 / 2 ^ 51) (s + n) (elapsed_val d)"
    by (rule approx_mono [OF approx_trans [OF sum]]) (use s n in simp_all)
  then have ms: "approx (1 / 2 ^ 51) ((s + n) * 1000) (elapsed_val d * 1000)" by (rule approx_scale) simp
  have "elapsed_val d * 1000 = 0 \<or> 1 / 2 ^ 40 \<le> elapsed_val d * 1000"
    using approx_lower [OF el] s n el by (auto simp: approx_def)
  then have "approx (1 / 2 ^ 53) (elapsed_val d * 1000) (f64_val (latency_of d))"
    unfolding latency_of_alt using elapsed_bounds(3) [of d] powi_bounds(2) by (intro round_approx size_ok) auto
  then have "approx (1 / 2 ^ 50) ((s + n) * 1000) (f64_val (latency_of d))"
    by (rule approx_mono [OF approx_trans [OF ms]]) (use s n in simp_all)
  then show ?thesis by (simp add: exact_ms_def s_def n_def algebra_simps)
qed

text \<open>Monotone in the time itself, for times below \<open>2 ^ 53\<close> seconds.\<close>

definition duration_ok :: "Duration \<Rightarrow> bool" where
  "duration_ok d \<longleftrightarrow> uint (du_nanos d) < 1000000000"

lemma exact_ms_le:
  assumes "duration_ok d" "duration_ok d'" "exact_ms d \<le> exact_ms d'"
  shows "uint (du_secs d) < uint (du_secs d') \<or> du_secs d = du_secs d' \<and> du_nanos d \<le> du_nanos d'"
proof -
  have ms: "exact_ms x = of_int (uint (du_secs x) * 1000000000 + uint (du_nanos x)) / 1000000" for x
    by (simp add: exact_ms_def field_simps)
  have "uint (du_secs d) * 1000000000 + uint (du_nanos d) \<le> uint (du_secs d') * 1000000000 + uint (du_nanos d')"
    using assms(3) unfolding ms by (simp only: divide_le_cancel of_int_le_iff)
  moreover have "uint (du_nanos d') < 1000000000" "0 \<le> uint (du_nanos d)" using assms(2) by (simp_all add: duration_ok_def)
  ultimately have "uint (du_secs d) < uint (du_secs d') \<or> uint (du_secs d) = uint (du_secs d') \<and> uint (du_nanos d) \<le> uint (du_nanos d')"
    by linarith
  then show ?thesis by (auto simp: word_le_def word_uint_eq_iff)
qed

lemma latency_monotone_ms:
  assumes "duration_ok d" "duration_ok d'" "uint (du_secs d') \<le> 2 ^ 53" "exact_ms d \<le> exact_ms d'"
  shows "f64_key (latency_of d) \<le> f64_key (latency_of d')"
proof (cases "uint (du_secs d) < uint (du_secs d')")
  case True
  have "secs_val x = of_int (uint (du_secs x))" if "uint (du_secs x) \<le> 2 ^ 53" for x
    using f64_of_uint_exact(1) [OF uint_ge_0 that] by (simp add: secs_val_def f64_of_uint_def)
  then have secs: "secs_val d = of_int (uint (du_secs d))" "secs_val d' = of_int (uint (du_secs d'))"
    using True assms(3) by simp_all
  have "of_int (uint (du_nanos d)) / 1000000000 \<le> (1 :: rat)"
  proof -
    have "of_int (uint (du_nanos d)) \<le> (of_int 1000000000 :: rat)"
      using assms(1) unfolding of_int_le_iff by (simp add: duration_ok_def)
    then show ?thesis by simp
  qed
  moreover have one: "f64_pos (f64_round False 1)" "f64_val (f64_round False 1) = 1" by code_simp+
  ultimately have "nanos_val d \<le> 1"
    using f64_round_val_mono [of "of_int (uint (du_nanos d)) / 1000000000" 1] by (simp add: nanos_val_def)
  moreover have "of_int (uint (du_secs d)) + 1 \<le> (of_int (uint (du_secs d')) :: rat)"
    using True by (metis add1_zle_eq of_int_1 of_int_add of_int_le_iff)
  ultimately show ?thesis
    using secs part_bounds(5) [of d'] by (intro elapsed_mono) (simp del: of_int_uint)
next
  case False
  then show ?thesis using exact_ms_le [OF assms(1,2,4)] by (auto intro: latency_mono)
qed

text \<open>
  C28: the latency that the end of a request records is the elapsed time in milliseconds.
  Its relative error is at most 2 to the -50 for every duration, although it comes out of
  four floating-point roundings, and for durations below 2 to the 53 seconds a longer
  duration never has a smaller latency.
\<close>

theorem latency_faithful:
  assumes "duration_ok d" and "duration_ok d'"
  shows "\<bar>f64_val (fst (end_request d s m)) - exact_ms d\<bar> \<le> exact_ms d / 2 ^ 50 \<and>
    (uint (du_secs d') \<le> 2 ^ 53 \<and> exact_ms d \<le> exact_ms d' \<longrightarrow>
      f64_le (fst (end_request d s m)) (fst (end_request d' s' m')))"
proof -
  have "fst (end_request x y z) = latency_of x" for x y z by (simp add: end_request_def Let_def)
  then show ?thesis
    using latency_approx [of d] latency_monotone_ms [OF assms] by (simp add: approx_def f64_le_def latency_number)
qed

theorem latency_faithful_witness:
  "\<bar>f64_val (fst (end_request \<lparr>du_secs = 1, du_nanos = 999999999\<rparr> True new_metrics)) - 1999999999 / 1000000\<bar>
      \<le> 1999999999 / 1000000 / 2 ^ 50 \<and>
    f64_le (fst (end_request \<lparr>du_secs = 1, du_nanos = 999999999\<rparr> True new_metrics))
      (fst (end_request \<lparr>du_secs = 2, du_nanos = 0\<rparr> True new_metrics))"
proof -
  let ?a = "\<lparr>du_secs = 1, du_nanos = 999999999\<rparr>" and ?b = "\<lparr>du_secs = 2, du_nanos = 0\<rparr>"
  have ok: "duration_ok ?a" "duration_ok ?b" "uint (du_secs ?b) \<le> 2 ^ 53" by (simp_all add: duration_ok_def)
  have ms: "exact_ms ?a = 1999999999 / 1000000" "exact_ms ?b = 2000" by (simp_all add: exact_ms_def)
  then have le: "exact_ms ?a \<le> exact_ms ?b" by simp
  show ?thesis
    using latency_faithful [OF ok(1,2), of True new_metrics True new_metrics] ok(3) le unfolding ms by blast
qed

end
