(* ===== verification/Json.thy ===== *)
theory Json
  imports Wire Float64
begin

text \<open>
  How \<open>serde_json\<close> holds numbers: an integer by its sign and 64-bit pattern, a finite
  \<open>f64\<close> as such; an \<open>f64\<close> that is not finite is \<open>null\<close>.
\<close>

definition json_of_int :: "int \<Rightarrow> Value" where
  "json_of_int i = (if i < 0 then VNegInt (of_int i) else VPosInt (of_int i))"

definition json_of_f64 :: "f64 \<Rightarrow> Value" where
  "json_of_f64 x = (if is_nan x \<or> is_infinite x then VNull else VFloat x)"

text \<open>
  The accessors \<open>as_i64\<close>, \<open>as_u64\<close> and \<open>as_str\<close> of a value, and what their documentation
  promises: an integer that fits the type is returned, and a string.
\<close>

record json_access =
  as_i64 :: "Value \<Rightarrow> 64 word option"
  as_u64 :: "Value \<Rightarrow> 64 word option"
  as_text :: "Value \<Rightarrow> string option"

definition json_access_ok :: "json_access \<Rightarrow> bool" where
  "json_access_ok ja \<longleftrightarrow> (\<forall>i. as_i64 ja (json_of_int (sint i)) = Some i) \<and>
     (\<forall>u. as_u64 ja (json_of_int (uint u)) = Some u) \<and> (\<forall>s. as_text ja (VString s) = Some s)"

definition demo_access :: json_access where
  "demo_access = \<lparr>
     as_i64 = (\<lambda>v. case v of VPosInt u \<Rightarrow> if 0 \<le> sint u then Some u else None | VNegInt u \<Rightarrow> Some u | _ \<Rightarrow> None),
     as_u64 = (\<lambda>v. case v of VPosInt u \<Rightarrow> Some u | _ \<Rightarrow> None),
     as_text = (\<lambda>v. case v of VString s \<Rightarrow> Some s | _ \<Rightarrow> None)\<rparr>"

lemma demo_access_ok [simp]: "json_access_ok demo_access"
  by (simp add: json_access_ok_def demo_access_def json_of_int_def)

end
