(* ===== verification/Client_Logging.thy ===== *)
theory Client_Logging
  imports Json
begin

text \<open>
  rust/src/logging.rs: the structured logger, its entries and its two stock handlers. A
  handler is a function on a world of its own (standard output, a vector of entries), or
  \<open>None\<close> where it panics. \<open>clock\<close> is the time since the UNIX epoch, absent before it.
\<close>

section \<open>Levels and events\<close>

datatype LogLevel = Debug | Info | Warn | Error

fun level_text :: "LogLevel \<Rightarrow> string" where
  "level_text Debug = ''debug''"
| "level_text Info = ''info''"
| "level_text Warn = ''warn''"
| "level_text Error = ''error''"

text \<open>\<open>level as u8\<close>.\<close>

fun level_num :: "LogLevel \<Rightarrow> byte" where
  "level_num Debug = 0"
| "level_num Info = 1"
| "level_num Warn = 2"
| "level_num Error = 3"

datatype LogEvent =
    WorkerStart | WorkerStop | WorkerRestart
  | RequestStart | RequestEnd | RequestTimeout | RequestError
  | CircuitOpen | CircuitClose | CircuitHalfOpen
  | SocketConnect | SocketDisconnect | SocketReconnect
  | ProcessSpawn | ProcessExit
  | HeartbeatSent | HeartbeatReceived | HeartbeatMissed | HeartbeatTimeout
  | QueueOverflow

text \<open>
  \<open>Display\<close> of an event: what \<open>serde_json::to_string\<close> gives (\<open>ser\<close>), without the quotes.
\<close>

definition trim_quotes :: "string \<Rightarrow> string" where
  "trim_quotes s = rev (dropWhile (\<lambda>c. c = CHR 0x22) (rev (dropWhile (\<lambda>c. c = CHR 0x22) s)))"

definition event_text :: "(LogEvent \<Rightarrow> string option) \<Rightarrow> LogEvent \<Rightarrow> string" where
  "event_text ser event = trim_quotes (case ser event of Some s \<Rightarrow> s | None \<Rightarrow> [])"

section \<open>Entries\<close>

record LogEntry =
  le_event :: string
  le_level :: string
  le_message :: string
  le_timestamp :: f64
  le_correlation_id :: "string option"
  le_request_id :: "string option"
  le_parent_request_id :: "string option"
  le_worker_id :: "string option"
  le_service_id :: "string option"
  le_function :: "string option"
  le_namespace :: "string option"
  le_duration_ms :: "f64 option"
  le_success :: "bool option"
  le_error :: "string option"
  le_error_type :: "string option"
  le_metrics :: "Value option"
  le_metadata :: "Value option"

definition default_entry :: LogEntry where
  "default_entry = \<lparr>le_event = [], le_level = [], le_message = [], le_timestamp = 0,
     le_correlation_id = None, le_request_id = None, le_parent_request_id = None, le_worker_id = None,
     le_service_id = None, le_function = None, le_namespace = None, le_duration_ms = None,
     le_success = None, le_error = None, le_error_type = None, le_metrics = None, le_metadata = None\<rparr>"

text \<open>
  The object an entry is serialised to: the fields in order, absent ones skipped.
\<close>

definition opt_field :: "string \<Rightarrow> ('a \<Rightarrow> Value) \<Rightarrow> 'a option \<Rightarrow> (string \<times> Value) list" where
  "opt_field name f x = (case x of None \<Rightarrow> [] | Some y \<Rightarrow> [(name, f y)])"

definition entry_fields :: "LogEntry \<Rightarrow> (string \<times> Value) list" where
  "entry_fields e =
     [(''event'', VString (le_event e)), (''level'', VString (le_level e)),
      (''message'', VString (le_message e)), (''timestamp'', json_of_f64 (le_timestamp e))] @
     opt_field ''correlation_id'' VString (le_correlation_id e) @
     opt_field ''request_id'' VString (le_request_id e) @
     opt_field ''parent_request_id'' VString (le_parent_request_id e) @
     opt_field ''worker_id'' VString (le_worker_id e) @
     opt_field ''service_id'' VString (le_service_id e) @
     opt_field ''function'' VString (le_function e) @
     opt_field ''namespace'' VString (le_namespace e) @
     opt_field ''duration_ms'' json_of_f64 (le_duration_ms e) @
     opt_field ''success'' VBool (le_success e) @
     opt_field ''error'' VString (le_error e) @
     opt_field ''error_type'' VString (le_error_type e) @
     opt_field ''metrics'' id (le_metrics e) @
     opt_field ''metadata'' id (le_metadata e)"

text \<open>\<open>print\<close> is the JSON text of an object, \<open>None\<close> if it cannot be written.\<close>

definition to_json :: "((string \<times> Value) list \<Rightarrow> string option) \<Rightarrow> LogEntry \<Rightarrow> string" where
  "to_json print e = (case print (entry_fields e) of Some s \<Rightarrow> s | None \<Rightarrow> [])"

section \<open>The logger\<close>

type_synonym 'w handler = "LogEntry \<Rightarrow> 'w \<Rightarrow> 'w option"

record 'w StructuredLogger =
  lg_handler :: "'w handler option"
  lg_level :: LogLevel
  lg_worker_id :: "string option"
  lg_service_id :: "string option"

definition new_logger ::
    "'w handler option \<Rightarrow> LogLevel \<Rightarrow> string option \<Rightarrow> string option \<Rightarrow> 'w StructuredLogger" where
  "new_logger handler level worker_id service_id =
     \<lparr>lg_handler = handler, lg_level = level, lg_worker_id = worker_id, lg_service_id = service_id\<rparr>"

definition set_handler :: "'w handler \<Rightarrow> 'w StructuredLogger \<Rightarrow> 'w StructuredLogger" where
  "set_handler handler lg = lg\<lparr>lg_handler := Some handler\<rparr>"

definition set_context :: "string option \<Rightarrow> string option \<Rightarrow> 'w StructuredLogger \<Rightarrow> 'w StructuredLogger" where
  "set_context worker_id service_id lg =
     (let lg1 = (if worker_id \<noteq> None then lg\<lparr>lg_worker_id := worker_id\<rparr> else lg)
      in if service_id \<noteq> None then lg1\<lparr>lg_service_id := service_id\<rparr> else lg1)"

definition should_log :: "'w StructuredLogger \<Rightarrow> LogLevel \<Rightarrow> bool" where
  "should_log lg level \<longleftrightarrow> level_num (lg_level lg) \<le> level_num level"

record LogOptions =
  lo_correlation_id :: "string option"
  lo_request_id :: "string option"
  lo_parent_request_id :: "string option"
  lo_function :: "string option"
  lo_namespace :: "string option"
  lo_duration_ms :: "f64 option"
  lo_success :: "bool option"
  lo_error :: "string option"
  lo_error_type :: "string option"
  lo_metrics :: "Value option"
  lo_metadata :: "Value option"

definition default_options :: LogOptions where
  "default_options = \<lparr>lo_correlation_id = None, lo_request_id = None, lo_parent_request_id = None,
     lo_function = None, lo_namespace = None, lo_duration_ms = None, lo_success = None, lo_error = None,
     lo_error_type = None, lo_metrics = None, lo_metadata = None\<rparr>"

text \<open>
  What logging reads from its surroundings: the serialiser of events and the clock. An
  emission is the effect on the handler's world.
\<close>

record log_env =
  lv_ser_event :: "LogEvent \<Rightarrow> string option"
  lv_clock :: "f64 option"

definition make_entry ::
    "log_env \<Rightarrow> 'w StructuredLogger \<Rightarrow> LogEvent \<Rightarrow> string \<Rightarrow> LogLevel \<Rightarrow> LogOptions \<Rightarrow> LogEntry" where
  "make_entry lv lg event message level options =
     \<lparr>le_event = event_text (lv_ser_event lv) event, le_level = level_text level, le_message = message,
      le_timestamp = (case lv_clock lv of Some t \<Rightarrow> t | None \<Rightarrow> 0),
      le_correlation_id = lo_correlation_id options, le_request_id = lo_request_id options,
      le_parent_request_id = lo_parent_request_id options, le_worker_id = lg_worker_id lg,
      le_service_id = lg_service_id lg, le_function = lo_function options,
      le_namespace = lo_namespace options, le_duration_ms = lo_duration_ms options,
      le_success = lo_success options, le_error = lo_error options, le_error_type = lo_error_type options,
      le_metrics = lo_metrics options, le_metadata = lo_metadata options\<rparr>"

definition log_event ::
    "log_env \<Rightarrow> 'w StructuredLogger \<Rightarrow> LogEvent \<Rightarrow> string \<Rightarrow> LogLevel \<Rightarrow> LogOptions \<Rightarrow> 'w \<Rightarrow> 'w option" where
  "log_event lv lg event message level options w =
     (if lg_handler lg = None \<or> \<not> should_log lg level then Some w
      else case lg_handler lg of
        Some handler \<Rightarrow> handler (make_entry lv lg event message level options) w
      | None \<Rightarrow> Some w)"

definition log_debug :: "log_env \<Rightarrow> 'w StructuredLogger \<Rightarrow> LogEvent \<Rightarrow> string \<Rightarrow> LogOptions \<Rightarrow> 'w \<Rightarrow> 'w option" where
  "log_debug lv lg event message options = log_event lv lg event message Debug options"

definition log_info :: "log_env \<Rightarrow> 'w StructuredLogger \<Rightarrow> LogEvent \<Rightarrow> string \<Rightarrow> LogOptions \<Rightarrow> 'w \<Rightarrow> 'w option" where
  "log_info lv lg event message options = log_event lv lg event message Info options"

definition log_warn :: "log_env \<Rightarrow> 'w StructuredLogger \<Rightarrow> LogEvent \<Rightarrow> string \<Rightarrow> LogOptions \<Rightarrow> 'w \<Rightarrow> 'w option" where
  "log_warn lv lg event message options = log_event lv lg event message Warn options"

definition log_error :: "log_env \<Rightarrow> 'w StructuredLogger \<Rightarrow> LogEvent \<Rightarrow> string \<Rightarrow> LogOptions \<Rightarrow> 'w \<Rightarrow> 'w option" where
  "log_error lv lg event message options = log_event lv lg event message Error options"

section \<open>Common events\<close>

definition request_start ::
    "log_env \<Rightarrow> 'w StructuredLogger \<Rightarrow> string \<Rightarrow> string \<Rightarrow> string \<Rightarrow> string option \<Rightarrow> Value option \<Rightarrow> 'w \<Rightarrow> 'w option" where
  "request_start lv lg request_id function namespace correlation_id metadata =
     log_debug lv lg RequestStart (''Calling '' @ function)
       (default_options\<lparr>lo_request_id := Some request_id, lo_function := Some function,
          lo_namespace := Some namespace, lo_correlation_id := correlation_id, lo_metadata := metadata\<rparr>)"

definition request_end ::
    "log_env \<Rightarrow> 'w StructuredLogger \<Rightarrow> string \<Rightarrow> string \<Rightarrow> f64 \<Rightarrow> bool \<Rightarrow> string option \<Rightarrow> string option \<Rightarrow>
     'w \<Rightarrow> 'w option" where
  "request_end lv lg request_id function duration_ms success error correlation_id =
     log_event lv lg (if success then RequestEnd else RequestError)
       ((if success then ''Completed'' else ''Failed'') @ '' '' @ function)
       (if success then Info else Warn)
       (default_options\<lparr>lo_request_id := Some request_id, lo_function := Some function,
          lo_duration_ms := Some duration_ms, lo_success := Some success, lo_error := error,
          lo_correlation_id := correlation_id\<rparr>)"

definition log_circuit_open :: "log_env \<Rightarrow> 'w StructuredLogger \<Rightarrow> 64 word \<Rightarrow> 'w \<Rightarrow> 'w option" where
  "log_circuit_open lv lg failures = log_warn lv lg CircuitOpen
     (''Circuit breaker opened after '' @ show_nat (unat failures) @ '' failures'') default_options"

definition log_circuit_close :: "log_env \<Rightarrow> 'w StructuredLogger \<Rightarrow> 'w \<Rightarrow> 'w option" where
  "log_circuit_close lv lg = log_info lv lg CircuitClose ''Circuit breaker closed (recovered)'' default_options"

definition worker_start :: "log_env \<Rightarrow> 'w StructuredLogger \<Rightarrow> string \<Rightarrow> 'w \<Rightarrow> 'w option" where
  "worker_start lv lg mode = log_info lv lg WorkerStart
     (''Worker started in '' @ mode @ '' mode'') default_options"

definition worker_stop :: "log_env \<Rightarrow> 'w StructuredLogger \<Rightarrow> string \<Rightarrow> 'w \<Rightarrow> 'w option" where
  "worker_stop lv lg reason = log_info lv lg WorkerStop (''Worker stopped: '' @ reason) default_options"

text \<open>Decimal text of a signed integer.\<close>

definition show_int :: "int \<Rightarrow> string" where
  "show_int i = (if i < 0 then ''-'' @ show_nat (nat (- i)) else show_nat (nat i))"

definition process_exit :: "log_env \<Rightarrow> 'w StructuredLogger \<Rightarrow> 32 word \<Rightarrow> 'w \<Rightarrow> 'w option" where
  "process_exit lv lg exit_code = log_event lv lg ProcessExit
     (''Child process exited with code '' @ show_int (sint exit_code))
     (if exit_code = 0 then Info else Warn)
     (default_options\<lparr>lo_metadata := Some (VObject [(''exit_code'', json_of_int (sint exit_code))])\<rparr>)"

definition heartbeat_sent :: "log_env \<Rightarrow> 'w StructuredLogger \<Rightarrow> 'w \<Rightarrow> 'w option" where
  "heartbeat_sent lv lg = log_debug lv lg HeartbeatSent ''Heartbeat sent'' default_options"

text \<open>\<open>{:.1}\<close>: one digit after the point, the exact value rounded half to even.\<close>

definition fmt_f1 :: "f64 \<Rightarrow> string" where
  "fmt_f1 x =
     (if is_nan x then ''NaN''
      else (if f64_neg x then ''-'' else []) @
        (if is_infinite x then ''inf''
         else let k = round_even (\<bar>f64_val x\<bar> * 10)
              in show_nat (nat (k div 10)) @ ''.'' @ show_nat (nat (k mod 10))))"

definition heartbeat_received :: "log_env \<Rightarrow> 'w StructuredLogger \<Rightarrow> f64 \<Rightarrow> 'w \<Rightarrow> 'w option" where
  "heartbeat_received lv lg rtt_ms = log_debug lv lg HeartbeatReceived
     (''Heartbeat received (RTT: '' @ fmt_f1 rtt_ms @ ''ms)'') (default_options\<lparr>lo_duration_ms := Some rtt_ms\<rparr>)"

definition heartbeat_missed :: "log_env \<Rightarrow> 'w StructuredLogger \<Rightarrow> 64 word \<Rightarrow> 64 word \<Rightarrow> 'w \<Rightarrow> 'w option" where
  "heartbeat_missed lv lg consecutive max_allowed = log_warn lv lg HeartbeatMissed
     (''Heartbeat missed ('' @ show_nat (unat consecutive) @ ''/'' @ show_nat (unat max_allowed) @ '')'')
     (default_options\<lparr>lo_metadata := Some (VObject
        [(''consecutive_misses'', VPosInt consecutive), (''max_allowed'', VPosInt max_allowed)])\<rparr>)"

definition heartbeat_timeout :: "log_env \<Rightarrow> 'w StructuredLogger \<Rightarrow> 64 word \<Rightarrow> 'w \<Rightarrow> 'w option" where
  "heartbeat_timeout lv lg misses = log_error lv lg HeartbeatTimeout
     (''Heartbeat timeout after '' @ show_nat (unat misses) @ '' consecutive misses'')
     (default_options\<lparr>lo_metadata := Some (VObject [(''total_misses'', VPosInt misses)])\<rparr>)"

section \<open>Stock handlers\<close>

text \<open>Both print one line to standard output, the list of lines so far.\<close>

definition default_json_handler ::
    "((string \<times> Value) list \<Rightarrow> string option) \<Rightarrow> string list handler" where
  "default_json_handler print entry out = Some (out @ [to_json print entry])"

definition pad2 :: "nat \<Rightarrow> string" where
  "pad2 n = (if n < 10 then ''0'' @ show_nat n else show_nat n)"

definition time_str :: "nat \<Rightarrow> string" where
  "time_str timestamp = pad2 (timestamp div 3600 mod 24) @ '':'' @ pad2 (timestamp div 60 mod 60) @ '':'' @
     pad2 (timestamp mod 60)"

text \<open>Upper case of ASCII letters; the level texts of the logger have no others.\<close>

definition to_upper :: "char \<Rightarrow> char" where
  "to_upper c = (if 97 \<le> (of_char c :: nat) \<and> (of_char c :: nat) \<le> 122 then char_of ((of_char c :: nat) - 32) else c)"

text \<open>A byte that continues a UTF-8 character, and \<open>is_char_boundary\<close>.\<close>

definition is_continuation :: "char \<Rightarrow> bool" where
  "is_continuation c \<longleftrightarrow> 0x80 \<le> (of_char c :: nat) \<and> (of_char c :: nat) < 0xC0"

definition is_char_boundary :: "string \<Rightarrow> nat \<Rightarrow> bool" where
  "is_char_boundary s i \<longleftrightarrow> i = 0 \<or> i = length s \<or> (i < length s \<and> \<not> is_continuation (s ! i))"

text \<open>\<open>{:<5}\<close> counts characters, not bytes.\<close>

definition pad_right :: "nat \<Rightarrow> string \<Rightarrow> string" where
  "pad_right width s = s @ replicate (width - length (filter (\<lambda>c. \<not> is_continuation c) s)) (CHR '' '')"

text \<open>\<open>&s[..i]\<close> panics where a character is cut.\<close>

definition slice_to :: "nat \<Rightarrow> string \<Rightarrow> string option" where
  "slice_to i s = (if is_char_boundary s i then Some (take i s) else None)"

fun join_spaces :: "string list \<Rightarrow> string" where
  "join_spaces [] = []"
| "join_spaces [s] = s"
| "join_spaces (s # ss) = s @ '' '' @ join_spaces ss"

definition pretty_line :: "nat \<Rightarrow> LogEntry \<Rightarrow> string option" where
  "pretty_line timestamp entry =
     (let level = pad_right 5 (map to_upper (le_level entry));
          prefix = ''['' @ time_str timestamp @ ''] ['' @ level @ '']'';
          parts = [prefix, le_event entry, le_message entry]
      in case (case le_request_id entry of
                 None \<Rightarrow> Some []
               | Some req_id \<Rightarrow> map_option (\<lambda>short. [''req='' @ short]) (slice_to (min (length req_id) 8) req_id)) of
           None \<Rightarrow> None
         | Some req \<Rightarrow> Some (join_spaces (parts @ req @
             (case le_function entry of Some func \<Rightarrow> [''fn='' @ func] | None \<Rightarrow> []) @
             (case le_duration_ms entry of Some duration \<Rightarrow> [fmt_f1 duration @ ''ms''] | None \<Rightarrow> []) @
             (case le_error entry of Some err \<Rightarrow> [''error='' @ err] | None \<Rightarrow> []))))"

text \<open>\<open>secs\<close> is the clock in whole seconds, 0 before the epoch.\<close>

definition default_pretty_handler :: "nat \<Rightarrow> string list handler" where
  "default_pretty_handler secs entry out = map_option (\<lambda>line. out @ [line]) (pretty_line secs entry)"

end
