(* ===== verification/Client_Logging_Spec.thy ===== *)
theory Client_Logging_Spec
  imports Client_Logging "HOL-Library.Sublist"
begin

text \<open>
  What the structured logger promises: which calls reach the handler and in which order,
  the names of events, and when the readable handler can print.
\<close>

section \<open>Levels\<close>

instantiation LogLevel :: linorder
begin

definition less_eq_LogLevel :: "LogLevel \<Rightarrow> LogLevel \<Rightarrow> bool" where
  "less_eq_LogLevel a b \<longleftrightarrow> level_num a \<le> level_num b"

definition less_LogLevel :: "LogLevel \<Rightarrow> LogLevel \<Rightarrow> bool" where
  "less_LogLevel a b \<longleftrightarrow> level_num a < level_num b"

instance
proof
  fix x y z :: LogLevel
  show "x < y \<longleftrightarrow> x \<le> y \<and> \<not> y \<le> x" by (auto simp: less_eq_LogLevel_def less_LogLevel_def)
  show "x \<le> x" by (simp add: less_eq_LogLevel_def)
  show "x \<le> y \<Longrightarrow> y \<le> z \<Longrightarrow> x \<le> z" by (simp add: less_eq_LogLevel_def)
  show "x \<le> y \<Longrightarrow> y \<le> x \<Longrightarrow> x = y" by (cases x; cases y) (simp_all add: less_eq_LogLevel_def word_le_nat_alt)
  show "x \<le> y \<or> y \<le> x" by (auto simp: less_eq_LogLevel_def)
qed

end

lemma should_log_iff: "should_log lg level \<longleftrightarrow> lg_level lg \<le> level"
  by (simp add: should_log_def less_eq_LogLevel_def)

section \<open>Names of events\<close>

fun variant_name :: "LogEvent \<Rightarrow> string" where
  "variant_name WorkerStart = ''WorkerStart''"
| "variant_name WorkerStop = ''WorkerStop''"
| "variant_name WorkerRestart = ''WorkerRestart''"
| "variant_name RequestStart = ''RequestStart''"
| "variant_name RequestEnd = ''RequestEnd''"
| "variant_name RequestTimeout = ''RequestTimeout''"
| "variant_name RequestError = ''RequestError''"
| "variant_name CircuitOpen = ''CircuitOpen''"
| "variant_name CircuitClose = ''CircuitClose''"
| "variant_name CircuitHalfOpen = ''CircuitHalfOpen''"
| "variant_name SocketConnect = ''SocketConnect''"
| "variant_name SocketDisconnect = ''SocketDisconnect''"
| "variant_name SocketReconnect = ''SocketReconnect''"
| "variant_name ProcessSpawn = ''ProcessSpawn''"
| "variant_name ProcessExit = ''ProcessExit''"
| "variant_name HeartbeatSent = ''HeartbeatSent''"
| "variant_name HeartbeatReceived = ''HeartbeatReceived''"
| "variant_name HeartbeatMissed = ''HeartbeatMissed''"
| "variant_name HeartbeatTimeout = ''HeartbeatTimeout''"
| "variant_name QueueOverflow = ''QueueOverflow''"

definition is_upper :: "char \<Rightarrow> bool" where
  "is_upper c \<longleftrightarrow> 65 \<le> (of_char c :: nat) \<and> (of_char c :: nat) \<le> 90"

definition to_lower :: "char \<Rightarrow> char" where
  "to_lower c = (if is_upper c then char_of ((of_char c :: nat) + 32) else c)"

text \<open>The rule \<open>rename_all = "snake_case"\<close>, and what serialising a unit variant gives under it.\<close>

fun snake_tail :: "string \<Rightarrow> string" where
  "snake_tail [] = []"
| "snake_tail (c # s) = (if is_upper c then ''_'' else []) @ to_lower c # snake_tail s"

fun snake_case :: "string \<Rightarrow> string" where
  "snake_case [] = []"
| "snake_case (c # s) = to_lower c # snake_tail s"

definition serde_events :: "(LogEvent \<Rightarrow> string option) \<Rightarrow> bool" where
  "serde_events ser \<longleftrightarrow> (\<forall>e. ser e = Some (CHR 0x22 # snake_case (variant_name e) @ [CHR 0x22]))"

lemma trim_quoted:
  "s \<noteq> [] \<Longrightarrow> hd s \<noteq> CHR 0x22 \<Longrightarrow> last s \<noteq> CHR 0x22 \<Longrightarrow> trim_quotes (CHR 0x22 # s @ [CHR 0x22]) = s"
proof -
  assume s: "s \<noteq> []" "hd s \<noteq> CHR 0x22" "last s \<noteq> CHR 0x22"
  have "dropWhile (\<lambda>c. c = CHR 0x22) (s @ [CHR 0x22]) = s @ [CHR 0x22]"
    using s(1,2) by (simp add: dropWhile_eq_self_iff hd_append)
  moreover have "dropWhile (\<lambda>c. c = CHR 0x22) (rev s) = rev s"
    using s(1,3) by (simp add: dropWhile_eq_self_iff hd_rev)
  ultimately show ?thesis by (simp add: trim_quotes_def)
qed

definition all_events :: "LogEvent list" where
  "all_events = [WorkerStart, WorkerStop, WorkerRestart, RequestStart, RequestEnd, RequestTimeout, RequestError,
     CircuitOpen, CircuitClose, CircuitHalfOpen, SocketConnect, SocketDisconnect, SocketReconnect, ProcessSpawn,
     ProcessExit, HeartbeatSent, HeartbeatReceived, HeartbeatMissed, HeartbeatTimeout, QueueOverflow]"

lemma in_all_events: "e \<in> set all_events"
  by (cases e) (simp_all add: all_events_def)

lemma event_name_ends:
  "snake_case (variant_name e) \<noteq> [] \<and> hd (snake_case (variant_name e)) \<noteq> CHR 0x22 \<and>
   last (snake_case (variant_name e)) \<noteq> CHR 0x22"
proof -
  have "list_all (\<lambda>s. s \<noteq> [] \<and> hd s \<noteq> CHR 0x22 \<and> last s \<noteq> CHR 0x22)
      (map (\<lambda>e. snake_case (variant_name e)) all_events)"
    by code_simp
  then show ?thesis using in_all_events [of e] by (simp add: list_all_iff)
qed

lemma event_text_snake: "serde_events ser \<Longrightarrow> event_text ser e = snake_case (variant_name e)"
  using event_name_ends [of e] by (simp add: serde_events_def event_text_def trim_quoted)

section \<open>Sessions\<close>

record log_call =
  lc_env :: log_env
  lc_event :: LogEvent
  lc_message :: string
  lc_level :: LogLevel
  lc_options :: LogOptions

fun log_session :: "'w StructuredLogger \<Rightarrow> log_call list \<Rightarrow> 'w \<Rightarrow> 'w option" where
  "log_session lg [] w = Some w"
| "log_session lg (c # cs) w =
     (case log_event (lc_env c) lg (lc_event c) (lc_message c) (lc_level c) (lc_options c) w of
        None \<Rightarrow> None
      | Some w' \<Rightarrow> log_session lg cs w')"

definition entry_of_call :: "'w StructuredLogger \<Rightarrow> log_call \<Rightarrow> LogEntry" where
  "entry_of_call lg c = make_entry (lc_env c) lg (lc_event c) (lc_message c) (lc_level c) (lc_options c)"

lemma json_session:
  assumes "lg_handler lg = Some (default_json_handler print)"
  shows "log_session lg cs out =
    Some (out @ map (to_json print \<circ> entry_of_call lg) (filter (\<lambda>c. lg_level lg \<le> lc_level c) cs))"
  using assms
  by (induction cs arbitrary: out)
    (simp_all add: log_event_def should_log_iff default_json_handler_def entry_of_call_def)

section \<open>Readable lines\<close>

lemma pretty_line_None:
  "pretty_line secs e = None \<longleftrightarrow> (\<exists>r. le_request_id e = Some r \<and> 8 < length r \<and> is_continuation (r ! 8))"
  by (auto simp: pretty_line_def Let_def slice_to_def is_char_boundary_def min_def split: option.splits if_splits)

lemma join_three: "\<exists>rest. join_spaces ([a, b, c] @ xs) = a @ '' '' @ b @ '' '' @ c @ rest"
  by (cases xs) simp_all

lemma pretty_line_prefix:
  assumes "pretty_line secs e = Some line"
  shows "\<exists>rest. line = ''['' @ time_str secs @ ''] ['' @ pad_right 5 (map to_upper (le_level e)) @ ''] '' @
    le_event e @ '' '' @ le_message e @ rest"
proof -
  define prefix where "prefix = ''['' @ time_str secs @ ''] ['' @ pad_right 5 (map to_upper (le_level e)) @ '']''"
  define req where "req = (case le_request_id e of None \<Rightarrow> Some [] | Some req_id \<Rightarrow>
      map_option (\<lambda>short. [''req='' @ short]) (slice_to (min (length req_id) 8) req_id))"
  define tail where "tail = (case le_function e of Some func \<Rightarrow> [''fn='' @ func] | None \<Rightarrow> []) @
      (case le_duration_ms e of Some duration \<Rightarrow> [fmt_f1 duration @ ''ms''] | None \<Rightarrow> []) @
      (case le_error e of Some err \<Rightarrow> [''error='' @ err] | None \<Rightarrow> [])"
  have "pretty_line secs e = (case req of None \<Rightarrow> None
      | Some r \<Rightarrow> Some (join_spaces ([prefix, le_event e, le_message e] @ r @ tail)))"
    by (simp only: pretty_line_def Let_def prefix_def req_def tail_def)
  then obtain r where "line = join_spaces ([prefix, le_event e, le_message e] @ r @ tail)"
    using assms by (cases req) (simp_all only: option.case option.inject option.distinct)
  moreover obtain rest where
    "join_spaces ([prefix, le_event e, le_message e] @ r @ tail) = prefix @ '' '' @ le_event e @ '' '' @ le_message e @ rest"
    using join_three [of prefix "le_event e" "le_message e" "r @ tail"] by blast
  ultimately show ?thesis by (intro exI [of _ rest]) (simp add: prefix_def)
qed

lemma length_pad2: "n < 100 \<Longrightarrow> length (pad2 n) = 2"
  by (auto simp: pad2_def show_nat.simps [of n] show_nat.simps [of "n div 10"])

lemma digits_val_pad2: "digits_val (pad2 n) = n"
  by (auto simp: pad2_def) (simp add: digits_val_def digit_val_def show_nat.simps [of n])

lemma length_pad2_mod [simp]: "length (pad2 (n mod 60)) = 2" "length (pad2 (n mod 24)) = 2"
proof -
  have "n mod 60 < 60" "n mod 24 < 24" by simp_all
  then show "length (pad2 (n mod 60)) = 2" "length (pad2 (n mod 24)) = 2"
    by (auto intro!: length_pad2)
qed

lemma time_of_day: "secs div 3600 mod 24 * 3600 + secs div 60 mod 60 * 60 + secs mod 60 = (secs :: nat) mod 86400"
proof -
  have "secs div 3600 = secs div 60 div 60" by (simp add: div_mult2_eq [symmetric])
  moreover have "secs mod 86400 = secs mod 60 + 60 * (secs div 60 mod 1440)" using mod_mult2_eq [of secs 60 1440] by simp
  moreover have "secs div 60 mod 1440 = secs div 60 mod 60 + 60 * (secs div 60 div 60 mod 24)"
    using mod_mult2_eq [of "secs div 60" 60 24] by simp
  ultimately show ?thesis by simp
qed

section \<open>Properties\<close>

text \<open>
  C29: a logger with the JSON handler prints exactly the calls at or above its level, one
  line each and in order, whatever is logged in between; a logger with a higher level and
  the same context prints a subsequence of the lines.
\<close>

theorem json_session_lines:
  assumes "level \<le> level'"
  shows "\<exists>lines lines'.
    log_session (new_logger (Some (default_json_handler print)) level worker service) cs out = Some (out @ lines) \<and>
    log_session (new_logger (Some (default_json_handler print)) level' worker service) cs out = Some (out @ lines') \<and>
    lines = map (\<lambda>c. to_json print (make_entry (lc_env c)
        (new_logger (Some (default_json_handler print)) level worker service) (lc_event c) (lc_message c) (lc_level c) (lc_options c)))
      (filter (\<lambda>c. level \<le> lc_level c) cs) \<and>
    subseq lines' lines"
proof -
  define lg where "lg = (\<lambda>level. new_logger (Some (default_json_handler print)) level worker service)"
  have run: "log_session (lg l) cs out =
      Some (out @ map (to_json print \<circ> entry_of_call (lg l)) (filter (\<lambda>c. l \<le> lc_level c) cs))" for l
    using json_session [of "lg l" print cs out] by (simp add: lg_def new_logger_def)
  have same: "entry_of_call (lg level') = entry_of_call (lg level)"
    by (rule ext) (simp add: entry_of_call_def make_entry_def lg_def new_logger_def)
  have "subseq (filter (\<lambda>c. level' \<le> lc_level c) (filter (\<lambda>c. level \<le> lc_level c) cs)) (filter (\<lambda>c. level \<le> lc_level c) cs)"
    by (rule subseq_filter_left)
  moreover have "filter (\<lambda>c. level' \<le> lc_level c) (filter (\<lambda>c. level \<le> lc_level c) cs) = filter (\<lambda>c. level' \<le> lc_level c) cs"
    using assms by (auto intro: filter_cong)
  ultimately have "subseq (map (to_json print \<circ> entry_of_call (lg level)) (filter (\<lambda>c. level' \<le> lc_level c) cs))
      (map (to_json print \<circ> entry_of_call (lg level)) (filter (\<lambda>c. level \<le> lc_level c) cs))"
    by (metis subseq_map)
  moreover have "log_session (lg level') cs out =
      Some (out @ map (to_json print \<circ> entry_of_call (lg level)) (filter (\<lambda>c. level' \<le> lc_level c) cs))"
    by (simp only: run same)
  ultimately show ?thesis
    using run [of level] by (simp add: lg_def entry_of_call_def comp_def)
qed

theorem json_session_lines_witness:
  "\<exists>lines'. log_session (new_logger (Some (default_json_handler (\<lambda>fs. Some (concat (map fst fs))))) Error None None)
     [\<lparr>lc_env = \<lparr>lv_ser_event = (\<lambda>_. None), lv_clock = None\<rparr>, lc_event = WorkerStart, lc_message = ''up'',
       lc_level = Info, lc_options = default_options\<rparr>] [] = Some lines' \<and>
     subseq lines' [''eventlevelmessagetimestamp'']"
  using json_session_lines [of Info Error "\<lambda>fs. Some (concat (map fst fs))" None None
      "[\<lparr>lc_env = \<lparr>lv_ser_event = (\<lambda>_. None), lv_clock = None\<rparr>, lc_event = WorkerStart, lc_message = ''up'',
         lc_level = Info, lc_options = default_options\<rparr>]" "[]"]
  by (auto simp: less_eq_LogLevel_def to_json_def entry_fields_def make_entry_def new_logger_def opt_field_def
      default_options_def word_le_nat_alt simp del: log_session.simps)

lemma pretty_handler_outcome:
  "case default_pretty_handler secs e out of
     None \<Rightarrow> (\<exists>r. le_request_id e = Some r \<and> 8 < length r \<and> is_continuation (r ! 8))
   | Some out' \<Rightarrow> (\<exists>h m s rest. out' = out @ [''['' @ h @ '':'' @ m @ '':'' @ s @ ''] ['' @
         pad_right 5 (map to_upper (le_level e)) @ ''] '' @ le_event e @ '' '' @ le_message e @ rest] \<and>
       digits_val h * 3600 + digits_val m * 60 + digits_val s = secs mod 86400 \<and>
       length h = 2 \<and> length m = 2 \<and> length s = 2) \<and>
     (\<nexists>r. le_request_id e = Some r \<and> 8 < length r \<and> is_continuation (r ! 8))"
proof (cases "pretty_line secs e")
  case None
  then show ?thesis using pretty_line_None [of secs e] by (simp add: default_pretty_handler_def)
next
  case (Some line)
  obtain rest where line: "line = ''['' @ time_str secs @ ''] ['' @ pad_right 5 (map to_upper (le_level e)) @ ''] '' @
      le_event e @ '' '' @ le_message e @ rest"
    using pretty_line_prefix [OF Some] by blast
  define h m s where "h = pad2 (secs div 3600 mod 24)" and "m = pad2 (secs div 60 mod 60)" and "s = pad2 (secs mod 60)"
  have time: "time_str secs = h @ '':'' @ m @ '':'' @ s" by (simp add: time_str_def h_def m_def s_def)
  have "digits_val h * 3600 + digits_val m * 60 + digits_val s = secs mod 86400 \<and>
      length h = 2 \<and> length m = 2 \<and> length s = 2"
    by (simp add: h_def m_def s_def digits_val_pad2 time_of_day)
  then have "\<exists>h m s rest. out @ [line] = out @ [''['' @ h @ '':'' @ m @ '':'' @ s @ ''] ['' @
         pad_right 5 (map to_upper (le_level e)) @ ''] '' @ le_event e @ '' '' @ le_message e @ rest] \<and>
       digits_val h * 3600 + digits_val m * 60 + digits_val s = secs mod 86400 \<and>
       length h = 2 \<and> length m = 2 \<and> length s = 2"
    by - (rule exI [of _ h], rule exI [of _ m], rule exI [of _ s], rule exI [of _ rest], simp add: line time)
  moreover have "default_pretty_handler secs e out = Some (out @ [line])"
    by (simp add: default_pretty_handler_def Some)
  ultimately show ?thesis
    using Some pretty_line_None [of secs e] by (simp only: option.case) simp
qed

lemma level_columns:
  "pad_right 5 (map to_upper ''debug'') = ''DEBUG''" "pad_right 5 (map to_upper ''info'') = ''INFO ''"
  "pad_right 5 (map to_upper ''warn'') = ''WARN ''" "pad_right 5 (map to_upper ''error'') = ''ERROR''"
  by code_simp+

text \<open>
  C33: the readable handler prints a line for an entry of the logger unless the request
  identifier has a character across its byte 8, in which case it panics. A line starts
  with the time of day, which read as hours, minutes and seconds is the clock modulo a day,
  the padded level, the event and the message.
\<close>

theorem pretty_handler_line:
  "case default_pretty_handler secs (make_entry lv lg event message level options) out of
     None \<Rightarrow> (\<exists>r. lo_request_id options = Some r \<and> 8 < length r \<and> is_continuation (r ! 8))
   | Some out' \<Rightarrow> (\<exists>h m s rest. out' = out @ [''['' @ h @ '':'' @ m @ '':'' @ s @ ''] ['' @
         (case level of Debug \<Rightarrow> ''DEBUG'' | Info \<Rightarrow> ''INFO '' | Warn \<Rightarrow> ''WARN '' | Error \<Rightarrow> ''ERROR'') @
         ''] '' @ event_text (lv_ser_event lv) event @ '' '' @ message @ rest] \<and>
       digits_val h * 3600 + digits_val m * 60 + digits_val s = secs mod 86400 \<and>
       length h = 2 \<and> length m = 2 \<and> length s = 2) \<and>
     (\<nexists>r. lo_request_id options = Some r \<and> 8 < length r \<and> is_continuation (r ! 8))"
proof -
  let ?e = "make_entry lv lg event message level options"
  have column: "pad_right 5 (map to_upper (level_text level)) =
      (case level of Debug \<Rightarrow> ''DEBUG'' | Info \<Rightarrow> ''INFO '' | Warn \<Rightarrow> ''WARN '' | Error \<Rightarrow> ''ERROR'')"
    by (cases level) (simp_all only: level_text.simps LogLevel.case level_columns)
  have e: "le_level ?e = level_text level" "le_event ?e = event_text (lv_ser_event lv) event"
    "le_message ?e = message" "le_request_id ?e = lo_request_id options"
    by (simp_all add: make_entry_def)
  show ?thesis
    using pretty_handler_outcome [where secs = secs and out = out and e = ?e] unfolding e column .
qed

end
