(* ===== verification/Deployment.thy ===== *)
theory Deployment
  imports Router_Connection Client_Correlation Client_Service_Spec
begin

text \<open>
  A caller, the router and a service connected by their sockets. The lemmas first carry a
  frame from one crate to the other and back; the deployment then runs one whole call, from
  \<open>send_and_wait\<close> of the caller through both router connections and the service's loop to
  the inbound task that wakes the request.
\<close>

section \<open>Frames between the crates\<close>

lemma client_frame_to_router:
  assumes "round_trips (enc_envelope cd) (dec_envelope cd)" and "well_framed cd e"
    and "mf_encode_frame cd e b = Inr f"
  shows "decode_frame cd f = Inr \<lparr>fp_envelope = e, fp_body_bytes = b\<rparr>"
  using assms by (rule to_router.cross_decode)

lemma router_frame_to_client:
  assumes "round_trips (enc_envelope cd) (dec_envelope cd)" and "well_framed cd e"
    and "encode_frame cd e b = Inr f"
  shows "mf_decode_frame cd f = Inr \<lparr>fp_envelope = e, fp_body_bytes = b\<rparr>"
  using assms by (rule to_client.cross_decode)

lemma call_request_frame:
  assumes "call_request cd m ts tr target fn args = Inr (m', f)"
  shows "m' = m \<and> (\<exists>b. enc_call cd \<lparr>call_function = fn, call_args = args, call_namespace = None\<rparr> = Inr b \<and>
    mf_encode_frame cd (build_call_envelope m ts (ct_peer_id tr) target) b = Inr f)"
  using assms
  by (auto simp: call_request_def encode_call_body_def and_then_eq_Inr Let_def build_call_envelope_def)

lemma reply_result:
  assumes "round_trips (enc_response cd) (dec_response cd)" and "error_round_trips cd"
    and "answer_body cd (Answer res) = Inr b"
    and "env_kind (fp_envelope reply) = (case res of Inr _ \<Rightarrow> ''response'' | Inl _ \<Rightarrow> ''error'')"
    and "fp_body_bytes reply = b"
  shows "call_result cd from_value reply = (case res of
      Inr v \<Rightarrow> map_err JsonError (from_value v) | Inl err \<Rightarrow> Inl (RemoteCallError (error_text err)))"
proof (cases res)
  case (Inl err)
  then have "dec_error cd b = Inr (failure_body ''application_error'' ''application'' (error_text err))"
    using assms(2,3) by (simp add: error_round_tripsD failure_body_def)
  then show ?thesis using Inl assms(4,5)
    by (simp add: call_result_def mf_defs reply_failure_def decode_router_or_peer_error_def
        mf_decode_error_body_def failure_body_def)
next
  case (Inr v)
  then have "dec_response cd b = Inr \<lparr>resp_result = v\<rparr>"
    using assms(1,3) by (simp add: round_trips_def)
  then show ?thesis using Inr assms(4,5)
    by (simp add: call_result_def mf_defs decode_response_body_def)
qed

lemma call_end_to_end:
  assumes "round_trips (enc_envelope cd) (dec_envelope cd)" and "round_trips (enc_call cd) (dec_call cd)"
    and "round_trips (enc_response cd) (dec_response cd)" and "error_round_trips cd"
    and "well_framed cd (build_call_envelope m ts (ct_peer_id tr) target)"
    and "call_request cd m ts tr target fn args = Inr (m', f)"
    and "live w (ct_peer_id tr) = Some (Caller, c)" and "live w target = Some (Service, d)"
    and "\<And>s g. w_send_err w s g = None" and "\<And>g. sv_send_err sw g = None"
    and "worker fn args (sv_worker sw) = (res, st)"
    and "answer_body cd (Answer res) = Inr b"
    and "well_framed cd (answer_envelope (mf_now_ts (sv_clock sw)) target
      (build_call_envelope m ts (ct_peer_id tr) target) (Answer res))"
  shows "\<exists>g reply.
    run (loop_body cd c (ct_peer_id tr) Caller (ItemOk (Binary f))) w =
      (Inr Continue, w\<lparr>w_sent := w_sent w @ [(d, f)]\<rparr>) \<and>
    run (service_item cd target worker (ItemOk (Binary f))) sw =
      (ServiceContinue, sw\<lparr>sv_worker := st, sv_sent := sv_sent sw @ [g]\<rparr>) \<and>
    run (loop_body cd d target Service (ItemOk (Binary g))) (w\<lparr>w_sent := w_sent w @ [(d, f)]\<rparr>) =
      (Inr Continue, w\<lparr>w_sent := w_sent w @ [(d, f), (c, g)]\<rparr>) \<and>
    inbound_item cd (ItemOk (Binary g)) = InLookup reply \<and> env_msg_id (fp_envelope reply) = m' \<and>
    call_result cd from_value reply = (case res of
      Inr v \<Rightarrow> map_err JsonError (from_value v) | Inl err \<Rightarrow> Inl (RemoteCallError (error_text err)))"
proof -
  let ?e = "build_call_envelope m ts (ct_peer_id tr) target"
  let ?call = "\<lparr>call_function = fn, call_args = args, call_namespace = None\<rparr>"
  let ?w1 = "w\<lparr>w_sent := w_sent w @ [(d, f)]\<rparr>"
  obtain cb where cb: "enc_call cd ?call = Inr cb" "mf_encode_frame cd ?e cb = Inr f" and m: "m' = m"
    using call_request_frame [OF assms(6)] by blast
  let ?p = "\<lparr>fp_envelope = ?e, fp_body_bytes = cb\<rparr>"
  have dec: "decode_frame cd f = Inr ?p" "mf_decode_frame cd f = Inr ?p"
    using client_frame_to_router [OF assms(1,5) cb(2)] client_frames.decode_encode [OF assms(1,5) cb(2)] by simp_all
  have e: "env_to ?e = target" "env_kind ?e = ''call''" "env_from ?e = ct_peer_id tr" "env_msg_id ?e = m"
    by (simp_all add: build_call_envelope_def mf_defs)
  have there: "run (loop_body cd c (ct_peer_id tr) Caller (ItemOk (Binary f))) w = (Inr Continue, ?w1)"
    using run_routed_frame [OF dec(1), of "ct_peer_id tr" c Caller w] e assms(8,9)
    by (simp add: kind_defs spec_route_def routing_verdict_def deliver_def)
  have "dec_call cd cb = Inr ?call" using assms(2) cb(1) by (rule round_tripsD)
  then have out: "call_outcome cd worker ?p (sv_worker sw) = (Answer res, st)"
    using assms(11) by (simp add: call_outcome_def)
  obtain g reply where g: "run (service_item cd target worker (ItemOk (Binary f))) sw =
      (ServiceContinue, sw\<lparr>sv_worker := st, sv_sent := sv_sent sw @ [g]\<rparr>)"
    "mf_decode_frame cd g = Inr reply" "fp_body_bytes reply = b"
    "env_from (fp_envelope reply) = target" "env_to (fp_envelope reply) = ct_peer_id tr"
    "env_msg_id (fp_envelope reply) = m"
    "env_kind (fp_envelope reply) = (case res of Inr _ \<Rightarrow> ''response'' | Inl _ \<Rightarrow> ''error'')"
    using service_item_answers [OF assms(1) dec(2) _ _ out assms(12), of target] assms(10,13) e by fastforce
  have returned: "run (loop_body cd d target Service (ItemOk (Binary g))) ?w1 =
      (Inr Continue, w\<lparr>w_sent := w_sent w @ [(d, f), (c, g)]\<rparr>)"
    using run_routed_frame [of cd g reply target d Service ?w1] g assms(7,9)
    by (auto simp: to_router.decode_agree kind_defs spec_route_def routing_verdict_def deliver_def live_def
        split: sum.splits)
  have "inbound_item cd (ItemOk (Binary g)) = InLookup reply" using g(2) by (simp add: inbound_item_def)
  then show ?thesis
    using there g(1,6) returned m reply_result [OF assms(3,4,12) g(7,3)] by blast
qed

lemma registration_round:
  assumes "round_trips (enc_envelope cd) (dec_envelope cd)"
    and "round_trips (enc_register cd) (dec_register cd)" and "round_trips (enc_ack cd) (dec_ack cd)"
    and "well_framed cd (build_register_envelope m ts pid cls)"
    and "register_frame cd m ts pid cls = Inr f"
    and "well_framed cd (build_envelope KIND_RESPONSE m ROUTER_PEER_ID pid (clock_ts w))"
    and "ack_frame cd KIND_RESPONSE (clock_ts w) m pid = Inr a"
    and "w_peers w pid = None" and "w_send_err w c a = None"
  shows "run (handshake cd c (ItemOk (Binary f))) w = ((Some pid, Inr (Some (pid, cls))),
      w\<lparr>w_peers := (w_peers w)(pid \<mapsto> fresh_record (w_instant w) pid cls c), w_sent := w_sent w @ [(c, a)]\<rparr>) \<and>
    register_reply cd reason (ItemOk (Binary a)) = Inr ()"
proof
  obtain b where b: "enc_register cd \<lparr>reg_peer_id = pid, reg_class = cls\<rparr> = Inr b"
    "mf_encode_frame cd (build_register_envelope m ts pid cls) b = Inr f"
    using assms(5) by (auto simp: register_frame_def mf_encode_register_body_def and_then_eq_Inr)
  have d: "decode_frame cd f = Inr \<lparr>fp_envelope = build_register_envelope m ts pid cls, fp_body_bytes = b\<rparr>"
    using assms(1,4) b(2) by (rule client_frame_to_router)
  have "dec_register cd b = Inr \<lparr>reg_peer_id = pid, reg_class = cls\<rparr>"
    using assms(2) b(1) by (rule round_tripsD)
  then show "run (handshake cd c (ItemOk (Binary f))) w = ((Some pid, Inr (Some (pid, cls))),
      w\<lparr>w_peers := (w_peers w)(pid \<mapsto> fresh_record (w_instant w) pid cls c), w_sent := w_sent w @ [(c, a)]\<rparr>)"
    using run_handshake_register [OF d, of "\<lparr>reg_peer_id = pid, reg_class = cls\<rparr>" c w] assms(7-9)
    by (simp add: build_register_envelope_def mf_defs kind_defs validate_ok_iff ROUTER_PEER_ID_def
        transmit_result_def transmit_def)
next
  obtain ab where ab: "enc_ack cd build_ack_body = Inr ab"
    "encode_frame cd (build_envelope KIND_RESPONSE m ROUTER_PEER_ID pid (clock_ts w)) ab = Inr a"
    using assms(7) by (auto simp: ack_frame_def encode_register_ack_body_def and_then_eq_Inr)
  have "mf_decode_frame cd a =
      Inr \<lparr>fp_envelope = build_envelope KIND_RESPONSE m ROUTER_PEER_ID pid (clock_ts w), fp_body_bytes = ab\<rparr>"
    using assms(1,6) ab(2) by (rule router_frame_to_client)
  moreover have "dec_ack cd ab = Inr build_ack_body" using assms(3) ab(1) by (rule round_tripsD)
  ultimately show "register_reply cd reason (ItemOk (Binary a)) = Inr ()"
    by (simp add: register_reply_def build_envelope_def kind_defs mf_defs mf_decode_register_ack_body_def
        build_ack_body_def)
qed

section \<open>The deployment\<close>

record 'w Deployment =
  dp_client :: ClientSystem
  dp_router :: World
  dp_service :: "'w ServiceWorld"

text \<open>What the router wrote to a socket between two of its states.\<close>

definition written :: "sink \<Rightarrow> World \<Rightarrow> World \<Rightarrow> bytes list" where
  "written sink w w' = map snd (filter (\<lambda>x. fst x = sink) (drop (length (w_sent w)) (w_sent w')))"

text \<open>The router connection of a peer and the service's loop read frames in order, while they continue.\<close>

fun route_frames :: "codec \<Rightarrow> sink \<Rightarrow> string \<Rightarrow> PeerClass \<Rightarrow> bytes list \<Rightarrow> World \<Rightarrow> World" where
  "route_frames cd sink pid cls [] w = w"
| "route_frames cd sink pid cls (f # fs) w =
     (case run (loop_body cd sink pid cls (ItemOk (Binary f))) w of
        (Inr Continue, w') \<Rightarrow> route_frames cd sink pid cls fs w'
      | (_, w') \<Rightarrow> w')"

fun serve_frames :: "codec \<Rightarrow> string \<Rightarrow> 'w worker \<Rightarrow> bytes list \<Rightarrow> 'w ServiceWorld \<Rightarrow> 'w ServiceWorld" where
  "serve_frames cd pid worker [] sw = sw"
| "serve_frames cd pid worker (f # fs) sw =
     (case run (service_item cd pid worker (ItemOk (Binary f))) sw of
        (ServiceContinue, sw') \<Rightarrow> serve_frames cd pid worker fs sw'
      | (_, sw') \<Rightarrow> sw')"

text \<open>
  One call, in the order in which its frames travel: the request runs until it waits, the
  caller's router connection reads what it sent, the service what the router wrote to it,
  the service's router connection what the service wrote, and the inbound task what the
  router wrote to the caller on either connection; then the request looks at its channel.
\<close>

definition whole_call ::
    "codec \<Rightarrow> CallerTransport \<Rightarrow> (nat \<Rightarrow> string) \<Rightarrow> 'w worker \<Rightarrow> string \<Rightarrow> sink \<Rightarrow> sink \<Rightarrow> nat \<Rightarrow> bytes \<Rightarrow>
     'w Deployment \<Rightarrow> 'w Deployment option" where
  "whole_call cd tr ids worker target c d n f s =
     (case client_run cd tr ids [Issue n f, Advance n, Advance n, Advance n] (dp_client s) of
        None \<Rightarrow> None
      | Some cs1 \<Rightarrow>
          let w = dp_router s; sw = dp_service s;
              w1 = route_frames cd c (ct_peer_id tr) Caller
                     (drop (length (cl_sent (cs_client (dp_client s)))) (cl_sent (cs_client cs1))) w;
              sw1 = serve_frames cd target worker (written d w w1) sw;
              w2 = route_frames cd d target Service (drop (length (sv_sent sw)) (sv_sent sw1)) w1
          in map_option (\<lambda>cs2. \<lparr>dp_client = cs2, dp_router = w2, dp_service = sw1\<rparr>)
               (client_run cd tr ids
                  (concat (map (\<lambda>g. [Receive (ItemOk (Binary g)), InboundStep, InboundStep]) (written c w w2)) @ [Advance n])
                  cs1))"

text \<open>The frame with which request \<open>n\<close> returned.\<close>

definition returned_frame :: "nat \<Rightarrow> 'w Deployment \<Rightarrow> (MultifrostError + FrameParts) option" where
  "returned_frame n s = (case cs_requests (dp_client s) n of
     Some rq \<Rightarrow> (case rq_pc rq of Returned r \<Rightarrow> Some r | _ \<Rightarrow> None)
   | None \<Rightarrow> None)"

text \<open>A caller with an open connection and no outstanding request, whose next request is \<open>n\<close>.\<close>

definition idle :: "nat \<Rightarrow> ClientSystem \<Rightarrow> bool" where
  "idle n cs \<longleftrightarrow> cs_inbound cs = Reading \<and> \<not> cl_closed (cs_client cs) \<and> cl_pending (cs_client cs) = [] \<and>
     (\<forall>f. cl_send_err (cs_client cs) f = None) \<and> (\<forall>k \<ge> n. cs_requests cs k = None)"

lemma idle_request:
  assumes "idle n cs"
  shows "\<exists>cs1. client_run cd tr ids [Issue n f, Advance n, Advance n, Advance n] cs = Some cs1 \<and>
    cl_sent (cs_client cs1) = cl_sent (cs_client cs) @ [f] \<and>
    (\<forall>g reply. inbound_item cd (ItemOk (Binary g)) = InLookup reply \<and> env_msg_id (fp_envelope reply) = ids n \<longrightarrow>
      (\<exists>cs2. client_run cd tr ids [Receive (ItemOk (Binary g)), InboundStep, InboundStep, Advance n] cs1 = Some cs2 \<and>
        map_option rq_pc (cs_requests cs2 n) = Some (Returned (Inr reply)) \<and> idle (Suc n) cs2))"
  using assms
  by (simp add: idle_def send_and_wait_def set_request_def pending_insert_def pending_remove_def send_raw_frame_def
      chan_set_def inbound_loop_def Let_def)

text \<open>
  A call returns what the worker answered, to a caller that is idle again and with the
  router's registry and the service's other state unchanged.
\<close>

lemma whole_call_returns:
  assumes "round_trips (enc_envelope cd) (dec_envelope cd)" and "round_trips (enc_call cd) (dec_call cd)"
    and "round_trips (enc_response cd) (dec_response cd)" and "error_round_trips cd"
    and "idle n (dp_client s)"
    and "well_framed cd (build_call_envelope (ids n) ts (ct_peer_id tr) target)"
    and "call_request cd (ids n) ts tr target fn args = Inr (m, f)"
    and "live (dp_router s) (ct_peer_id tr) = Some (Caller, c)" and "live (dp_router s) target = Some (Service, d)"
    and "\<And>k g. w_send_err (dp_router s) k g = None" and "\<And>g. sv_send_err (dp_service s) g = None"
    and "worker fn args (sv_worker (dp_service s)) = (res, st)"
    and "answer_body cd (Answer res) = Inr b"
    and "well_framed cd (answer_envelope (mf_now_ts (sv_clock (dp_service s))) target
      (build_call_envelope (ids n) ts (ct_peer_id tr) target) (Answer res))"
    and "c \<noteq> d"
  shows "\<exists>t g reply. whole_call cd tr ids worker target c d n f s = Some t \<and>
    returned_frame n t = Some (Inr reply) \<and>
    call_result cd from_value reply = (case res of
      Inr v \<Rightarrow> map_err JsonError (from_value v) | Inl err \<Rightarrow> Inl (RemoteCallError (error_text err))) \<and>
    idle (Suc n) (dp_client t) \<and>
    dp_router t = (dp_router s)\<lparr>w_sent := w_sent (dp_router s) @ [(d, f), (c, g)]\<rparr> \<and>
    dp_service t = (dp_service s)\<lparr>sv_worker := st, sv_sent := sv_sent (dp_service s) @ [g]\<rparr>"
proof -
  let ?w = "dp_router s" and ?sw = "dp_service s"
  let ?w1 = "?w\<lparr>w_sent := w_sent ?w @ [(d, f)]\<rparr>" and ?caller = "ct_peer_id tr"
  obtain g reply where hops:
      "run (loop_body cd c ?caller Caller (ItemOk (Binary f))) ?w = (Inr Continue, ?w1)"
      "run (service_item cd target worker (ItemOk (Binary f))) ?sw =
        (ServiceContinue, ?sw\<lparr>sv_worker := st, sv_sent := sv_sent ?sw @ [g]\<rparr>)"
      "run (loop_body cd d target Service (ItemOk (Binary g))) ?w1 =
        (Inr Continue, ?w\<lparr>w_sent := w_sent ?w @ [(d, f), (c, g)]\<rparr>)"
    and inb: "inbound_item cd (ItemOk (Binary g)) = InLookup reply" "env_msg_id (fp_envelope reply) = m"
    and res: "call_result cd from_value reply = (case res of
      Inr v \<Rightarrow> map_err JsonError (from_value v) | Inl err \<Rightarrow> Inl (RemoteCallError (error_text err)))"
    using call_end_to_end [where from_value = from_value and worker = worker and sw = ?sw,
        OF assms(1-4) assms(6-14)] by blast
  have m: "m = ids n" using call_request_frame [OF assms(7)] by blast
  obtain cs1 cs2 where
      cs1: "client_run cd tr ids [Issue n f, Advance n, Advance n, Advance n] (dp_client s) = Some cs1"
        "cl_sent (cs_client cs1) = cl_sent (cs_client (dp_client s)) @ [f]"
      and cs2: "client_run cd tr ids [Receive (ItemOk (Binary g)), InboundStep, InboundStep, Advance n] cs1 = Some cs2"
        "map_option rq_pc (cs_requests cs2 n) = Some (Returned (Inr reply))" "idle (Suc n) cs2"
    using idle_request [OF assms(5), of cd tr ids f] inb m by metis
  have "whole_call cd tr ids worker target c d n f s = Some \<lparr>dp_client = cs2,
      dp_router = ?w\<lparr>w_sent := w_sent ?w @ [(d, f), (c, g)]\<rparr>,
      dp_service = ?sw\<lparr>sv_worker := st, sv_sent := sv_sent ?sw @ [g]\<rparr>\<rparr>"
    using cs1 cs2(1) hops assms(15)
    by (simp add: whole_call_def written_def Let_def del: client_run.simps)
  then show ?thesis
    using cs2 res by (auto simp: returned_frame_def)
qed

text \<open>
  A call to an identity that is not live: the router answers the caller with one error
  frame, which the caller's inbound task takes for the request.
\<close>

lemma missing_target_reply:
  assumes "round_trips (enc_envelope cd) (dec_envelope cd)" and "error_round_trips cd"
    and "well_framed cd (build_call_envelope m ts (ct_peer_id tr) target)"
    and "call_request cd m ts tr target fn args = Inr (m', f)"
    and "live w target = None" and "\<And>s g. w_send_err w s g = None"
    and "well_framed cd (build_envelope KIND_ERROR m ROUTER_PEER_ID ROUTER_PEER_ID (clock_ts w))"
    and "error_frame cd (clock_ts w) m ''peer_not_found'' ''call target not found'' = Inr g"
  shows "\<exists>reply. run (loop_body cd c (ct_peer_id tr) Caller (ItemOk (Binary f))) w =
      (Inr Continue, w\<lparr>w_sent := w_sent w @ [(c, g)]\<rparr>) \<and>
    inbound_item cd (ItemOk (Binary g)) = InLookup reply \<and> env_msg_id (fp_envelope reply) = m' \<and>
    call_result cd from_value reply = Inl (RouterUnavailable ''call target not found'')"
proof -
  let ?e = "build_call_envelope m ts (ct_peer_id tr) target"
  let ?r = "build_envelope KIND_ERROR m ROUTER_PEER_ID ROUTER_PEER_ID (clock_ts w)"
  obtain cb where cb: "mf_encode_frame cd ?e cb = Inr f" and m: "m' = m"
    using call_request_frame [OF assms(4)] by blast
  have dec: "decode_frame cd f = Inr \<lparr>fp_envelope = ?e, fp_body_bytes = cb\<rparr>"
    using assms(1,3) cb by (rule client_frame_to_router)
  have run: "run (loop_body cd c (ct_peer_id tr) Caller (ItemOk (Binary f))) w =
      (Inr Continue, w\<lparr>w_sent := w_sent w @ [(c, g)]\<rparr>)"
    using run_routed_frame [OF dec, of "ct_peer_id tr" c Caller w] assms(5,6,8)
    by (simp add: build_call_envelope_def mf_defs kind_defs spec_route_def routing_verdict_def reply_error_def
        transmit_result_def transmit_def)
  obtain eb where eb: "enc_error cd (build_error_body ''peer_not_found'' ''call target not found'') = Inr eb"
    "encode_frame cd ?r eb = Inr g"
    using assms(8) by (auto simp: error_frame_def encode_error_body_def and_then_eq_Inr)
  have back_dec: "mf_decode_frame cd g = Inr \<lparr>fp_envelope = ?r, fp_body_bytes = eb\<rparr>"
    using assms(1,7) eb(2) by (rule router_frame_to_client)
  have "dec_error cd eb = Inr (build_error_body ''peer_not_found'' ''call target not found'')"
    using assms(2) eb(1) by (rule error_round_tripsD) (simp add: build_error_body_def)
  then have "call_result cd from_value \<lparr>fp_envelope = ?r, fp_body_bytes = eb\<rparr> =
      Inl (RouterUnavailable ''call target not found'')"
    by (simp add: call_result_def build_envelope_def kind_defs mf_defs reply_failure_def
        decode_router_or_peer_error_def mf_decode_error_body_def build_error_body_def)
  then show ?thesis
    using run back_dec m by (simp add: inbound_item_def build_envelope_def)
qed

lemma whole_call_missing:
  assumes "round_trips (enc_envelope cd) (dec_envelope cd)" and "error_round_trips cd"
    and "well_framed cd (build_call_envelope (ids n) ts (ct_peer_id tr) target)"
    and "call_request cd (ids n) ts tr target fn args = Inr (m, f)"
    and "live (dp_router s) target = None" and "\<And>k g. w_send_err (dp_router s) k g = None"
    and "well_framed cd (build_envelope KIND_ERROR (ids n) ROUTER_PEER_ID ROUTER_PEER_ID (clock_ts (dp_router s)))"
    and "error_frame cd (clock_ts (dp_router s)) (ids n) ''peer_not_found'' ''call target not found'' = Inr g"
    and "idle n (dp_client s)" and "c \<noteq> d"
  shows "\<exists>t reply. whole_call cd tr ids worker target c d n f s = Some t \<and>
    returned_frame n t = Some (Inr reply) \<and>
    call_result cd from_value reply = Inl (RouterUnavailable ''call target not found'') \<and>
    idle (Suc n) (dp_client t) \<and> dp_service t = dp_service s \<and>
    dp_router t = (dp_router s)\<lparr>w_sent := w_sent (dp_router s) @ [(c, g)]\<rparr>"
proof -
  let ?w = "dp_router s"
  obtain reply where run: "run (loop_body cd c (ct_peer_id tr) Caller (ItemOk (Binary f))) ?w =
      (Inr Continue, ?w\<lparr>w_sent := w_sent ?w @ [(c, g)]\<rparr>)"
    and inb: "inbound_item cd (ItemOk (Binary g)) = InLookup reply" "env_msg_id (fp_envelope reply) = m"
    and res: "call_result cd from_value reply = Inl (RouterUnavailable ''call target not found'')"
    using missing_target_reply [OF assms(1-8)] by blast
  have m: "m = ids n" using call_request_frame [OF assms(4)] by blast
  obtain cs1 cs2 where
      cs1: "client_run cd tr ids [Issue n f, Advance n, Advance n, Advance n] (dp_client s) = Some cs1"
        "cl_sent (cs_client cs1) = cl_sent (cs_client (dp_client s)) @ [f]"
      and cs2: "client_run cd tr ids [Receive (ItemOk (Binary g)), InboundStep, InboundStep, Advance n] cs1 = Some cs2"
        "map_option rq_pc (cs_requests cs2 n) = Some (Returned (Inr reply))" "idle (Suc n) cs2"
    using idle_request [OF assms(9), of cd tr ids f] inb m by metis
  have "whole_call cd tr ids worker target c d n f s = Some \<lparr>dp_client = cs2,
      dp_router = ?w\<lparr>w_sent := w_sent ?w @ [(c, g)]\<rparr>, dp_service = dp_service s\<rparr>"
    using cs1 cs2(1) run assms(10)
    by (simp add: whole_call_def written_def Let_def del: client_run.simps)
  then show ?thesis using cs2 res by (auto simp: returned_frame_def)
qed

section \<open>Queries\<close>

text \<open>A query is answered on the caller's own connection.\<close>

definition whole_query ::
    "codec \<Rightarrow> CallerTransport \<Rightarrow> (nat \<Rightarrow> string) \<Rightarrow> sink \<Rightarrow> nat \<Rightarrow> bytes \<Rightarrow> 'w Deployment \<Rightarrow> 'w Deployment option" where
  "whole_query cd tr ids c n f s =
     (case client_run cd tr ids [Issue n f, Advance n, Advance n, Advance n] (dp_client s) of
        None \<Rightarrow> None
      | Some cs1 \<Rightarrow>
          let w = dp_router s;
              w1 = route_frames cd c (ct_peer_id tr) Caller
                     (drop (length (cl_sent (cs_client (dp_client s)))) (cl_sent (cs_client cs1))) w
          in map_option (\<lambda>cs2. s\<lparr>dp_client := cs2, dp_router := w1\<rparr>)
               (client_run cd tr ids
                  (concat (map (\<lambda>g. [Receive (ItemOk (Binary g)), InboundStep, InboundStep]) (written c w w1)) @ [Advance n])
                  cs1))"

lemma query_request_frame:
  assumes "query_request cd m ts tr q = Inr (m', f)"
  shows "m' = m \<and> (\<exists>b. enc_query cd q = Inr b \<and>
    mf_encode_frame cd (build_query_envelope m ts (ct_peer_id tr) MF_ROUTER_PEER_ID) b = Inr f)"
  using assms
  by (auto simp: query_request_def mf_encode_query_body_def and_then_eq_Inr Let_def build_query_envelope_def)

text \<open>
  The router's answer to a query about an identity, and what the caller reads from it.
\<close>

lemma query_end_to_end:
  assumes "round_trips (enc_envelope cd) (dec_envelope cd)" and "round_trips (enc_query cd) (dec_query cd)"
    and "round_trips (enc_qexists cd) (dec_qexists cd)"
    and "well_framed cd (build_query_envelope m ts (ct_peer_id tr) MF_ROUTER_PEER_ID)"
    and "query_request cd m ts tr (PeerExists x) = Inr (m', f)"
    and "registry_wf (w_peers w)" and "\<And>k g. w_send_err w k g = None"
    and "spec_answer cd (live w) (PeerExists x) = Inr b"
    and "well_framed cd (reply_envelope (build_query_envelope m ts (ct_peer_id tr) MF_ROUTER_PEER_ID) (ct_peer_id tr))"
  shows "\<exists>g reply. run (loop_body cd c (ct_peer_id tr) Caller (ItemOk (Binary f))) w =
      (Inr Continue, w\<lparr>w_sent := w_sent w @ [(c, g)]\<rparr>) \<and>
    inbound_item cd (ItemOk (Binary g)) = InLookup reply \<and> env_msg_id (fp_envelope reply) = m' \<and>
    query_exists_result cd reply = Inr \<lparr>qe_peer_id = x, qe_exists = (live w x \<noteq> None),
      qe_class = map_option fst (live w x), qe_connected = (live w x \<noteq> None)\<rparr>"
proof -
  let ?e = "build_query_envelope m ts (ct_peer_id tr) MF_ROUTER_PEER_ID"
  let ?r = "reply_envelope ?e (ct_peer_id tr)"
  obtain qb where qb: "enc_query cd (PeerExists x) = Inr qb" "mf_encode_frame cd ?e qb = Inr f" and m: "m' = m"
    using query_request_frame [OF assms(5)] by blast
  have dec: "decode_frame cd f = Inr \<lparr>fp_envelope = ?e, fp_body_bytes = qb\<rparr>"
    using assms(1,4) qb(2) by (rule client_frame_to_router)
  have q: "dec_query cd qb = Inr (PeerExists x)" using assms(2) qb(1) by (rule round_tripsD)
  obtain g where g: "encode_frame cd ?r b = Inr g"
    using router_frames.encode_succeeds [OF assms(9)] by blast
  have run: "run (loop_body cd c (ct_peer_id tr) Caller (ItemOk (Binary f))) w =
      (Inr Continue, w\<lparr>w_sent := w_sent w @ [(c, g)]\<rparr>)"
    using run_handle_query [OF q assms(6), of c "ct_peer_id tr" ?e] dec assms(7,8) g
    by (simp add: run_dispatch Let_def kind_defs build_query_envelope_def mf_defs transmit_result_def transmit_def)
  have back_dec: "mf_decode_frame cd g = Inr \<lparr>fp_envelope = ?r, fp_body_bytes = b\<rparr>"
    using assms(1,9) g by (rule router_frame_to_client)
  have "dec_qexists cd b = Inr \<lparr>qe_peer_id = x, qe_exists = (live w x \<noteq> None),
      qe_class = map_option fst (live w x), qe_connected = (live w x \<noteq> None)\<rparr>"
    using assms(3,8) by (simp add: spec_answer_def round_trips_def)
  then have "query_exists_result cd \<lparr>fp_envelope = ?r, fp_body_bytes = b\<rparr> =
      Inr \<lparr>qe_peer_id = x, qe_exists = (live w x \<noteq> None),
        qe_class = map_option fst (live w x), qe_connected = (live w x \<noteq> None)\<rparr>"
    by (simp add: query_exists_result_def reply_envelope_def kind_defs mf_defs mf_decode_query_exists_response_def)
  moreover have "env_msg_id (fp_envelope \<lparr>fp_envelope = ?r, fp_body_bytes = b\<rparr>) = m'"
    by (simp add: reply_envelope_def build_query_envelope_def m)
  moreover have "inbound_item cd (ItemOk (Binary g)) = InLookup \<lparr>fp_envelope = ?r, fp_body_bytes = b\<rparr>"
    using back_dec by (simp add: inbound_item_def)
  ultimately show ?thesis using run by blast
qed

lemma whole_query_answers:
  assumes "round_trips (enc_envelope cd) (dec_envelope cd)" and "round_trips (enc_query cd) (dec_query cd)"
    and "round_trips (enc_qexists cd) (dec_qexists cd)" and "idle n (dp_client s)"
    and "well_framed cd (build_query_envelope (ids n) ts (ct_peer_id tr) MF_ROUTER_PEER_ID)"
    and "query_request cd (ids n) ts tr (PeerExists x) = Inr (m, f)"
    and "registry_wf (w_peers (dp_router s))" and "\<And>k g. w_send_err (dp_router s) k g = None"
    and "spec_answer cd (live (dp_router s)) (PeerExists x) = Inr b"
    and "well_framed cd (reply_envelope (build_query_envelope (ids n) ts (ct_peer_id tr) MF_ROUTER_PEER_ID) (ct_peer_id tr))"
  shows "\<exists>t g reply. whole_query cd tr ids c n f s = Some t \<and> returned_frame n t = Some (Inr reply) \<and>
    query_exists_result cd reply = Inr \<lparr>qe_peer_id = x, qe_exists = (live (dp_router s) x \<noteq> None),
      qe_class = map_option fst (live (dp_router s) x), qe_connected = (live (dp_router s) x \<noteq> None)\<rparr> \<and>
    idle (Suc n) (dp_client t) \<and> dp_router t = (dp_router s)\<lparr>w_sent := w_sent (dp_router s) @ [(c, g)]\<rparr> \<and>
    dp_service t = dp_service s"
proof -
  obtain g reply where g: "run (loop_body cd c (ct_peer_id tr) Caller (ItemOk (Binary f))) (dp_router s) =
      (Inr Continue, (dp_router s)\<lparr>w_sent := w_sent (dp_router s) @ [(c, g)]\<rparr>)"
    and inb: "inbound_item cd (ItemOk (Binary g)) = InLookup reply" "env_msg_id (fp_envelope reply) = m"
    and res: "query_exists_result cd reply = Inr \<lparr>qe_peer_id = x, qe_exists = (live (dp_router s) x \<noteq> None),
      qe_class = map_option fst (live (dp_router s) x), qe_connected = (live (dp_router s) x \<noteq> None)\<rparr>"
    using query_end_to_end [OF assms(1-3,5-10), of c] by blast
  have m: "m = ids n" using query_request_frame [OF assms(6)] by blast
  obtain cs1 cs2 where
      cs1: "client_run cd tr ids [Issue n f, Advance n, Advance n, Advance n] (dp_client s) = Some cs1"
        "cl_sent (cs_client cs1) = cl_sent (cs_client (dp_client s)) @ [f]"
      and cs2: "client_run cd tr ids [Receive (ItemOk (Binary g)), InboundStep, InboundStep, Advance n] cs1 = Some cs2"
        "map_option rq_pc (cs_requests cs2 n) = Some (Returned (Inr reply))" "idle (Suc n) cs2"
    using idle_request [OF assms(4), of cd tr ids f] inb m by metis
  have "whole_query cd tr ids c n f s = Some (s\<lparr>dp_client := cs2,
      dp_router := (dp_router s)\<lparr>w_sent := w_sent (dp_router s) @ [(c, g)]\<rparr>\<rparr>)"
    using cs1 cs2(1) g by (simp add: whole_query_def written_def Let_def del: client_run.simps)
  then show ?thesis using cs2 res by (auto simp: returned_frame_def)
qed

section \<open>Connecting\<close>

text \<open>
  \<open>CallerTransport::connect\<close> against the router: the frame it sends is the first item of
  the router connection \<open>c\<close>, and the first frame the router writes there is the reply.
  The inbound task starts with the transport.
\<close>

definition whole_connect ::
    "codec \<Rightarrow> MultifrostError + unit \<Rightarrow> string option \<Rightarrow> string \<Rightarrow> f64 \<Rightarrow> CallerTransportConfig \<Rightarrow> sink \<Rightarrow>
     'w Deployment \<Rightarrow> (MultifrostError + CallerTransport) \<times> 'w Deployment" where
  "whole_connect cd bootstrap ws fresh_id ts config c s =
     (let cs = dp_client s; w = dp_router s;
          w1 = (case (bootstrap, ws, register_frame cd fresh_id ts (ctc_peer_id config) Caller) of
                  (Inr _, None, Inr f) \<Rightarrow>
                    if cl_send_err (cs_client cs) f = None
                    then snd (run (handshake cd c (ItemOk (Binary f))) w) else w
                | _ \<Rightarrow> w);
          reply = (case written c w w1 of g # _ \<Rightarrow> ItemOk (Binary g) | [] \<Rightarrow> ItemEnd)
      in case connect cd bootstrap ws fresh_id ts config reply (cs_client cs) of
           (Inl err, cl) \<Rightarrow> (Inl err, s\<lparr>dp_client := cs\<lparr>cs_client := cl\<rparr>, dp_router := w1\<rparr>)
         | (Inr tr, cl) \<Rightarrow>
             (Inr tr, s\<lparr>dp_client := cs\<lparr>cs_client := cl, cs_inbound := Reading\<rparr>, dp_router := w1\<rparr>))"

definition transport_of :: "CallerTransportConfig \<Rightarrow> CallerTransport" where
  "transport_of config = \<lparr>ct_peer_id = ctc_peer_id config,
     ct_default_target_peer_id = ctc_default_target_peer_id config,
     ct_router_endpoint = ctc_endpoint config, ct_request_timeout = ctc_request_timeout config\<rparr>"

lemma whole_connect_registers:
  assumes "round_trips (enc_envelope cd) (dec_envelope cd)"
    and "round_trips (enc_register cd) (dec_register cd)" and "round_trips (enc_ack cd) (dec_ack cd)"
    and "well_framed cd (build_register_envelope m ts (ctc_peer_id config) Caller)"
    and "register_frame cd m ts (ctc_peer_id config) Caller = Inr f"
    and "well_framed cd (build_envelope KIND_RESPONSE m ROUTER_PEER_ID (ctc_peer_id config) (clock_ts (dp_router s)))"
    and "ack_frame cd KIND_RESPONSE (clock_ts (dp_router s)) m (ctc_peer_id config) = Inr a"
    and "w_peers (dp_router s) (ctc_peer_id config) = None" and "w_send_err (dp_router s) c a = None"
    and "\<And>g. cl_send_err (cs_client (dp_client s)) g = None"
    and "\<And>k. n \<le> k \<Longrightarrow> cs_requests (dp_client s) k = None"
  shows "\<exists>t. whole_connect cd (Inr ()) None m ts config c s = (Inr (transport_of config), t) \<and>
    idle n (dp_client t) \<and> dp_service t = dp_service s \<and>
    dp_router t = (dp_router s)\<lparr>w_peers := (w_peers (dp_router s))(ctc_peer_id config \<mapsto>
        fresh_record (w_instant (dp_router s)) (ctc_peer_id config) Caller c),
      w_sent := w_sent (dp_router s) @ [(c, a)]\<rparr>"
  using registration_round [OF assms(1-9), of "''router rejected caller registration''"] assms(5,10,11)
  by (simp add: whole_connect_def connect_def written_def send_raw_frame_def transport_of_def idle_def Let_def)

end
