(* ===== verification/Client_Connection.thy ===== *)
theory Client_Connection
  imports Client_Service Client_Bootstrap Client_Metrics
begin

text \<open>
  rust/src/process.rs and rust/src/parent.rs: starting a service as a child process, and
  the caller's connection object, its builder and its handle. What the operating system
  and the random generator answer are arguments.
\<close>

section \<open>Service processes\<close>

record SpawnOptions =
  sp_caller_peer_id :: "string option"
  sp_request_timeout :: "nat option"
  sp_router_port :: "u16 option"

definition default_spawn_options :: SpawnOptions where
  "default_spawn_options = \<lparr>sp_caller_peer_id = None, sp_request_timeout = Some 30000, sp_router_port = None\<rparr>"

text \<open>\<open>std::process::Command\<close> as far as it is used; both output streams are discarded.\<close>

record Command =
  cmd_program :: string
  cmd_args :: "string list"
  cmd_env :: "(string \<times> string) list"

text \<open>The length in bytes of the white-space character that a UTF-8 text starts with, or 0.\<close>

fun white_prefix :: "string \<Rightarrow> nat" where
  "white_prefix [] = 0"
| "white_prefix (c # s) =
     (if white1 c then 1
      else case s of
        [] \<Rightarrow> 0
      | d # t \<Rightarrow> if white2 c d then 2
                 else case t of [] \<Rightarrow> 0 | e # _ \<Rightarrow> if white3 c d e then 3 else 0)"

text \<open>\<open>split_whitespace().count()\<close>: \<open>inside\<close> says whether the scan is within a word.\<close>

function count_words :: "bool \<Rightarrow> string \<Rightarrow> nat" where
  "count_words inside s = (if s = [] then 0
     else if white_prefix s > 0 then count_words False (drop (white_prefix s) s)
     else (if inside then 0 else 1) + count_words True (tl s))"
  by auto
termination
  by (relation "measure (\<lambda>(inside, s). length s)") auto

declare count_words.simps [simp del]

definition spawn_command ::
    "bool \<Rightarrow> (string \<Rightarrow> string option) \<Rightarrow> string \<Rightarrow> string \<Rightarrow> u16 option \<Rightarrow> Command" where
  "spawn_command windows canonicalize executable service_entrypoint router_port =
     (let base = (if count_words False executable > 1
            then (if windows then \<lparr>cmd_program = ''cmd'', cmd_args = [''/C'', executable], cmd_env = []\<rparr>
                  else \<lparr>cmd_program = ''sh'', cmd_args = [''-c'', executable], cmd_env = []\<rparr>)
            else \<lparr>cmd_program = executable, cmd_args = [], cmd_env = []\<rparr>)
      in base\<lparr>cmd_env :=
           (''MULTIFROST_ENTRYPOINT_PATH'',
              case canonicalize service_entrypoint of Some p \<Rightarrow> p | None \<Rightarrow> service_entrypoint) #
           (case router_port of
              Some port \<Rightarrow> [(''MULTIFROST_ROUTER_PORT'', show_nat (unat port))]
            | None \<Rightarrow> [])\<rparr>)"

text \<open>A process is its identifier. \<open>launch\<close> is \<open>Command::spawn\<close>.\<close>

record ServiceProcess =
  svp_child :: "u32 option"

datatype process_effect = KillChild u32 | WaitChild u32

definition spawn_with_options ::
    "bool \<Rightarrow> (string \<Rightarrow> string option) \<Rightarrow> (Command \<Rightarrow> string + u32) \<Rightarrow> string \<Rightarrow> string \<Rightarrow> SpawnOptions \<Rightarrow>
     MultifrostError + ServiceProcess" where
  "spawn_with_options windows canonicalize launch service_entrypoint executable options =
     and_then (map_err IoError (launch (spawn_command windows canonicalize executable service_entrypoint
                 (sp_router_port options)))) (\<lambda>child. Inr \<lparr>svp_child = Some child\<rparr>)"

definition process_id :: "ServiceProcess \<Rightarrow> u32 option" where
  "process_id sp = svp_child sp"

definition stop_process :: "ServiceProcess \<Rightarrow> ServiceProcess \<times> process_effect list" where
  "stop_process sp = (case svp_child sp of
     Some child \<Rightarrow> (sp\<lparr>svp_child := None\<rparr>, [KillChild child, WaitChild child])
   | None \<Rightarrow> (sp, []))"

text \<open>\<open>status\<close> is what waiting for a child gives; the error after a stop is a broken pipe.\<close>

definition wait_process :: "(u32 \<Rightarrow> string + int) \<Rightarrow> ServiceProcess \<Rightarrow> string + int" where
  "wait_process status sp = (case svp_child sp of
     Some child \<Rightarrow> status child
   | None \<Rightarrow> Inl ''service process already stopped'')"

section \<open>Connections\<close>

definition DEFAULT_REQUEST_TIMEOUT :: nat where "DEFAULT_REQUEST_TIMEOUT = 30000"

record ConnectOptions =
  co_caller_peer_id :: "string option"
  co_request_timeout :: "nat option"
  co_router_port :: "u16 option"

definition default_connect_options :: ConnectOptions where
  "default_connect_options = \<lparr>co_caller_peer_id = None,
     co_request_timeout = Some DEFAULT_REQUEST_TIMEOUT, co_router_port = None\<rparr>"

text \<open>
  The two configurations that \<open>connect_caller_transport\<close> builds: for the router
  bootstrap and for the transport. \<open>uuid\<close> is the generated identity.
\<close>

definition connect_caller_transport ::
    "boot_os \<Rightarrow> string \<Rightarrow> string \<Rightarrow> string option \<Rightarrow> nat option \<Rightarrow> u16 option \<Rightarrow>
     RouterBootstrapConfig \<times> CallerTransportConfig" where
  "connect_caller_transport os uuid default_target_peer_id caller_peer_id request_timeout router_port =
     (let port = (case router_port of Some p \<Rightarrow> p | None \<Rightarrow> router_port_from_env os);
          bootstrap = \<lparr>bc_endpoint = \<lparr>ep_host = ''127.0.0.1'', ep_port = port\<rparr>,
            bc_lock_path = default_router_lock_path os, bc_log_path = default_router_log_path os,
            bc_readiness_timeout = DEFAULT_REQUEST_TIMEOUT, bc_readiness_poll_interval = 100\<rparr>
      in (bootstrap,
          \<lparr>ctc_peer_id = (case caller_peer_id of Some p \<Rightarrow> p | None \<Rightarrow> uuid),
           ctc_default_target_peer_id = Some default_target_peer_id,
           ctc_request_timeout = request_timeout, ctc_endpoint = ws_url (bc_endpoint bootstrap)\<rparr>))"

definition connect_with_options ::
    "boot_os \<Rightarrow> string \<Rightarrow> string \<Rightarrow> ConnectOptions \<Rightarrow> RouterBootstrapConfig \<times> CallerTransportConfig" where
  "connect_with_options os uuid default_target_peer_id options =
     connect_caller_transport os uuid default_target_peer_id (co_caller_peer_id options)
       (co_request_timeout options) (co_router_port options)"

definition connect_target ::
    "boot_os \<Rightarrow> string \<Rightarrow> string \<Rightarrow> nat \<Rightarrow> RouterBootstrapConfig \<times> CallerTransportConfig" where
  "connect_target os uuid default_target_peer_id timeout_ms =
     connect_with_options os uuid default_target_peer_id
       \<lparr>co_caller_peer_id = None, co_request_timeout = Some timeout_ms, co_router_port = None\<rparr>"

record ConnectionBuilder =
  cb_target_peer_id :: string
  cb_options :: ConnectOptions

definition builder_connect :: "string \<Rightarrow> ConnectionBuilder" where
  "builder_connect target = \<lparr>cb_target_peer_id = target, cb_options = default_connect_options\<rparr>"

definition builder_caller_peer_id :: "string \<Rightarrow> ConnectionBuilder \<Rightarrow> ConnectionBuilder" where
  "builder_caller_peer_id peer_id b = b\<lparr>cb_options := (cb_options b)\<lparr>co_caller_peer_id := Some peer_id\<rparr>\<rparr>"

definition builder_default_timeout :: "nat \<Rightarrow> ConnectionBuilder \<Rightarrow> ConnectionBuilder" where
  "builder_default_timeout timeout b = b\<lparr>cb_options := (cb_options b)\<lparr>co_request_timeout := Some timeout\<rparr>\<rparr>"

definition builder_router_port :: "u16 \<Rightarrow> ConnectionBuilder \<Rightarrow> ConnectionBuilder" where
  "builder_router_port port b = b\<lparr>cb_options := (cb_options b)\<lparr>co_router_port := Some port\<rparr>\<rparr>"

definition builder_build :: "boot_os \<Rightarrow> string \<Rightarrow> ConnectionBuilder \<Rightarrow> RouterBootstrapConfig \<times> CallerTransportConfig" where
  "builder_build os uuid b = connect_with_options os uuid (cb_target_peer_id b) (cb_options b)"

text \<open>
  \<open>ConnectionRuntime\<close>: the transport, the default target, the metrics collector and the
  service process that the connection owns, if any. A \<open>Connection\<close> and its handles share
  one runtime.
\<close>

record ConnectionRuntime =
  cr_transport :: CallerTransport
  cr_default_target_peer_id :: "string option"
  cr_metrics :: "MetricsInner option"
  cr_service_process :: "ServiceProcess option"

definition from_transport :: "CallerTransport \<Rightarrow> string option \<Rightarrow> ConnectionRuntime" where
  "from_transport transport default_target_peer_id =
     \<lparr>cr_transport = transport, cr_default_target_peer_id = default_target_peer_id,
      cr_metrics = Some new_metrics, cr_service_process = None\<rparr>"

definition with_service_process :: "ServiceProcess \<Rightarrow> ConnectionRuntime \<Rightarrow> ConnectionRuntime" where
  "with_service_process sp cr = cr\<lparr>cr_service_process := Some sp\<rparr>"

text \<open>The accessors of \<open>Connection\<close> and \<open>Handle\<close>; health and circuit are constants.\<close>

definition handle_peer_id :: "ConnectionRuntime \<Rightarrow> string" where
  "handle_peer_id cr = ct_peer_id (cr_transport cr)"

definition handle_default_target_peer_id :: "ConnectionRuntime \<Rightarrow> string option" where
  "handle_default_target_peer_id cr = cr_default_target_peer_id cr"

definition handle_start :: "ConnectionRuntime \<Rightarrow> MultifrostError + unit" where
  "handle_start cr = Inr ()"

definition handle_is_healthy :: "ConnectionRuntime \<Rightarrow> bool" where
  "handle_is_healthy cr = True"

definition handle_circuit_open :: "ConnectionRuntime \<Rightarrow> bool" where
  "handle_circuit_open cr = False"

definition handle_last_heartbeat_rtt_ms :: "ConnectionRuntime \<Rightarrow> f64 option" where
  "handle_last_heartbeat_rtt_ms cr = None"

definition handle_metrics :: "ConnectionRuntime \<Rightarrow> MetricsInner option" where
  "handle_metrics cr = cr_metrics cr"

definition handle_stop ::
    "codec \<Rightarrow> string \<Rightarrow> f64 \<Rightarrow> ConnectionRuntime \<Rightarrow> inbound \<Rightarrow> Client \<Rightarrow>
     ConnectionRuntime \<times> inbound \<times> Client \<times> process_effect list" where
  "handle_stop cd fresh_id ts cr i c =
     (case disconnect cd fresh_id ts (cr_transport cr) i c of (_, i', c') \<Rightarrow>
       (case cr_service_process cr of
          None \<Rightarrow> (cr, i', c', [])
        | Some sp \<Rightarrow> (cr\<lparr>cr_service_process := None\<rparr>, i', c', snd (stop_process sp))))"

definition handle_call_request ::
    "codec \<Rightarrow> string \<Rightarrow> f64 \<Rightarrow> ConnectionRuntime \<Rightarrow> string \<Rightarrow> Value list \<Rightarrow> MultifrostError + string \<times> bytes" where
  "handle_call_request cd fresh_id ts cr function args =
     default_call_request cd fresh_id ts (cr_transport cr) function args"

definition handle_call_to_request ::
    "codec \<Rightarrow> string \<Rightarrow> f64 \<Rightarrow> ConnectionRuntime \<Rightarrow> string \<Rightarrow> string \<Rightarrow> Value list \<Rightarrow>
     MultifrostError + string \<times> bytes" where
  "handle_call_to_request cd fresh_id ts cr target_peer_id function args =
     call_request cd fresh_id ts (cr_transport cr) target_peer_id function args"

definition handle_query_peer_get :: "codec \<Rightarrow> FrameParts \<Rightarrow> MultifrostError + QueryGetResponseBody" where
  "handle_query_peer_get cd frame = query_get_result cd frame"

definition handle_query_peer_exists :: "codec \<Rightarrow> FrameParts \<Rightarrow> MultifrostError + bool" where
  "handle_query_peer_exists cd frame = and_then (query_exists_result cd frame) (\<lambda>b. Inr (qe_exists b))"

section \<open>Properties\<close>

lemma env_port_round_trip:
  "bo_router_port os = Some (show_nat (unat port)) \<Longrightarrow> router_port_from_env os = port"
proof -
  assume a: "bo_router_port os = Some (show_nat (unat port))"
  have "unat port < 2 ^ 16" using unsigned_less [of port] by simp
  then have "parse_unsigned (2 ^ 16) (show_nat (unat port)) = Some (unat port)" by (rule parse_show_nat)
  then show ?thesis using a by (simp add: router_port_from_env_def)
qed

text \<open>
  C30: a spawned service finds its identity and its router. The variables that the command of
  \<open>spawn_with_options\<close> carries, read back from the environment of the service, make a
  service with no identity of its own register under the canonical path of the entry point,
  and bootstrap and connect on the port that the spawn was given, for every port. Canonicalising
  a canonical path changes nothing.
\<close>

theorem spawned_service_identity:
  assumes "cmd_env (spawn_command windows canon executable entry (Some port)) = vars"
    and "so_service_peer_id os = None" and "so_canonicalize os = canon"
    and "so_entrypoint_path os = map_of vars ''MULTIFROST_ENTRYPOINT_PATH''"
    and "bo_router_port bos = map_of vars ''MULTIFROST_ROUTER_PORT''"
    and "canon entry = Some p" and "canon p = Some p"
  shows "resolve_peer_id os (new_context endpoint) = Inr p \<and> router_port_from_env bos = port \<and>
    ws_url (endpoint_from_env bos) = router_ws_url port"
proof -
  have vars: "vars = [(''MULTIFROST_ENTRYPOINT_PATH'', p), (''MULTIFROST_ROUTER_PORT'', show_nat (unat port))]"
    using assms(1,6) by (auto simp: spawn_command_def Let_def)
  then have port: "router_port_from_env bos = port"
    using assms(5) by (intro env_port_round_trip) simp
  show ?thesis
    using vars port assms(2-4,7)
    by (simp add: resolve_peer_id_def new_context_def canonical_peer_path_def endpoint_from_env_def
        ws_url_def router_ws_url_def)
qed

theorem spawned_service_identity_witness:
  "let vars = cmd_env (spawn_command False (\<lambda>_. Some ''/srv/math'') ''python worker.py'' ''math'' (Some 4242)) in
   resolve_peer_id \<lparr>so_service_peer_id = None, so_entrypoint_path = map_of vars ''MULTIFROST_ENTRYPOINT_PATH'',
       so_current_exe = None, so_canonicalize = (\<lambda>_. Some ''/srv/math'')\<rparr> (new_context ''ws'') = Inr ''/srv/math'' \<and>
   router_port_from_env \<lparr>bo_router_port = map_of vars ''MULTIFROST_ROUTER_PORT'', bo_dirs_home = None,
       bo_home_var = None, bo_join = (@)\<rparr> = 4242"
  unfolding Let_def
  using spawned_service_identity [of False "\<lambda>_. Some ''/srv/math''" "''python worker.py''" "''math''" 4242
      "cmd_env (spawn_command False (\<lambda>_. Some ''/srv/math'') ''python worker.py'' ''math'' (Some 4242))"
      "\<lparr>so_service_peer_id = None,
        so_entrypoint_path = map_of (cmd_env (spawn_command False (\<lambda>_. Some ''/srv/math'') ''python worker.py'' ''math'' (Some 4242)))
          ''MULTIFROST_ENTRYPOINT_PATH'',
        so_current_exe = None, so_canonicalize = (\<lambda>_. Some ''/srv/math'')\<rparr>"
      "\<lparr>bo_router_port = map_of (cmd_env (spawn_command False (\<lambda>_. Some ''/srv/math'') ''python worker.py'' ''math'' (Some 4242)))
          ''MULTIFROST_ROUTER_PORT'', bo_dirs_home = None, bo_home_var = None, bo_join = (@)\<rparr>"
      "''/srv/math''" "''ws''"]
  by simp

text \<open>
  Stopping a handle stops the service process it owns, once. \<open>stop\<close> kills and then
  waits for the process and forgets it, and a second \<open>stop\<close> does nothing to it; in both
  cases the transport is disconnected.
\<close>

lemma handle_stop_once:
  "case handle_stop cd m ts (with_service_process \<lparr>svp_child = Some child\<rparr> cr) i c of (cr', i', c', effects) \<Rightarrow>
     effects = [KillChild child, WaitChild child] \<and> cr_service_process cr' = None \<and>
     (i', c') = snd (disconnect cd m ts (cr_transport cr) i c) \<and>
     (case handle_stop cd m' ts' cr' i' c' of (cr'', i'', c'', effects') \<Rightarrow>
        effects' = [] \<and> cr'' = cr' \<and> (i'', c'') = snd (disconnect cd m' ts' (cr_transport cr) i' c'))"
  by (simp add: handle_stop_def with_service_process_def stop_process_def split_beta)

text \<open>
  The health that a handle reports does not depend on the connection: after \<open>stop\<close> it is
  still healthy, and its metrics are those of a fresh collector.
\<close>

lemma handle_reports_constants:
  assumes "cr_metrics cr = Some new_metrics"
  shows "case handle_stop cd m ts cr i c of (cr', _) \<Rightarrow>
    handle_is_healthy cr' \<and> handle_metrics cr' = Some new_metrics \<and> handle_peer_id cr' = handle_peer_id cr"
  using assms
  by (simp add: handle_stop_def handle_is_healthy_def handle_metrics_def handle_peer_id_def split: prod.splits option.splits)

text \<open>\<open>call\<close> is \<open>call_to\<close> the default target of the transport.\<close>

lemma handle_call_is_call_to:
  "ct_default_target_peer_id (cr_transport cr) = Some target \<Longrightarrow>
     handle_call_request cd m ts cr function args = handle_call_to_request cd m ts cr target function args"
  by (simp add: handle_call_request_def handle_call_to_request_def default_call_request_def)

end
