(* ===== verification/Client_Call.thy ===== *)
theory Client_Call
  imports Client_Connection Json
begin

text \<open>
  rust/src/call_macro.rs: typed arguments of calls as JSON values, the \<open>call!\<close> macros,
  and the extractor with which a worker reads its arguments. \<open>from_value\<close> stands for
  \<open>serde_json::from_value\<close> at the type the caller asks for.
\<close>

section \<open>Reading arguments\<close>

record ArgsExtractor =
  ae_args :: "Value list"

definition new_extractor :: "Value list \<Rightarrow> ArgsExtractor" where
  "new_extractor args = \<lparr>ae_args = args\<rparr>"

definition missing_argument :: "nat \<Rightarrow> MultifrostError" where
  "missing_argument index = InvalidMessage (''Missing argument at index '' @ show_nat index)"

definition get_arg :: "(Value \<Rightarrow> string + 'a) \<Rightarrow> ArgsExtractor \<Rightarrow> nat \<Rightarrow> MultifrostError + 'a" where
  "get_arg from_value ex index =
     and_then (ok_or (missing_argument index) (if index < length (ae_args ex) then Some (ae_args ex ! index) else None))
       (\<lambda>v. map_err JsonError (from_value v))"

definition take_arg :: "(Value \<Rightarrow> string + 'a) \<Rightarrow> ArgsExtractor \<Rightarrow> nat \<Rightarrow> MultifrostError + 'a" where
  "take_arg from_value ex index =
     (if length (ae_args ex) \<le> index then Inl (missing_argument index)
      else map_err JsonError (from_value (ae_args ex ! index)))"

definition remaining_args :: "ArgsExtractor \<Rightarrow> Value list" where
  "remaining_args ex = ae_args ex"

definition args_len :: "ArgsExtractor \<Rightarrow> nat" where
  "args_len ex = length (ae_args ex)"

definition args_is_empty :: "ArgsExtractor \<Rightarrow> bool" where
  "args_is_empty ex \<longleftrightarrow> ae_args ex = []"

section \<open>Writing arguments\<close>

text \<open>
  The types with a \<open>ToJsonArg\<close> instance. \<open>ArgSerialize\<close> is an argument that is only
  serialisable (a reference, a vector or a slice), with what \<open>serde_json::to_value\<close> gives
  for it.
\<close>

datatype json_arg =
    ArgValue Value
  | ArgI64 "64 word" | ArgI32 "32 word" | ArgI16 "16 word" | ArgI8 "8 word"
  | ArgU64 "64 word" | ArgU32 "32 word" | ArgU16 "16 word" | ArgU8 "8 word"
  | ArgF64 f64 | ArgF32 "32 word"
  | ArgBool bool
  | ArgString string
  | ArgSerialize "string + Value"

fun to_json_arg :: "json_arg \<Rightarrow> Value" where
  "to_json_arg (ArgValue v) = v"
| "to_json_arg (ArgI64 i) = json_of_int (sint i)"
| "to_json_arg (ArgI32 i) = json_of_int (sint i)"
| "to_json_arg (ArgI16 i) = json_of_int (sint i)"
| "to_json_arg (ArgI8 i) = json_of_int (sint i)"
| "to_json_arg (ArgU64 i) = json_of_int (uint i)"
| "to_json_arg (ArgU32 i) = json_of_int (uint i)"
| "to_json_arg (ArgU16 i) = json_of_int (uint i)"
| "to_json_arg (ArgU8 i) = json_of_int (uint i)"
| "to_json_arg (ArgF64 x) = json_of_f64 x"
| "to_json_arg (ArgF32 x) = json_of_f64 (f32_to_f64 x)"
| "to_json_arg (ArgBool b) = VBool b"
| "to_json_arg (ArgString s) = VString s"
| "to_json_arg (ArgSerialize r) = (case r of Inr v \<Rightarrow> v | Inl _ \<Rightarrow> VNull)"

text \<open>\<open>CallArgs\<close>: tuples of up to six arguments.\<close>

datatype call_args =
    Args0
  | Args1 json_arg
  | Args2 json_arg json_arg
  | Args3 json_arg json_arg json_arg
  | Args4 json_arg json_arg json_arg json_arg
  | Args5 json_arg json_arg json_arg json_arg json_arg
  | Args6 json_arg json_arg json_arg json_arg json_arg json_arg

fun to_json_args :: "call_args \<Rightarrow> Value list" where
  "to_json_args Args0 = []"
| "to_json_args (Args1 a) = [to_json_arg a]"
| "to_json_args (Args2 a b) = [to_json_arg a, to_json_arg b]"
| "to_json_args (Args3 a b c) = [to_json_arg a, to_json_arg b, to_json_arg c]"
| "to_json_args (Args4 a b c d) = [to_json_arg a, to_json_arg b, to_json_arg c, to_json_arg d]"
| "to_json_args (Args5 a b c d e) =
     [to_json_arg a, to_json_arg b, to_json_arg c, to_json_arg d, to_json_arg e]"
| "to_json_args (Args6 a b c d e f) =
     [to_json_arg a, to_json_arg b, to_json_arg c, to_json_arg d, to_json_arg e, to_json_arg f]"

section \<open>Calls\<close>

text \<open>\<open>call!(worker, func(args...))\<close> and \<open>call_with_type!\<close>: the request they send.\<close>

definition call_macro ::
    "codec \<Rightarrow> string \<Rightarrow> f64 \<Rightarrow> ConnectionRuntime \<Rightarrow> string \<Rightarrow> json_arg list \<Rightarrow> MultifrostError + string \<times> bytes" where
  "call_macro cd fresh_id ts worker func args =
     handle_call_request cd fresh_id ts worker func (map to_json_arg args)"

definition call_fn ::
    "codec \<Rightarrow> string \<Rightarrow> f64 \<Rightarrow> ConnectionRuntime \<Rightarrow> string \<Rightarrow> call_args \<Rightarrow> MultifrostError + string \<times> bytes" where
  "call_fn cd fresh_id ts handle name args =
     handle_call_request cd fresh_id ts handle name (to_json_args args)"

section \<open>Lemmas\<close>

fun args_list :: "call_args \<Rightarrow> json_arg list" where
  "args_list Args0 = []"
| "args_list (Args1 a) = [a]"
| "args_list (Args2 a b) = [a, b]"
| "args_list (Args3 a b c) = [a, b, c]"
| "args_list (Args4 a b c d) = [a, b, c, d]"
| "args_list (Args5 a b c d e) = [a, b, c, d, e]"
| "args_list (Args6 a b c d e f) = [a, b, c, d, e, f]"

lemma to_json_args_map: "to_json_args args = map to_json_arg (args_list args)"
  by (cases args) simp_all

text \<open>The trait method and the macro send the same request.\<close>

lemma call_fn_macro: "call_fn cd fresh_id ts handle name args = call_macro cd fresh_id ts handle name (args_list args)"
  by (simp add: call_fn_def call_macro_def to_json_args_map)

lemma get_take_agree: "get_arg from_value ex index = take_arg from_value ex index"
  by (simp add: get_arg_def take_arg_def)

lemma get_written_arg:
  "get_arg from_value (new_extractor (to_json_args args)) index =
     (if index < length (args_list args)
      then map_err JsonError (from_value (to_json_arg (args_list args ! index)))
      else Inl (missing_argument index))"
  by (simp add: get_arg_def new_extractor_def to_json_args_map)

end
