(* ===== verification/Example_Workers.thy ===== *)
theory Example_Workers
  imports Client_Call
begin

text \<open>
  rust/examples: the two math workers that the examples and the end-to-end tests run, and
  how their command lines choose the service identity. Integer arithmetic wraps as in a
  release build. \<open>println!\<close> appends a line to the worker's state.
\<close>

section \<open>Arithmetic\<close>

text \<open>\<open>(1..=n).product()\<close>.\<close>

primrec product_to :: "nat \<Rightarrow> 64 word" where
  "product_to 0 = 1"
| "product_to (Suc k) = product_to k * of_nat (Suc k)"

text \<open>The loop of \<open>fibonacci\<close>, \<open>count\<close> times.\<close>

primrec fib_loop :: "nat \<Rightarrow> 64 word \<times> 64 word \<Rightarrow> 64 word \<times> 64 word" where
  "fib_loop 0 ab = ab"
| "fib_loop (Suc count) ab = fib_loop count (snd ab, fst ab + snd ab)"

definition fibonacci :: "64 word \<Rightarrow> 64 word" where
  "fibonacci n = (if n = 0 then 0 else if n = 1 then 1 else snd (fib_loop (unat n - 1) (0, 1)))"

section \<open>rust/examples/math_worker.rs\<close>

text \<open>\<open>args.get(i).and_then(access).ok_or_else(...)\<close>.\<close>

definition arg_or :: "(Value \<Rightarrow> 'a option) \<Rightarrow> string \<Rightarrow> Value list \<Rightarrow> nat \<Rightarrow> MultifrostError + 'a" where
  "arg_or access message args i =
     ok_or (InvalidMessage message) (if i < length args then access (args ! i) else None)"

definition int_operands :: "json_access \<Rightarrow> Value list \<Rightarrow> MultifrostError + 64 word \<times> 64 word" where
  "int_operands ja args =
     and_then (arg_or (as_i64 ja) ''arg[0] must be an integer'' args 0) (\<lambda>a.
       and_then (arg_or (as_i64 ja) ''arg[1] must be an integer'' args 1) (\<lambda>b. Inr (a, b)))"

definition math_call :: "json_access \<Rightarrow> string \<Rightarrow> Value list \<Rightarrow> MultifrostError + Value" where
  "math_call ja function args =
     (if function = ''add'' then and_then (int_operands ja args) (\<lambda>(a, b). Inr (json_of_int (sint (a + b))))
      else if function = ''multiply'' then and_then (int_operands ja args) (\<lambda>(a, b). Inr (json_of_int (sint (a * b))))
      else if function = ''factorial'' then
        and_then (arg_or (as_u64 ja) ''arg[0] must be a non-negative integer'' args 0) (\<lambda>n.
          Inr (json_of_int (uint (product_to (unat n)))))
      else if function = ''fibonacci'' then
        and_then (arg_or (as_u64 ja) ''arg[0] must be a non-negative integer'' args 0) (\<lambda>n.
          Inr (json_of_int (uint (fibonacci n))))
      else Inl (FunctionNotFound function))"

definition math_worker :: "json_access \<Rightarrow> string \<Rightarrow> string list worker" where
  "math_worker ja label function args out =
     (math_call ja function args, out @ [''['' @ label @ ''] handling '' @ function])"

fun flag_value :: "string \<Rightarrow> string list \<Rightarrow> string option" where
  "flag_value flag [] = None"
| "flag_value flag (arg # args) =
     (if arg = flag then (case args of [] \<Rightarrow> None | value # _ \<Rightarrow> Some value) else flag_value flag args)"

definition math_service_id :: "string list \<Rightarrow> string option" where
  "math_service_id args = (case flag_value ''--service-id'' args of
     Some service_id \<Rightarrow> Some service_id
   | None \<Rightarrow> if list_ex (\<lambda>arg. arg = ''--service'') args then Some ''math-service'' else None)"

text \<open>\<open>main\<close>: the line it prints, the worker's label and the context it serves with.\<close>

definition math_main :: "string \<Rightarrow> string list \<Rightarrow> string \<times> string \<times> ServiceContext" where
  "math_main endpoint args = (case math_service_id args of
     Some service_id \<Rightarrow> (''Math worker starting in service mode as '' @ service_id, service_id,
       with_service_id service_id (new_context endpoint))
   | None \<Rightarrow> (''Math worker starting in spawn mode'', ''spawn-mode'', new_context endpoint))"

section \<open>rust/examples/e2e_math_worker.rs\<close>

definition e2e_call :: "json_access \<Rightarrow> u32 \<Rightarrow> string \<Rightarrow> Value list \<Rightarrow> MultifrostError + Value" where
  "e2e_call ja pid function args =
     (if function = ''add'' then and_then (int_operands ja args) (\<lambda>(a, b). Inr (json_of_int (sint (a + b))))
      else if function = ''multiply'' then and_then (int_operands ja args) (\<lambda>(a, b). Inr (json_of_int (sint (a * b))))
      else if function = ''factorial'' then
        and_then (arg_or (as_u64 ja) ''arg[0] must be a non-negative integer'' args 0) (\<lambda>n.
          if 20 < n then Inl (InvalidMessage ''input too large'')
          else Inr (json_of_int (uint (product_to (unat n)))))
      else if function = ''fibonacci'' then
        and_then (arg_or (as_u64 ja) ''arg[0] must be a non-negative integer'' args 0) (\<lambda>n.
          Inr (json_of_int (uint (fibonacci n))))
      else if function = ''echo'' then Inr (case args of v # _ \<Rightarrow> v | [] \<Rightarrow> VNull)
      else if function = ''get_info'' then
        Inr (VObject [(''language'', VString ''rust''), (''pid'', json_of_int (uint pid))])
      else if function = ''throw_error'' then
        Inl (RemoteCallError (case args of v # _ \<Rightarrow> (case as_text ja v of Some m \<Rightarrow> m | None \<Rightarrow> ''unknown error'')
          | [] \<Rightarrow> ''unknown error''))
      else if function = ''greet'' then
        Inr (VString (''Hello, '' @ (case args of v # _ \<Rightarrow> (case as_text ja v of Some n \<Rightarrow> n | None \<Rightarrow> ''World'')
          | [] \<Rightarrow> ''World'') @ ''!''))
      else Inl (FunctionNotFound function))"

text \<open>\<open>str::trim\<close>: white space is removed at the front and, on the reversed bytes, at the end.\<close>

lemma white_prefix_shrinks: "0 < white_prefix s \<Longrightarrow> length s - white_prefix s < length s"
proof -
  assume w: "0 < white_prefix s"
  then have "s \<noteq> []" by auto
  with w show ?thesis by (intro diff_less) simp_all
qed

function trim_start :: "string \<Rightarrow> string" where
  "trim_start s = (if white_prefix s > 0 then trim_start (drop (white_prefix s) s) else s)"
  by auto
termination
  by (relation "measure length") (auto simp: white_prefix_shrinks)

fun white_suffix :: "string \<Rightarrow> nat" where
  "white_suffix [] = 0"
| "white_suffix (e # r) =
     (if white1 e then 1
      else case r of
        [] \<Rightarrow> 0
      | d # t \<Rightarrow> if white2 d e then 2
                 else case t of [] \<Rightarrow> 0 | c # _ \<Rightarrow> if white3 c d e then 3 else 0)"

lemma white_suffix_shrinks: "0 < white_suffix s \<Longrightarrow> length s - white_suffix s < length s"
proof -
  assume w: "0 < white_suffix s"
  then have "s \<noteq> []" by auto
  with w show ?thesis by (intro diff_less) simp_all
qed

function trim_reversed :: "string \<Rightarrow> string" where
  "trim_reversed s = (if white_suffix s > 0 then trim_reversed (drop (white_suffix s) s) else s)"
  by auto
termination
  by (relation "measure length") (auto simp: white_suffix_shrinks)

declare trim_start.simps [simp del] trim_reversed.simps [simp del]

definition trim :: "string \<Rightarrow> string" where
  "trim s = rev (trim_reversed (rev (trim_start s)))"

definition non_blank :: "string option \<Rightarrow> string option" where
  "non_blank s = (case s of Some t \<Rightarrow> if trim t \<noteq> [] then Some (trim t) else None | None \<Rightarrow> None)"

definition e2e_peer_id :: "string option \<Rightarrow> string list \<Rightarrow> string option" where
  "e2e_peer_id peer_id_var args =
     (case non_blank peer_id_var of
        Some p \<Rightarrow> Some p
      | None \<Rightarrow> (case non_blank (flag_value ''--service-id'' args) of
          Some p \<Rightarrow> Some p
        | None \<Rightarrow> if list_ex (\<lambda>arg. arg = ''--service'') args then Some ''math-service'' else None))"

definition e2e_context :: "string \<Rightarrow> string option \<Rightarrow> string list \<Rightarrow> ServiceContext" where
  "e2e_context endpoint peer_id_var args = (case e2e_peer_id peer_id_var args of
     Some peer_id \<Rightarrow> with_service_id peer_id (new_context endpoint)
   | None \<Rightarrow> new_context endpoint)"

section \<open>Reference functions\<close>

fun fib :: "nat \<Rightarrow> nat" where
  "fib 0 = 0"
| "fib (Suc 0) = 1"
| "fib (Suc (Suc n)) = fib n + fib (Suc n)"

lemma fib_loop_fib:
  "fib_loop k (of_nat (fib m), of_nat (fib (Suc m))) = (of_nat (fib (m + k)), of_nat (fib (Suc (m + k))))"
proof (induction k arbitrary: m)
  case 0
  then show ?case by simp
next
  case (Suc k)
  have "fib_loop (Suc k) (of_nat (fib m), of_nat (fib (Suc m))) =
      fib_loop k (of_nat (fib (Suc m)), of_nat (fib (Suc (Suc m))))"
    by simp
  then show ?case using Suc.IH [of "Suc m"] by simp
qed

lemma fibonacci_fib: "fibonacci n = of_nat (fib (unat n))"
proof -
  consider "n = 0" | "n = 1" | k where "unat n = Suc (Suc k)"
    by (cases "unat n" rule: fib.cases) (auto simp: word_unat_eq_iff)
  then show ?thesis
  proof cases
    case (3 k)
    then have "n \<noteq> 0" "n \<noteq> 1" by auto
    then show ?thesis using fib_loop_fib [of "Suc k" 0] 3 by (simp add: fibonacci_def)
  qed (simp_all add: fibonacci_def)
qed

lemma product_to_fact: "product_to n = of_nat (fact n)"
  by (induction n) (simp_all add: algebra_simps)

lemma fact_fits: "n \<le> 20 \<Longrightarrow> (fact n :: nat) < 2 ^ 64"
proof -
  assume "n \<le> 20"
  then have "(fact n :: nat) \<le> fact 20" by (rule fact_mono_nat)
  also have "(fact 20 :: nat) < 2 ^ 64" by (simp add: fact_numeral)
  finally show ?thesis .
qed

lemma json_access_simps:
  assumes "json_access_ok ja"
  shows "as_i64 ja (json_of_int (sint i)) = Some i" "as_u64 ja (json_of_int (uint u)) = Some u"
    "as_text ja (VString s) = Some s"
  using assms by (simp_all add: json_access_ok_def)

section \<open>Properties\<close>

text \<open>
  C32: what the example workers compute. For every argument the end-to-end worker gives the
  exact factorial up to 20 and refuses larger arguments, and both workers give the
  Fibonacci number modulo 2 to the 64; the plain worker gives the factorial modulo 2 to
  the 64 for every argument, which is not the factorial at 21. The sums and products of
  both workers are those of the integers, wrapped to 64 bits in two's complement as in a
  release build.
\<close>

theorem workers_compute:
  fixes n a b :: "64 word"
  assumes "json_access_ok ja"
  shows "e2e_call ja pid ''factorial'' [json_of_int (uint n)] =
      (if 20 < n then Inl (InvalidMessage ''input too large'') else Inr (json_of_int (int (fact (unat n))))) \<and>
    math_call ja ''factorial'' [json_of_int (uint n)] = Inr (json_of_int (int (fact (unat n) mod 2 ^ 64))) \<and>
    e2e_call ja pid ''fibonacci'' [json_of_int (uint n)] = Inr (json_of_int (int (fib (unat n) mod 2 ^ 64))) \<and>
    math_call ja ''fibonacci'' [json_of_int (uint n)] = e2e_call ja pid ''fibonacci'' [json_of_int (uint n)] \<and>
    (fact 21 mod 2 ^ 64 :: nat) \<noteq> fact 21 \<and>
    math_call ja ''add'' [json_of_int (sint a), json_of_int (sint b)] =
      Inr (json_of_int (signed_take_bit 63 (sint a + sint b))) \<and>
    e2e_call ja pid ''add'' [json_of_int (sint a), json_of_int (sint b)] =
      Inr (json_of_int (signed_take_bit 63 (sint a + sint b))) \<and>
    math_call ja ''multiply'' [json_of_int (sint a), json_of_int (sint b)] =
      Inr (json_of_int (signed_take_bit 63 (sint a * sint b))) \<and>
    e2e_call ja pid ''multiply'' [json_of_int (sint a), json_of_int (sint b)] =
      Inr (json_of_int (signed_take_bit 63 (sint a * sint b)))"
proof -
  have u: "uint (of_nat k :: 64 word) = int (k mod 2 ^ 64)" for k
    by (simp add: uint_nat unat_of_nat del: of_nat_mod flip: zmod_int)
  have small: "uint (product_to (unat n)) = int (fact (unat n))" if "\<not> 20 < n"
  proof -
    have "unat n \<le> 20" using that by (simp add: word_less_nat_alt)
    then have "(fact (unat n) :: nat) < 2 ^ 64" by (rule fact_fits)
    then show ?thesis unfolding product_to_fact u by simp
  qed
  note calls = e2e_call_def math_call_def arg_or_def int_operands_def json_access_simps [OF assms]
  have fac: "e2e_call ja pid ''factorial'' [json_of_int (uint n)] =
      (if 20 < n then Inl (InvalidMessage ''input too large'') else Inr (json_of_int (int (fact (unat n)))))"
    using small by (simp add: calls)
  have fac': "math_call ja ''factorial'' [json_of_int (uint n)] = Inr (json_of_int (int (fact (unat n) mod 2 ^ 64)))"
    by (simp add: calls product_to_fact u)
  have fibs: "e2e_call ja pid ''fibonacci'' [json_of_int (uint n)] = Inr (json_of_int (int (fib (unat n) mod 2 ^ 64)))"
    "math_call ja ''fibonacci'' [json_of_int (uint n)] = e2e_call ja pid ''fibonacci'' [json_of_int (uint n)]"
    by (simp_all add: calls fibonacci_fib u)
  have big: "(fact 21 mod 2 ^ 64 :: nat) \<noteq> fact 21" by (simp add: fact_numeral)
  have ints: "math_call ja ''add'' [json_of_int (sint a), json_of_int (sint b)] =
      Inr (json_of_int (signed_take_bit 63 (sint a + sint b)))"
    "e2e_call ja pid ''add'' [json_of_int (sint a), json_of_int (sint b)] =
      Inr (json_of_int (signed_take_bit 63 (sint a + sint b)))"
    "e2e_call ja pid ''multiply'' [json_of_int (sint a), json_of_int (sint b)] =
      Inr (json_of_int (signed_take_bit 63 (sint a * sint b)))"
    "math_call ja ''multiply'' [json_of_int (sint a), json_of_int (sint b)] =
      Inr (json_of_int (signed_take_bit 63 (sint a * sint b)))"
    by (simp_all add: calls sint_word_ariths)
  show ?thesis using fac fac' fibs big ints by blast
qed

theorem workers_compute_witness:
  "e2e_call demo_access 7 ''factorial'' [json_of_int 5] = Inr (json_of_int 120) \<and>
   math_call demo_access ''add'' [json_of_int 2, json_of_int (- 3)] = Inr (json_of_int (- 1)) \<and>
   e2e_call demo_access 7 ''multiply'' [json_of_int 2, json_of_int (- 3)] = Inr (json_of_int (- 6))"
proof -
  have ok: "json_access_ok demo_access" by (rule demo_access_ok)
  show ?thesis
    using workers_compute [OF ok, of 7 5 2 "- 3"] by (simp add: fact_numeral sint_uint word_less_def)
qed

end
