(* ===== verification/Example_Clients.thy ===== *)
theory Example_Clients
  imports Deployment Example_Workers
begin

text \<open>
  rust/examples: the client programs, run against a deployment of the router and a
  service. \<open>println!\<close> appends to the program's output; \<open>?\<close> ends the program with the error.
\<close>

section \<open>Running a client program\<close>

text \<open>
  What surrounds the program: the codec, the identifiers and times of its envelopes, the
  service behind the router with the router connections of caller and service, the results
  of the router bootstrap and of opening the WebSocket, and the environment.
\<close>

record 'w surroundings =
  es_codec :: codec
  es_ids :: "nat \<Rightarrow> string"
  es_ts :: "nat \<Rightarrow> f64"
  es_worker :: "'w worker"
  es_service :: string
  es_caller_sink :: sink
  es_service_sink :: sink
  es_bootstrap :: "RouterBootstrapConfig \<Rightarrow> MultifrostError + unit"
  es_ws :: "string \<Rightarrow> string option"
  es_os :: boot_os
  es_uuid :: string

record 'w example_run =
  ex_out :: "string list"
  ex_effects :: "process_effect list"
  ex_next :: nat
  ex_dep :: "'w Deployment"

text \<open>A program's result is \<open>None\<close> when a request of it waits for ever.\<close>

type_synonym ('w, 'a) script = "'w example_run \<Rightarrow> (MultifrostError + 'a) option \<times> 'w example_run"

definition sbind :: "('w, 'a) script \<Rightarrow> ('a \<Rightarrow> ('w, 'b) script) \<Rightarrow> ('w, 'b) script" where
  "sbind m f st = (case m st of
     (Some (Inr a), st') \<Rightarrow> f a st'
   | (Some (Inl err), st') \<Rightarrow> (Some (Inl err), st')
   | (None, st') \<Rightarrow> (None, st'))"

definition slift :: "MultifrostError + 'a \<Rightarrow> ('w, 'a) script" where
  "slift r st = (Some r, st)"

definition println :: "string \<Rightarrow> ('w, unit) script" where
  "println line st = (Some (Inr ()), st\<lparr>ex_out := ex_out st @ [line]\<rparr>)"

definition ex_open ::
    "'w surroundings \<Rightarrow> string \<Rightarrow> RouterBootstrapConfig \<times> CallerTransportConfig \<Rightarrow> ('w, ConnectionRuntime) script" where
  "ex_open es target configs st = (case configs of (bootstrap, config) \<Rightarrow>
     (case whole_connect (es_codec es) (es_bootstrap es bootstrap) (es_ws es (ctc_endpoint config))
             (es_ids es (ex_next st)) (es_ts es (ex_next st)) config (es_caller_sink es) (ex_dep st) of
        (r, d) \<Rightarrow> (Some (and_then r (\<lambda>tr. Inr (from_transport tr (Some target)))),
                   st\<lparr>ex_next := Suc (ex_next st), ex_dep := d\<rparr>)))"

definition ex_connect :: "'w surroundings \<Rightarrow> string \<Rightarrow> nat \<Rightarrow> ('w, ConnectionRuntime) script" where
  "ex_connect es target timeout_ms = ex_open es target (connect_target (es_os es) (es_uuid es) target timeout_ms)"

definition ex_call :: "'w surroundings \<Rightarrow> ConnectionRuntime \<Rightarrow> (Value \<Rightarrow> string + 'a) \<Rightarrow> string \<Rightarrow> Value list \<Rightarrow> ('w, 'a) script" where
  "ex_call es handle from_value function args st =
     (let n = ex_next st in
      case handle_call_request (es_codec es) (es_ids es n) (es_ts es n) handle function args of
        Inl err \<Rightarrow> (Some (Inl err), st\<lparr>ex_next := Suc n\<rparr>)
      | Inr (_, f) \<Rightarrow>
          (case whole_call (es_codec es) (cr_transport handle) (es_ids es) (es_worker es) (es_service es)
                  (es_caller_sink es) (es_service_sink es) n f (ex_dep st) of
             None \<Rightarrow> (None, st)
           | Some d \<Rightarrow> (map_option (\<lambda>r. and_then r (call_result (es_codec es) from_value)) (returned_frame n d),
                        st\<lparr>ex_next := Suc n, ex_dep := d\<rparr>)))"

definition ex_query_peer_exists :: "'w surroundings \<Rightarrow> ConnectionRuntime \<Rightarrow> string \<Rightarrow> ('w, bool) script" where
  "ex_query_peer_exists es handle peer_id st =
     (let n = ex_next st in
      case query_request (es_codec es) (es_ids es n) (es_ts es n) (cr_transport handle) (PeerExists peer_id) of
        Inl err \<Rightarrow> (Some (Inl err), st\<lparr>ex_next := Suc n\<rparr>)
      | Inr (_, f) \<Rightarrow>
          (case whole_query (es_codec es) (cr_transport handle) (es_ids es) (es_caller_sink es) n f (ex_dep st) of
             None \<Rightarrow> (None, st)
           | Some d \<Rightarrow> (map_option (\<lambda>r. and_then r (handle_query_peer_exists (es_codec es))) (returned_frame n d),
                        st\<lparr>ex_next := Suc n, ex_dep := d\<rparr>)))"

definition ex_stop :: "'w surroundings \<Rightarrow> ConnectionRuntime \<Rightarrow> ('w, unit) script" where
  "ex_stop es handle st =
     (let cs = dp_client (ex_dep st) in
      case handle_stop (es_codec es) (es_ids es (ex_next st)) (es_ts es (ex_next st)) handle
             (cs_inbound cs) (cs_client cs) of
        (_, i, c, effects) \<Rightarrow> (Some (Inr ()), st\<lparr>ex_next := Suc (ex_next st), ex_effects := ex_effects st @ effects,
          ex_dep := (ex_dep st)\<lparr>dp_client := cs\<lparr>cs_inbound := i, cs_client := c\<rparr>\<rparr>\<rparr>))"

text \<open>A typed call whose result is printed after a label.\<close>

definition print_call ::
    "'w surroundings \<Rightarrow> ConnectionRuntime \<Rightarrow> (Value \<Rightarrow> string + 'a) \<Rightarrow> ('a \<Rightarrow> string) \<Rightarrow> string \<Rightarrow> string \<Rightarrow> Value list \<Rightarrow>
     ('w, unit) script" where
  "print_call es handle from_value display label function args =
     sbind (ex_call es handle from_value function args) (\<lambda>result. println (label @ '' = '' @ display result))"

text \<open>\<open>serde_json::from_value\<close> at \<open>i64\<close> and \<open>u64\<close>, and their \<open>Display\<close>.\<close>

record int_readers =
  fv_i64 :: "Value \<Rightarrow> string + 64 word"
  fv_u64 :: "Value \<Rightarrow> string + 64 word"

definition int_readers_ok :: "int_readers \<Rightarrow> bool" where
  "int_readers_ok rd \<longleftrightarrow> (\<forall>i. fv_i64 rd (json_of_int (sint i)) = Inr i) \<and>
     (\<forall>i. fv_u64 rd (json_of_int (uint i)) = Inr i)"

definition show_i64 :: "64 word \<Rightarrow> string" where
  "show_i64 i = (if sint i < 0 then ''-'' @ show_nat (nat (- sint i)) else show_nat (nat (sint i)))"

definition show_u64 :: "64 word \<Rightarrow> string" where
  "show_u64 i = show_nat (unat i)"

definition nl :: string where
  "nl = [CHR 0x0A]"

section \<open>rust/examples/parent.rs\<close>

definition parent_main :: "int_readers \<Rightarrow> 'w surroundings \<Rightarrow> ('w, unit) script" where
  "parent_main rd es =
     sbind (println ''Connecting to math-service...'') (\<lambda>_.
     sbind (ex_connect es ''math-service'' 5000) (\<lambda>handle.
     sbind (slift (handle_start handle)) (\<lambda>_.
     sbind (println (''Calling remote functions...'' @ nl)) (\<lambda>_.
     sbind (print_call es handle (fv_i64 rd) show_i64 ''add(10, 20)'' ''add'' [json_of_int 10, json_of_int 20]) (\<lambda>_.
     sbind (print_call es handle (fv_i64 rd) show_i64 ''multiply(7, 8)'' ''multiply'' [json_of_int 7, json_of_int 8]) (\<lambda>_.
     sbind (print_call es handle (fv_u64 rd) show_u64 ''factorial(5)'' ''factorial'' [json_of_int 5]) (\<lambda>_.
     sbind (print_call es handle (fv_u64 rd) show_u64 ''fibonacci(10)'' ''fibonacci'' [json_of_int 10]) (\<lambda>_.
     sbind (println (nl @ ''Done!'')) (\<lambda>_.
     ex_stop es handle)))))))))"

section \<open>rust/examples/connect.rs\<close>

text \<open>Integer literals in \<open>call!\<close> are \<open>i32\<close>.\<close>

definition connect_main :: "int_readers \<Rightarrow> 'w surroundings \<Rightarrow> string list \<Rightarrow> ('w, unit) script" where
  "connect_main rd es args =
     (let target = (case flag_value ''--target'' args of Some t \<Rightarrow> t | None \<Rightarrow> ''math-service'');
          timeout_ms = (case flag_value ''--timeout-ms'' args of
              Some value \<Rightarrow> (case parse_unsigned (2 ^ 64) value of Some n \<Rightarrow> n | None \<Rightarrow> 10000)
            | None \<Rightarrow> 10000)
      in
     sbind (println (''Connecting to '' @ target @ ''...'')) (\<lambda>_.
     sbind (ex_connect es target timeout_ms) (\<lambda>handle.
     sbind (println (''Connected as '' @ handle_peer_id handle @ '' to default target '' @ target @ nl)) (\<lambda>_.
     sbind (slift (handle_start handle)) (\<lambda>_.
     sbind (ex_query_peer_exists es handle target) (\<lambda>found.
     sbind (println (''Router registry sees '' @ target @ '': '' @ (if found then ''true'' else ''false'') @ nl)) (\<lambda>_.
     sbind (println (''Calling remote functions...'' @ nl)) (\<lambda>_.
     sbind (print_call es handle (fv_i64 rd) show_i64 ''add(10, 20)'' ''add'' (map to_json_arg [ArgI32 10, ArgI32 20])) (\<lambda>_.
     sbind (print_call es handle (fv_i64 rd) show_i64 ''multiply(7, 8)'' ''multiply'' (map to_json_arg [ArgI32 7, ArgI32 8])) (\<lambda>_.
     sbind (print_call es handle (fv_i64 rd) show_i64 ''factorial(5)'' ''factorial'' [json_of_int 5]) (\<lambda>_.
     sbind (println (nl @ ''Done! Stopping connection...'')) (\<lambda>_.
     ex_stop es handle))))))))))))"

section \<open>rust/examples/spawn.rs\<close>

text \<open>\<open>worker_path\<close> is the path of the worker's binary; \<open>launch\<close> is \<open>Command::spawn\<close>.\<close>

definition spawn_main ::
    "int_readers \<Rightarrow> 'w surroundings \<Rightarrow> bool \<Rightarrow> (string \<Rightarrow> string option) \<Rightarrow> (Command \<Rightarrow> string + u32) \<Rightarrow> string \<Rightarrow>
     ('w, unit) script" where
  "spawn_main rd es windows canonicalize launch worker_path =
     sbind (println ''Spawning math worker...'') (\<lambda>_.
     sbind (slift (spawn_with_options windows canonicalize launch worker_path worker_path default_spawn_options)) (\<lambda>service_process.
     sbind (ex_connect es worker_path 10000) (\<lambda>connection.
     let handle = with_service_process service_process connection in
     sbind (slift (handle_start handle)) (\<lambda>_.
     sbind (println (''Worker started!'' @ nl)) (\<lambda>_.
     sbind (println (''Calling remote functions...'' @ nl)) (\<lambda>_.
     sbind (print_call es handle (fv_i64 rd) show_i64 ''add(10, 20)'' ''add'' (map to_json_arg [ArgI32 10, ArgI32 20])) (\<lambda>_.
     sbind (print_call es handle (fv_i64 rd) show_i64 ''multiply(7, 8)'' ''multiply'' (map to_json_arg [ArgI32 7, ArgI32 8])) (\<lambda>_.
     sbind (print_call es handle (fv_u64 rd) show_u64 ''factorial(5)'' ''factorial'' [json_of_int 5]) (\<lambda>_.
     sbind (print_call es handle (fv_u64 rd) show_u64 ''fibonacci(10)'' ''fibonacci'' [json_of_int 10]) (\<lambda>_.
     sbind (println (nl @ ''Done! Stopping worker...'')) (\<lambda>_.
     ex_stop es handle)))))))))))"

section \<open>What the programs print\<close>

text \<open>
  The messages of an example travel: the codec round-trips and the envelopes and bodies
  that the examples use can be written.
\<close>

definition wire_ok :: "'w surroundings \<Rightarrow> bool" where
  "wire_ok es \<longleftrightarrow>
     (let cd = es_codec es; ids = es_ids es; ts = es_ts es; caller = es_uuid es; target = es_service es in
      round_trips (enc_envelope cd) (dec_envelope cd) \<and> round_trips (enc_register cd) (dec_register cd) \<and>
      round_trips (enc_ack cd) (dec_ack cd) \<and> round_trips (enc_query cd) (dec_query cd) \<and>
      round_trips (enc_qexists cd) (dec_qexists cd) \<and> round_trips (enc_call cd) (dec_call cd) \<and>
      round_trips (enc_response cd) (dec_response cd) \<and> error_round_trips cd \<and>
      (\<forall>n. well_framed cd (build_register_envelope (ids n) (ts n) caller Caller)) \<and>
      (\<forall>n t. well_framed cd (build_envelope KIND_RESPONSE (ids n) ROUTER_PEER_ID caller t)) \<and>
      (\<forall>n. well_framed cd (build_query_envelope (ids n) (ts n) caller MF_ROUTER_PEER_ID)) \<and>
      (\<forall>n. well_framed cd (reply_envelope (build_query_envelope (ids n) (ts n) caller MF_ROUTER_PEER_ID) caller)) \<and>
      (\<forall>n. well_framed cd (build_call_envelope (ids n) (ts n) caller target)) \<and>
      (\<forall>n t v. well_framed cd (answer_envelope t target (build_call_envelope (ids n) (ts n) caller target) (Answer (Inr v)))) \<and>
      enc_register cd \<lparr>reg_peer_id = caller, reg_class = Caller\<rparr> \<in> range Inr \<and>
      enc_ack cd build_ack_body \<in> range Inr \<and> enc_query cd (PeerExists target) \<in> range Inr \<and>
      enc_qexists cd \<lparr>qe_peer_id = target, qe_exists = True, qe_class = Some Service, qe_connected = True\<rparr> \<in> range Inr \<and>
      (\<forall>fn \<in> {''add'', ''multiply'', ''factorial'', ''fibonacci''}. \<forall>ns. length ns \<le> 2 \<longrightarrow>
         enc_call cd \<lparr>call_function = fn, call_args = map json_of_int ns, call_namespace = None\<rparr> \<in> range Inr) \<and>
      (\<forall>i. enc_response cd \<lparr>resp_result = json_of_int i\<rparr> \<in> range Inr))"

text \<open>
  Before the program connects: the router is reachable, its sockets and the service's work,
  and the caller's identity is free. The service may be live, on another connection.
\<close>

definition can_connect :: "'w surroundings \<Rightarrow> 'w example_run \<Rightarrow> bool" where
  "can_connect es st \<longleftrightarrow>
     (let w = dp_router (ex_dep st); cs = dp_client (ex_dep st) in
      (\<forall>b. es_bootstrap es b = Inr ()) \<and> (\<forall>u. es_ws es u = None) \<and> es_caller_sink es \<noteq> es_service_sink es \<and>
      (\<forall>k g. w_send_err w k g = None) \<and> (\<forall>g. sv_send_err (dp_service (ex_dep st)) g = None) \<and>
      (\<forall>g. cl_send_err (cs_client cs) g = None) \<and> (\<forall>k \<ge> ex_next st. cs_requests cs k = None) \<and>
      registry_wf (w_peers w) \<and> w_peers w (es_uuid es) = None \<and> es_uuid es \<noteq> es_service es)"

definition service_live :: "'w surroundings \<Rightarrow> 'w example_run \<Rightarrow> bool" where
  "service_live es st \<longleftrightarrow> live (dp_router (ex_dep st)) (es_service es) = Some (Service, es_service_sink es)"

definition before_connect :: "'w surroundings \<Rightarrow> 'w example_run \<Rightarrow> bool" where
  "before_connect es st \<longleftrightarrow> can_connect es st \<and> service_live es st"

text \<open>Afterwards the program has an open connection with no outstanding request.\<close>

definition caller_open :: "'w surroundings \<Rightarrow> 'w example_run \<Rightarrow> bool" where
  "caller_open es st \<longleftrightarrow>
     (let w = dp_router (ex_dep st) in
      (\<forall>k g. w_send_err w k g = None) \<and> (\<forall>g. sv_send_err (dp_service (ex_dep st)) g = None) \<and>
      idle (ex_next st) (dp_client (ex_dep st)) \<and> registry_wf (w_peers w) \<and> es_uuid es \<noteq> es_service es \<and>
      es_caller_sink es \<noteq> es_service_sink es \<and> live w (es_uuid es) = Some (Caller, es_caller_sink es))"

definition is_connected :: "'w surroundings \<Rightarrow> 'w example_run \<Rightarrow> bool" where
  "is_connected es st \<longleftrightarrow> caller_open es st \<and> service_live es st"

lemmas connection_defs = is_connected_def caller_open_def service_live_def

definition caller_handle :: "'w surroundings \<Rightarrow> ConnectionRuntime \<Rightarrow> bool" where
  "caller_handle es handle \<longleftrightarrow> ct_peer_id (cr_transport handle) = es_uuid es \<and>
     ct_default_target_peer_id (cr_transport handle) = Some (es_service es)"

lemma wire_okD:
  assumes "wire_ok es"
  shows "round_trips (enc_envelope (es_codec es)) (dec_envelope (es_codec es))"
    "round_trips (enc_register (es_codec es)) (dec_register (es_codec es))"
    "round_trips (enc_ack (es_codec es)) (dec_ack (es_codec es))"
    "round_trips (enc_query (es_codec es)) (dec_query (es_codec es))"
    "round_trips (enc_qexists (es_codec es)) (dec_qexists (es_codec es))"
    "round_trips (enc_call (es_codec es)) (dec_call (es_codec es))"
    "round_trips (enc_response (es_codec es)) (dec_response (es_codec es))"
    "error_round_trips (es_codec es)"
  using assms by (simp_all add: wire_ok_def Let_def)

lemma connect_config:
  "\<exists>b config. connect_target (es_os es) (es_uuid es) target timeout_ms = (b, config) \<and>
     ctc_peer_id config = es_uuid es \<and> ctc_default_target_peer_id config = Some target"
  by (simp add: connect_target_def connect_with_options_def connect_caller_transport_def Let_def)

text \<open>Connecting registers the caller and leaves the service's entry as it was.\<close>

lemma ex_open_connects:
  assumes "wire_ok es" and "can_connect es st"
    and cfg: "ctc_peer_id config = es_uuid es" "ctc_default_target_peer_id config = Some (es_service es)"
  shows "\<exists>handle st'. ex_open es (es_service es) (b, config) st = (Some (Inr handle), st') \<and>
    caller_handle es handle \<and> cr_service_process handle = None \<and> caller_open es st' \<and>
    (\<forall>x. x \<noteq> es_uuid es \<longrightarrow> w_peers (dp_router (ex_dep st')) x = w_peers (dp_router (ex_dep st)) x) \<and>
    ex_out st' = ex_out st \<and> ex_effects st' = ex_effects st"
proof -
  let ?cd = "es_codec es" and ?n = "ex_next st" and ?w = "dp_router (ex_dep st)"
  have wf: "well_framed ?cd (build_register_envelope (es_ids es ?n) (es_ts es ?n) (es_uuid es) Caller)"
    "well_framed ?cd (build_envelope KIND_RESPONSE (es_ids es ?n) ROUTER_PEER_ID (es_uuid es) (clock_ts ?w))"
    using assms(1) by (simp_all add: wire_ok_def Let_def)
  obtain rb ab where rb: "enc_register ?cd \<lparr>reg_peer_id = es_uuid es, reg_class = Caller\<rparr> = Inr rb"
    and ab: "enc_ack ?cd build_ack_body = Inr ab"
    using assms(1) by (auto simp: wire_ok_def Let_def)
  obtain f where f: "register_frame ?cd (es_ids es ?n) (es_ts es ?n) (es_uuid es) Caller = Inr f"
    using client_frames.encode_succeeds [OF wf(1), of rb] rb
    by (auto simp: register_frame_def mf_encode_register_body_def)
  obtain a where a: "ack_frame ?cd KIND_RESPONSE (clock_ts ?w) (es_ids es ?n) (es_uuid es) = Inr a"
    using router_frames.encode_succeeds [OF wf(2), of ab] ab
    by (auto simp: ack_frame_def encode_register_ack_body_def)
  have pre: "w_peers ?w (es_uuid es) = None" "w_send_err ?w (es_caller_sink es) a = None"
    "\<And>g. cl_send_err (cs_client (dp_client (ex_dep st))) g = None"
    "\<And>k. Suc ?n \<le> k \<Longrightarrow> cs_requests (dp_client (ex_dep st)) k = None"
    "es_bootstrap es b = Inr ()" "es_ws es (ctc_endpoint config) = None"
    using assms(2) by (simp_all add: can_connect_def Let_def)
  obtain t where t: "whole_connect ?cd (Inr ()) None (es_ids es ?n) (es_ts es ?n) config (es_caller_sink es) (ex_dep st) =
      (Inr (transport_of config), t)" "idle (Suc ?n) (dp_client t)" "dp_service t = dp_service (ex_dep st)"
    "dp_router t = ?w\<lparr>w_peers := (w_peers ?w)(es_uuid es \<mapsto>
        fresh_record (w_instant ?w) (es_uuid es) Caller (es_caller_sink es)), w_sent := w_sent ?w @ [(es_caller_sink es, a)]\<rparr>"
    using whole_connect_registers [OF wire_okD(1-3) [OF assms(1)], of "es_ids es ?n" "es_ts es ?n" config f "ex_dep st" a
        "es_caller_sink es" "Suc ?n"] wf f a pre(1-4) cfg(1) by auto
  have "caller_open es (st\<lparr>ex_next := Suc ?n, ex_dep := t\<rparr>)"
    using assms(2) t(2-4)
    by (auto simp: caller_open_def can_connect_def Let_def live_def fresh_record_def registry_wf_def)
  then show ?thesis
    using cfg t(1,4) pre(5,6)
    by (auto simp: ex_open_def caller_handle_def from_transport_def transport_of_def)
qed

lemma ex_connect_connects:
  assumes "wire_ok es" and "can_connect es st"
  shows "\<exists>handle st'. ex_connect es (es_service es) timeout_ms st = (Some (Inr handle), st') \<and>
    caller_handle es handle \<and> cr_service_process handle = None \<and> caller_open es st' \<and>
    (service_live es st \<longrightarrow> service_live es st') \<and>
    (w_peers (dp_router (ex_dep st)) (es_service es) = None \<longrightarrow> w_peers (dp_router (ex_dep st')) (es_service es) = None) \<and>
    ex_out st' = ex_out st \<and> ex_effects st' = ex_effects st"
proof -
  obtain b config where "connect_target (es_os es) (es_uuid es) (es_service es) timeout_ms = (b, config)"
    "ctc_peer_id config = es_uuid es" "ctc_default_target_peer_id config = Some (es_service es)"
    using connect_config by blast
  moreover have "es_service es \<noteq> es_uuid es" using assms(2) by (auto simp: can_connect_def Let_def)
  ultimately show ?thesis
    using ex_open_connects [OF assms, of config b] by (auto simp: ex_connect_def service_live_def live_def)
qed

lemma ex_call_answers:
  assumes "wire_ok es" and "is_connected es st" and "caller_handle es handle"
    and "es_worker es = math_worker ja label"
    and "fn \<in> {''add'', ''multiply'', ''factorial'', ''fibonacci''}" and "args = map json_of_int ns" and "length ns \<le> 2"
    and "math_call ja fn args = Inr (json_of_int k)" and "from_value (json_of_int k) = Inr r"
  shows "\<exists>st'. ex_call es handle from_value fn args st = (Some (Inr r), st') \<and> is_connected es st' \<and>
    w_peers (dp_router (ex_dep st')) = w_peers (dp_router (ex_dep st)) \<and>
    ex_out st' = ex_out st \<and> ex_effects st' = ex_effects st"
proof -
  let ?cd = "es_codec es" and ?n = "ex_next st" and ?tr = "cr_transport handle" and ?dep = "ex_dep st"
  let ?e = "build_call_envelope (es_ids es ?n) (es_ts es ?n) (ct_peer_id ?tr) (es_service es)"
  let ?ans = "Answer (Inr (json_of_int k))"
  have id: "ct_peer_id ?tr = es_uuid es" "ct_default_target_peer_id ?tr = Some (es_service es)"
    using assms(3) by (simp_all add: caller_handle_def)
  have wf: "well_framed ?cd ?e"
    "well_framed ?cd (answer_envelope (mf_now_ts (sv_clock (dp_service ?dep))) (es_service es) ?e ?ans)"
    using assms(1) id by (simp_all add: wire_ok_def Let_def)
  have enc: "enc_call ?cd \<lparr>call_function = fn, call_args = args, call_namespace = None\<rparr> \<in> range Inr"
    "enc_response ?cd \<lparr>resp_result = json_of_int k\<rparr> \<in> range Inr"
    using assms(1,5,6,7) unfolding wire_ok_def Let_def by blast+
  then obtain cb b where cb: "enc_call ?cd \<lparr>call_function = fn, call_args = args, call_namespace = None\<rparr> = Inr cb"
    and b: "enc_response ?cd \<lparr>resp_result = json_of_int k\<rparr> = Inr b" by blast
  obtain f where f: "mf_encode_frame ?cd ?e cb = Inr f" using client_frames.encode_succeeds [OF wf(1)] by blast
  have req: "call_request ?cd (es_ids es ?n) (es_ts es ?n) ?tr (es_service es) fn args = Inr (es_ids es ?n, f)"
    using cb f by (simp add: call_request_def encode_call_body_def Let_def build_call_envelope_def)
  have live: "idle ?n (dp_client ?dep)" "live (dp_router ?dep) (ct_peer_id ?tr) = Some (Caller, es_caller_sink es)"
    "live (dp_router ?dep) (es_service es) = Some (Service, es_service_sink es)"
    "\<And>k g. w_send_err (dp_router ?dep) k g = None" "\<And>g. sv_send_err (dp_service ?dep) g = None"
    "es_caller_sink es \<noteq> es_service_sink es"
    using assms(2) id by (simp_all add: connection_defs Let_def)
  have wk: "es_worker es fn args (sv_worker (dp_service ?dep)) =
      (Inr (json_of_int k), sv_worker (dp_service ?dep) @ [''['' @ label @ ''] handling '' @ fn])"
    using assms(4,8) by (simp add: math_worker_def)
  have body: "answer_body ?cd ?ans = Inr b" using b by simp
  obtain t g reply where t: "whole_call ?cd ?tr (es_ids es) (es_worker es) (es_service es) (es_caller_sink es)
        (es_service_sink es) ?n f ?dep = Some t" "returned_frame ?n t = Some (Inr reply)"
      "call_result ?cd from_value reply = Inr r" "idle (Suc ?n) (dp_client t)"
      "dp_router t = (dp_router ?dep)\<lparr>w_sent := w_sent (dp_router ?dep) @ [(es_service_sink es, f), (es_caller_sink es, g)]\<rparr>"
      "sv_send_err (dp_service t) = sv_send_err (dp_service ?dep)"
    using whole_call_returns [where from_value = from_value and worker = "es_worker es" and ids = "es_ids es" and n = ?n,
        OF wire_okD(1,6-8) [OF assms(1)] live(1) wf(1) req live(2-5) wk body wf(2) live(6)] assms(9)
    by (auto simp: map_err_def)
  have "is_connected es (st\<lparr>ex_next := Suc ?n, ex_dep := t\<rparr>)"
    using assms(2) t(4-6) by (simp add: connection_defs Let_def live_def)
  then show ?thesis
    using req t id by (simp add: ex_call_def handle_call_request_def default_call_request_def Let_def)
qed

text \<open>A query is answered by whether the service is live.\<close>

definition presence :: "string \<Rightarrow> (PeerClass \<times> sink) option \<Rightarrow> QueryExistsResponseBody" where
  "presence x entry = \<lparr>qe_peer_id = x, qe_exists = (entry \<noteq> None), qe_class = map_option fst entry,
     qe_connected = (entry \<noteq> None)\<rparr>"

lemma ex_query_answers:
  assumes "wire_ok es" and "caller_open es st" and "caller_handle es handle"
    and "enc_qexists (es_codec es) (presence (es_service es) (live (dp_router (ex_dep st)) (es_service es))) = Inr b"
  shows "\<exists>st'. ex_query_peer_exists es handle (es_service es) st =
      (Some (Inr (live (dp_router (ex_dep st)) (es_service es) \<noteq> None)), st') \<and> caller_open es st' \<and>
    w_peers (dp_router (ex_dep st')) = w_peers (dp_router (ex_dep st)) \<and>
    ex_out st' = ex_out st \<and> ex_effects st' = ex_effects st"
proof -
  let ?cd = "es_codec es" and ?n = "ex_next st" and ?tr = "cr_transport handle" and ?dep = "ex_dep st"
  let ?e = "build_query_envelope (es_ids es ?n) (es_ts es ?n) (ct_peer_id ?tr) MF_ROUTER_PEER_ID"
  have id: "ct_peer_id ?tr = es_uuid es" using assms(3) by (simp add: caller_handle_def)
  have wf: "well_framed ?cd ?e" "well_framed ?cd (reply_envelope ?e (ct_peer_id ?tr))"
    using assms(1) id by (simp_all add: wire_ok_def Let_def)
  obtain qb where qb: "enc_query ?cd (PeerExists (es_service es)) = Inr qb"
    using assms(1) by (auto simp: wire_ok_def Let_def)
  obtain f where f: "mf_encode_frame ?cd ?e qb = Inr f" using client_frames.encode_succeeds [OF wf(1)] by blast
  have req: "query_request ?cd (es_ids es ?n) (es_ts es ?n) ?tr (PeerExists (es_service es)) = Inr (es_ids es ?n, f)"
    using qb f by (simp add: query_request_def mf_encode_query_body_def Let_def build_query_envelope_def)
  have live: "idle ?n (dp_client ?dep)" "registry_wf (w_peers (dp_router ?dep))"
    "\<And>k g. w_send_err (dp_router ?dep) k g = None"
    using assms(2) by (simp_all add: caller_open_def Let_def)
  have ans: "spec_answer ?cd (live (dp_router ?dep)) (PeerExists (es_service es)) = Inr b"
    using assms(4) by (simp add: spec_answer_def presence_def)
  obtain t g reply where t: "whole_query ?cd ?tr (es_ids es) (es_caller_sink es) ?n f ?dep = Some t"
      "returned_frame ?n t = Some (Inr reply)"
      "handle_query_peer_exists ?cd reply = Inr (live (dp_router ?dep) (es_service es) \<noteq> None)"
      "idle (Suc ?n) (dp_client t)" "dp_service t = dp_service ?dep"
      "dp_router t = (dp_router ?dep)\<lparr>w_sent := w_sent (dp_router ?dep) @ [(es_caller_sink es, g)]\<rparr>"
    using whole_query_answers [where ids = "es_ids es" and n = ?n,
        OF wire_okD(1,4,5) [OF assms(1)] live(1) wf(1) req live(2,3) ans wf(2), of "es_caller_sink es"]
    by (auto simp: handle_query_peer_exists_def)
  have "caller_open es (st\<lparr>ex_next := Suc ?n, ex_dep := t\<rparr>)"
    using assms(2) t(4-6) by (simp add: caller_open_def Let_def live_def)
  then show ?thesis using req t by (simp add: ex_query_peer_exists_def Let_def)
qed

lemma ex_query_finds:
  assumes "wire_ok es" and "is_connected es st" and "caller_handle es handle"
  shows "\<exists>st'. ex_query_peer_exists es handle (es_service es) st = (Some (Inr True), st') \<and> is_connected es st' \<and>
    w_peers (dp_router (ex_dep st')) = w_peers (dp_router (ex_dep st)) \<and>
    ex_out st' = ex_out st \<and> ex_effects st' = ex_effects st"
proof -
  have entry: "caller_open es st" "live (dp_router (ex_dep st)) (es_service es) = Some (Service, es_service_sink es)"
    using assms(2) by (simp_all add: is_connected_def service_live_def)
  obtain b where "enc_qexists (es_codec es) (presence (es_service es) (live (dp_router (ex_dep st)) (es_service es))) = Inr b"
    using assms(1) entry(2) by (auto simp: wire_ok_def Let_def presence_def)
  from ex_query_answers [OF assms(1) entry(1) assms(3) this] show ?thesis
    using entry(2) by (auto simp: is_connected_def service_live_def live_def)
qed

text \<open>
  \<open>prints\<close>: a part of a program that prints these lines on an open connection and keeps
  it open; \<open>finishes\<close>: a rest of a program that ends well, with these lines and effects on
  processes.
\<close>

definition prints :: "'w surroundings \<Rightarrow> string list \<Rightarrow> ('w, unit) script \<Rightarrow> bool" where
  "prints es out m \<longleftrightarrow> (\<forall>st. is_connected es st \<longrightarrow> (\<exists>st'. m st = (Some (Inr ()), st') \<and>
     is_connected es st' \<and> ex_out st' = ex_out st @ out \<and> ex_effects st' = ex_effects st))"

definition finishes :: "'w surroundings \<Rightarrow> string list \<Rightarrow> process_effect list \<Rightarrow> ('w, unit) script \<Rightarrow> bool" where
  "finishes es out effects m \<longleftrightarrow> (\<forall>st. is_connected es st \<longrightarrow> (\<exists>st'. m st = (Some (Inr ()), st') \<and>
     ex_out st' = ex_out st @ out \<and> ex_effects st' = ex_effects st @ effects))"

lemma prints_println: "prints es [line] (println line)"
  by (simp add: prints_def println_def connection_defs)

lemma prints_start: "prints es [] (slift (handle_start handle))"
  by (simp add: prints_def slift_def handle_start_def)

lemma finishes_bind:
  "prints es out1 m \<Longrightarrow> finishes es out2 effects (f ()) \<Longrightarrow> finishes es (out1 @ out2) effects (sbind m f)"
  unfolding prints_def finishes_def sbind_def by fastforce

lemma finishes_stop:
  "finishes es [] (case cr_service_process handle of Some sp \<Rightarrow> snd (stop_process sp) | None \<Rightarrow> []) (ex_stop es handle)"
  by (auto simp: finishes_def ex_stop_def handle_stop_def Let_def split: prod.splits option.splits)

lemma finishes_query:
  assumes "wire_ok es" and "caller_handle es handle" and "finishes es out effects (f True)"
  shows "finishes es out effects (sbind (ex_query_peer_exists es handle (es_service es)) f)"
  unfolding finishes_def
proof (intro allI impI)
  fix st assume st: "is_connected es st"
  obtain st1 where st1: "ex_query_peer_exists es handle (es_service es) st = (Some (Inr True), st1)"
    "is_connected es st1" "ex_out st1 = ex_out st" "ex_effects st1 = ex_effects st"
    using ex_query_finds [OF assms(1) st assms(2)] by blast
  show "\<exists>st'. sbind (ex_query_peer_exists es handle (es_service es)) f st = (Some (Inr ()), st') \<and>
      ex_out st' = ex_out st @ out \<and> ex_effects st' = ex_effects st @ effects"
    using assms(3) st1 by (auto simp: finishes_def sbind_def)
qed

lemma prints_call:
  assumes "wire_ok es" and "caller_handle es handle" and "es_worker es = math_worker ja label"
    and "fn \<in> {''add'', ''multiply'', ''factorial'', ''fibonacci''}" and "args = map json_of_int ns" and "length ns \<le> 2"
    and "math_call ja fn args = Inr (json_of_int k)" and "from_value (json_of_int k) = Inr r"
  shows "prints es [before @ '' = '' @ display r] (print_call es handle from_value display before fn args)"
  unfolding prints_def
proof (intro allI impI)
  fix st assume st: "is_connected es st"
  show "\<exists>st'. print_call es handle from_value display before fn args st = (Some (Inr ()), st') \<and>
      is_connected es st' \<and> ex_out st' = ex_out st @ [before @ '' = '' @ display r] \<and> ex_effects st' = ex_effects st"
    using ex_call_answers [where from_value = from_value, OF assms(1) st assms(2-8)]
    by (auto simp: print_call_def sbind_def println_def connection_defs Let_def)
qed

text \<open>The calls of the examples, and the lines they print.\<close>

lemma math_answers:
  assumes "json_access_ok ja"
  shows "math_call ja ''add'' [json_of_int 10, json_of_int 20] = Inr (json_of_int (sint (30 :: 64 word)))"
    "math_call ja ''multiply'' [json_of_int 7, json_of_int 8] = Inr (json_of_int (sint (56 :: 64 word)))"
    "math_call ja ''factorial'' [json_of_int 5] = Inr (json_of_int (uint (120 :: 64 word)))"
    "math_call ja ''fibonacci'' [json_of_int 10] = Inr (json_of_int (uint (55 :: 64 word)))"
proof -
  have i: "as_i64 ja (json_of_int 10) = Some 10" "as_i64 ja (json_of_int 20) = Some 20"
    "as_i64 ja (json_of_int 7) = Some 7" "as_i64 ja (json_of_int 8) = Some 8"
    using json_access_simps(1) [OF assms, of 10] json_access_simps(1) [OF assms, of 20]
      json_access_simps(1) [OF assms, of 7] json_access_simps(1) [OF assms, of 8]
    by (simp_all add: sint_uint)
  have u: "as_u64 ja (json_of_int 5) = Some 5" "as_u64 ja (json_of_int 10) = Some 10"
    using json_access_simps(2) [OF assms, of 5] json_access_simps(2) [OF assms, of 10] by simp_all
  have "product_to 5 = 120" "fibonacci 10 = 55" by code_simp+
  then show "math_call ja ''add'' [json_of_int 10, json_of_int 20] = Inr (json_of_int (sint (30 :: 64 word)))"
    "math_call ja ''multiply'' [json_of_int 7, json_of_int 8] = Inr (json_of_int (sint (56 :: 64 word)))"
    "math_call ja ''factorial'' [json_of_int 5] = Inr (json_of_int (uint (120 :: 64 word)))"
    "math_call ja ''fibonacci'' [json_of_int 10] = Inr (json_of_int (uint (55 :: 64 word)))"
    using i u by (simp_all add: math_call_def int_operands_def arg_or_def)
qed

lemma shown_results:
  "show_i64 30 = ''30''" "show_i64 56 = ''56''" "show_i64 120 = ''120''" "show_u64 120 = ''120''" "show_u64 55 = ''55''"
  by code_simp+

lemma example_lines:
  assumes "wire_ok es" and "caller_handle es handle" and "es_worker es = math_worker ja label"
    and "json_access_ok ja" and "int_readers_ok rd"
  shows "prints es [''add(10, 20) = 30'']
      (print_call es handle (fv_i64 rd) show_i64 ''add(10, 20)'' ''add'' [json_of_int 10, json_of_int 20])"
    "prints es [''multiply(7, 8) = 56'']
      (print_call es handle (fv_i64 rd) show_i64 ''multiply(7, 8)'' ''multiply'' [json_of_int 7, json_of_int 8])"
    "prints es [''factorial(5) = 120'']
      (print_call es handle (fv_i64 rd) show_i64 ''factorial(5)'' ''factorial'' [json_of_int 5])"
    "prints es [''factorial(5) = 120'']
      (print_call es handle (fv_u64 rd) show_u64 ''factorial(5)'' ''factorial'' [json_of_int 5])"
    "prints es [''fibonacci(10) = 55'']
      (print_call es handle (fv_u64 rd) show_u64 ''fibonacci(10)'' ''fibonacci'' [json_of_int 10])"
proof -
  have fv: "fv_i64 rd (json_of_int (sint i)) = Inr i" "fv_u64 rd (json_of_int (uint i)) = Inr i" for i
    using assms(5) by (simp_all add: int_readers_ok_def)
  have f120: "fv_i64 rd (json_of_int (uint (120 :: 64 word))) = Inr 120"
    using fv(1) [of 120] by (simp add: sint_uint)
  note pc = prints_call [OF assms(1-3)]
  note ans = math_answers [OF assms(4)]
  show "prints es [''add(10, 20) = 30'']
      (print_call es handle (fv_i64 rd) show_i64 ''add(10, 20)'' ''add'' [json_of_int 10, json_of_int 20])"
    using pc [where ns = "[10, 20]" and from_value = "fv_i64 rd", OF _ _ _ ans(1) fv(1), of "''add(10, 20)''" show_i64]
    by (simp add: shown_results)
  show "prints es [''multiply(7, 8) = 56'']
      (print_call es handle (fv_i64 rd) show_i64 ''multiply(7, 8)'' ''multiply'' [json_of_int 7, json_of_int 8])"
    using pc [where ns = "[7, 8]" and from_value = "fv_i64 rd", OF _ _ _ ans(2) fv(1), of "''multiply(7, 8)''" show_i64]
    by (simp add: shown_results)
  show "prints es [''factorial(5) = 120'']
      (print_call es handle (fv_i64 rd) show_i64 ''factorial(5)'' ''factorial'' [json_of_int 5])"
    using pc [where ns = "[5]" and from_value = "fv_i64 rd", OF _ _ _ ans(3) f120, of "''factorial(5)''" show_i64]
    by (simp add: shown_results)
  show "prints es [''factorial(5) = 120'']
      (print_call es handle (fv_u64 rd) show_u64 ''factorial(5)'' ''factorial'' [json_of_int 5])"
    using pc [where ns = "[5]" and from_value = "fv_u64 rd", OF _ _ _ ans(3) fv(2), of "''factorial(5)''" show_u64]
    by (simp add: shown_results)
  show "prints es [''fibonacci(10) = 55'']
      (print_call es handle (fv_u64 rd) show_u64 ''fibonacci(10)'' ''fibonacci'' [json_of_int 10])"
    using pc [where ns = "[10]" and from_value = "fv_u64 rd", OF _ _ _ ans(4) fv(2), of "''fibonacci(10)''" show_u64]
    by (simp add: shown_results)
qed

lemma connect_and_finish:
  assumes "wire_ok es" and "before_connect es st"
    and "\<And>handle. caller_handle es handle \<Longrightarrow> cr_service_process handle = None \<Longrightarrow> finishes es out effects (f handle)"
  shows "\<exists>st'. sbind (ex_connect es (es_service es) timeout_ms) f st = (Some (Inr ()), st') \<and>
    ex_out st' = ex_out st @ out \<and> ex_effects st' = ex_effects st @ effects"
proof -
  obtain handle st1 where c: "ex_connect es (es_service es) timeout_ms st = (Some (Inr handle), st1)"
    "caller_handle es handle" "cr_service_process handle = None" "is_connected es st1"
    "ex_out st1 = ex_out st" "ex_effects st1 = ex_effects st"
    using ex_connect_connects [OF assms(1), of st] assms(2) unfolding before_connect_def is_connected_def by blast
  show ?thesis using assms(3) [OF c(2,3)] c(1,4-6) by (auto simp: finishes_def sbind_def)
qed

lemma sbind_println: "sbind (println line) f st = f () (st\<lparr>ex_out := ex_out st @ [line]\<rparr>)"
  by (simp add: sbind_def println_def)

lemma before_connect_out [simp]: "before_connect es (st\<lparr>ex_out := out\<rparr>) = before_connect es st"
  by (simp add: before_connect_def can_connect_def service_live_def)

lemma caller_handle_owner [simp]: "caller_handle es (with_service_process sp handle) = caller_handle es handle"
  by (simp add: caller_handle_def with_service_process_def)

lemmas program_rules = finishes_bind [OF prints_println] finishes_bind [OF prints_start]

lemma finishes_stop_unowned: "cr_service_process handle = None \<Longrightarrow> finishes es [] [] (ex_stop es handle)"
  using finishes_stop [of es handle] by simp

lemma parent_prints:
  assumes "wire_ok es" and "before_connect es st" and "es_service es = ''math-service''"
    and "es_worker es = math_worker ja label" and "json_access_ok ja" and "int_readers_ok rd"
  shows "\<exists>st'. parent_main rd es st = (Some (Inr ()), st') \<and>
    ex_out st' = ex_out st @ [''Connecting to math-service...'', ''Calling remote functions...'' @ nl,
      ''add(10, 20) = 30'', ''multiply(7, 8) = 56'', ''factorial(5) = 120'', ''fibonacci(10) = 55'', nl @ ''Done!''] \<and>
    ex_effects st' = ex_effects st"
proof -
  let ?st = "st\<lparr>ex_out := ex_out st @ [''Connecting to math-service...'']\<rparr>"
  note line = example_lines [OF assms(1) _ assms(4-6)]
  have "before_connect es ?st" using assms(2) by simp
  then have "\<exists>st'. parent_main rd es st = (Some (Inr ()), st') \<and>
      ex_out st' = ex_out ?st @ ([] @ [''Calling remote functions...'' @ nl] @ [''add(10, 20) = 30''] @
        [''multiply(7, 8) = 56''] @ [''factorial(5) = 120''] @ [''fibonacci(10) = 55''] @ [nl @ ''Done!''] @ []) \<and>
      ex_effects st' = ex_effects ?st @ []"
    unfolding parent_main_def sbind_println [where st = st] assms(3) [symmetric]
    by (rule connect_and_finish [OF assms(1)])
      (intro program_rules finishes_bind [OF line(1)] finishes_bind [OF line(2)]
        finishes_bind [OF line(4)] finishes_bind [OF line(5)] finishes_stop_unowned; assumption)
  then show ?thesis by simp
qed

lemma connect_prints:
  assumes "wire_ok es" and "before_connect es st"
    and "es_worker es = math_worker ja label" and "json_access_ok ja" and "int_readers_ok rd"
  shows "\<exists>st'. connect_main rd es [''connect'', ''--target'', es_service es] st = (Some (Inr ()), st') \<and>
    ex_out st' = ex_out st @ [''Connecting to '' @ es_service es @ ''...'',
      ''Connected as '' @ es_uuid es @ '' to default target '' @ es_service es @ nl,
      ''Router registry sees '' @ es_service es @ '': true'' @ nl, ''Calling remote functions...'' @ nl,
      ''add(10, 20) = 30'', ''multiply(7, 8) = 56'', ''factorial(5) = 120'', nl @ ''Done! Stopping connection...''] \<and>
    ex_effects st' = ex_effects st"
proof -
  let ?st = "st\<lparr>ex_out := ex_out st @ [''Connecting to '' @ es_service es @ ''...'']\<rparr>"
  note line = example_lines [OF assms(1) _ assms(3-5)]
  have flags: "flag_value ''--target'' [''connect'', ''--target'', es_service es] = Some (es_service es)"
    "flag_value ''--timeout-ms'' [''connect'', ''--target'', es_service es] = None"
    by simp_all
  have args: "map to_json_arg [ArgI32 10, ArgI32 20] = [json_of_int 10, json_of_int 20]"
    "map to_json_arg [ArgI32 7, ArgI32 8] = [json_of_int 7, json_of_int 8]"
    by (simp_all add: sint_uint)
  have me: "handle_peer_id handle = es_uuid es" if "caller_handle es handle" for handle
    using that by (simp add: caller_handle_def handle_peer_id_def)
  have "before_connect es ?st" using assms(2) by simp
  then have "\<exists>st'. connect_main rd es [''connect'', ''--target'', es_service es] st = (Some (Inr ()), st') \<and>
      ex_out st' = ex_out ?st @ ([''Connected as '' @ es_uuid es @ '' to default target '' @ es_service es @ nl] @ [] @
        [''Router registry sees '' @ es_service es @ '': '' @ ''true'' @ nl] @ [''Calling remote functions...'' @ nl] @
        [''add(10, 20) = 30''] @ [''multiply(7, 8) = 56''] @ [''factorial(5) = 120''] @
        [nl @ ''Done! Stopping connection...''] @ []) \<and>
      ex_effects st' = ex_effects ?st @ []"
    unfolding connect_main_def sbind_println [where st = st] flags option.case Let_def args
    apply (rule connect_and_finish [OF assms(1)])
    apply (simp only: me)
    apply (rule program_rules(1), rule program_rules(2), rule finishes_query [OF assms(1)], assumption)
    apply (simp only: if_True)
    apply (intro program_rules finishes_bind [OF line(1)] finishes_bind [OF line(2)]
        finishes_bind [OF line(3)] finishes_stop_unowned; assumption)
    done
  then show ?thesis by simp
qed

lemma spawn_prints:
  assumes "wire_ok es" and "before_connect es st"
    and "es_worker es = math_worker ja label" and "json_access_ok ja" and "int_readers_ok rd"
    and "launch (spawn_command windows canonicalize (es_service es) (es_service es) None) = Inr child"
  shows "\<exists>st'. spawn_main rd es windows canonicalize launch (es_service es) st = (Some (Inr ()), st') \<and>
    ex_out st' = ex_out st @ [''Spawning math worker...'', ''Worker started!'' @ nl, ''Calling remote functions...'' @ nl,
      ''add(10, 20) = 30'', ''multiply(7, 8) = 56'', ''factorial(5) = 120'', ''fibonacci(10) = 55'',
      nl @ ''Done! Stopping worker...''] \<and>
    ex_effects st' = ex_effects st @ [KillChild child, WaitChild child]"
proof -
  let ?st = "st\<lparr>ex_out := ex_out st @ [''Spawning math worker...'']\<rparr>" and ?sp = "\<lparr>svp_child = Some child\<rparr>"
  note line = example_lines [OF assms(1) _ assms(3-5)]
  have spawned: "spawn_with_options windows canonicalize launch (es_service es) (es_service es) default_spawn_options = Inr ?sp"
    using assms(6) by (simp add: spawn_with_options_def default_spawn_options_def)
  have lift: "sbind (slift (Inr a)) f st' = f a st'" for a and f :: "ServiceProcess \<Rightarrow> (string list, unit) script" and st'
    by (simp add: sbind_def slift_def)
  have args: "map to_json_arg [ArgI32 10, ArgI32 20] = [json_of_int 10, json_of_int 20]"
    "map to_json_arg [ArgI32 7, ArgI32 8] = [json_of_int 7, json_of_int 8]"
    by (simp_all add: sint_uint)
  have stop: "finishes es [] [KillChild child, WaitChild child] (ex_stop es (with_service_process ?sp handle))" for handle
    using finishes_stop [of es "with_service_process ?sp handle"] by (simp add: with_service_process_def stop_process_def)
  have own: "caller_handle es (with_service_process ?sp handle)" if "caller_handle es handle" for handle
    using that by simp
  have "before_connect es ?st" using assms(2) by simp
  then have "\<exists>st'. spawn_main rd es windows canonicalize launch (es_service es) st = (Some (Inr ()), st') \<and>
      ex_out st' = ex_out ?st @ ([] @ [''Worker started!'' @ nl] @ [''Calling remote functions...'' @ nl] @
        [''add(10, 20) = 30''] @ [''multiply(7, 8) = 56''] @ [''factorial(5) = 120''] @ [''fibonacci(10) = 55''] @
        [nl @ ''Done! Stopping worker...''] @ []) \<and>
      ex_effects st' = ex_effects ?st @ [KillChild child, WaitChild child]"
    unfolding spawn_main_def sbind_println [where st = st] spawned lift Let_def args
    by (rule connect_and_finish [OF assms(1)])
      (intro program_rules finishes_bind [OF line(1)] finishes_bind [OF line(2)]
        finishes_bind [OF line(4)] finishes_bind [OF line(5)] stop own; assumption)
  then show ?thesis by simp
qed

section \<open>Property\<close>

text \<open>
  C11: the example programs print what they promise. With a reachable router, working
  sockets and a live service that runs the example's math worker, \<open>connect\<close> registers
  under its generated identity, finds the service in the registry and prints the results
  of its calls, and \<open>spawn\<close> prints those of its calls and in the end kills and reaps the
  one process it has started; both end without an error.
\<close>

theorem examples_print:
  assumes "wire_ok es" and "before_connect es st"
    and "es_worker es = math_worker ja label" and "json_access_ok ja" and "int_readers_ok rd"
    and "launch (spawn_command windows canonicalize (es_service es) (es_service es) None) = Inr child"
  shows "(\<exists>st'. connect_main rd es [''connect'', ''--target'', es_service es] st = (Some (Inr ()), st') \<and>
      ex_out st' = ex_out st @ [''Connecting to '' @ es_service es @ ''...'',
        ''Connected as '' @ es_uuid es @ '' to default target '' @ es_service es @ nl,
        ''Router registry sees '' @ es_service es @ '': true'' @ nl, ''Calling remote functions...'' @ nl,
        ''add(10, 20) = 30'', ''multiply(7, 8) = 56'', ''factorial(5) = 120'', nl @ ''Done! Stopping connection...''] \<and>
      ex_effects st' = ex_effects st) \<and>
    (\<exists>st'. spawn_main rd es windows canonicalize launch (es_service es) st = (Some (Inr ()), st') \<and>
      ex_out st' = ex_out st @ [''Spawning math worker...'', ''Worker started!'' @ nl, ''Calling remote functions...'' @ nl,
        ''add(10, 20) = 30'', ''multiply(7, 8) = 56'', ''factorial(5) = 120'', ''fibonacci(10) = 55'',
        nl @ ''Done! Stopping worker...''] \<and>
      ex_effects st' = ex_effects st @ [KillChild child, WaitChild child])"
  using connect_prints [OF assms(1-5)] spawn_prints [where launch = launch, OF assms] by (rule conjI)

definition demo_surroundings :: "string list surroundings" where
  "demo_surroundings = \<lparr>es_codec = msgpack, es_ids = (\<lambda>n. [char_of (48 + n mod 10)]), es_ts = (\<lambda>_. 0),
     es_worker = math_worker demo_access ''math'', es_service = ''svc'', es_caller_sink = 4, es_service_sink = 7,
     es_bootstrap = (\<lambda>_. Inr ()), es_ws = (\<lambda>_. None),
     es_os = \<lparr>bo_router_port = None, bo_dirs_home = None, bo_home_var = None, bo_join = (@)\<rparr>, es_uuid = ''me''\<rparr>"

definition demo_run :: "string list example_run" where
  "demo_run = \<lparr>ex_out = [], ex_effects = [], ex_next = 0, ex_dep =
     \<lparr>dp_client = demo_start, dp_router = scene, dp_service =
       \<lparr>sv_sent = [], sv_send_err = (\<lambda>_. None), sv_clock = Some 0, sv_log = [], sv_worker = []\<rparr>\<rparr>\<rparr>"

definition demo_readers :: int_readers where
  "demo_readers = \<lparr>fv_i64 = ok_or ''not an i64'' \<circ> as_i64 demo_access, fv_u64 = ok_or ''not a u64'' \<circ> as_u64 demo_access\<rparr>"

text \<open>The reference codec carries the messages of every program with short names.\<close>

lemma msgpack_wire_ok:
  assumes cd: "es_codec es = msgpack" and len: "\<And>n. length (es_ids es n) \<le> 100" "length (es_uuid es) \<le> 100" "length (es_service es) \<le> 100"
  shows "wire_ok es"
proof -
  have v: "value_ok (json_of_int i)" for i by (simp add: json_of_int_def)
  have args: "args_ok (map json_of_int ns)" if "length ns \<le> 2" for ns
    using that v by (simp add: args_ok_def list_all_iff)
  have wf: "well_framed msgpack e" if "env_v e = PROTOCOL_VERSION"
    "length (env_kind e) \<le> 100" "length (env_msg_id e) \<le> 100" "length (env_from e) \<le> 100" "length (env_to e) \<le> 100" for e
    using that by (intro msgpack_well_framed) simp_all
  have small: "length (es_uuid es) < 4294967296" "length (es_service es) < 4294967296" using len by simp_all
  show ?thesis
    unfolding wire_ok_def Let_def cd
    by (intro conjI allI ballI impI msgpack_round_trips wf)
      (auto simp: build_register_envelope_def build_envelope_def build_query_envelope_def build_call_envelope_def
        reply_envelope_def answer_envelope_def mf_defs kind_defs ROUTER_PEER_ID_def PROTOCOL_VERSION_def
        msgpack_def mk_enc_def str_ok_def build_ack_body_def query_ok_def call_ok_def args v len small)
qed

lemma demo_wire_ok: "wire_ok demo_surroundings"
  by (rule msgpack_wire_ok) (simp_all add: demo_surroundings_def)

lemma demo_readers_ok: "int_readers_ok demo_readers"
  using json_access_simps [OF demo_access_ok] by (simp add: int_readers_ok_def demo_readers_def)

theorem examples_print_witness:
  "\<exists>st'. spawn_main demo_readers demo_surroundings False (\<lambda>_. None) (\<lambda>_. Inr 99) ''svc'' demo_run = (Some (Inr ()), st') \<and>
     ex_out st' = [''Spawning math worker...'', ''Worker started!'' @ nl, ''Calling remote functions...'' @ nl,
       ''add(10, 20) = 30'', ''multiply(7, 8) = 56'', ''factorial(5) = 120'', ''fibonacci(10) = 55'',
       nl @ ''Done! Stopping worker...''] \<and>
     ex_effects st' = [KillChild 99, WaitChild 99]"
proof -
  have b: "before_connect demo_surroundings demo_run"
    using scene_wf
    by (simp add: before_connect_def can_connect_def service_live_def demo_surroundings_def demo_run_def Let_def demo_start_def scene_def live_def scene_record_def)
  have e: "es_worker demo_surroundings = math_worker demo_access ''math''" "es_service demo_surroundings = ''svc''"
    "ex_out demo_run = []" "ex_effects demo_run = []"
    by (simp_all add: demo_surroundings_def demo_run_def)
  show ?thesis
    using examples_print [where launch = "\<lambda>_. Inr 99" and windows = False and canonicalize = "\<lambda>_. None" and child = 99,
        OF demo_wire_ok b e(1) demo_access_ok demo_readers_ok refl]
    unfolding e by (simp only: append_Nil)
qed

end
