(* ===== verification/Network.thy ===== *)
theory Network
  imports Router_Delivery Deployment
begin

text \<open>
  The whole network: the concurrent router with any number of arbitrary peers, one Rust
  caller on the connection \<open>c\<close> and one Rust service on the connection \<open>d\<close>. Their sockets
  deliver binary frames in the order they were written, each once; everything else (what
  other peers send, control messages, transport errors, clocks, the scheduling of all
  tasks) is arbitrary. Both endpoints register first, as \<open>connect\<close> and
  \<open>run_service_async\<close> do, and start working when the acknowledgement arrives.
\<close>

section \<open>State\<close>

datatype service_phase = Joining | Serving | Leaving | Gone

record 'w Net =
  nt_audit :: Audit
  nt_client :: ClientSystem
  nt_joined :: bool
  nt_up :: nat
  nt_down :: nat
  nt_service :: "'w ServiceWorld"
  nt_phase :: service_phase
  nt_sup :: nat
  nt_sdown :: nat
  nt_served :: "FrameParts list"

abbreviation nt_sys :: "'w Net \<Rightarrow> System" where "nt_sys s \<equiv> au_sys (nt_audit s)"
abbreviation nt_world :: "'w Net \<Rightarrow> World" where "nt_world s \<equiv> sys_world (nt_sys s)"

text \<open>The frames written to one socket, in order.\<close>

definition frames_for :: "sink \<Rightarrow> World \<Rightarrow> bytes list" where
  "frames_for k w = map snd (filter (\<lambda>e. fst e = k) (w_sent w))"

text \<open>A frame that the caller's API issues under the identifier \<open>m\<close>.\<close>

definition request_for :: "codec \<Rightarrow> CallerTransport \<Rightarrow> string \<Rightarrow> bytes \<Rightarrow> bool" where
  "request_for cd tr m f \<longleftrightarrow>
     (\<exists>ts target fn args. call_request cd m ts tr target fn args = Inr (m, f)) \<or>
     (\<exists>ts q. query_request cd m ts tr q = Inr (m, f))"

text \<open>Client actions other than the arrival of a binary frame.\<close>

fun own_action :: "codec \<Rightarrow> CallerTransport \<Rightarrow> (nat \<Rightarrow> string) \<Rightarrow> client_action \<Rightarrow> bool" where
  "own_action cd tr ids (Issue n f) \<longleftrightarrow> request_for cd tr (ids n) f"
| "own_action cd tr ids (Receive (ItemOk (Binary f))) \<longleftrightarrow> False"
| "own_action cd tr ids _ \<longleftrightarrow> True"

fun takes_binary :: "sink \<Rightarrow> label \<Rightarrow> bool" where
  "takes_binary k (Take k' (ItemOk (Binary f))) \<longleftrightarrow> k' = k"
| "takes_binary k _ \<longleftrightarrow> False"

definition service_reads :: "codec \<Rightarrow> 'w worker \<Rightarrow> string \<Rightarrow> ws_item \<Rightarrow> 'w Net \<Rightarrow> 'w Net" where
  "service_reads cd worker svc item s =
     (case run (service_item cd svc worker item) (nt_service s) of (ctl, w) \<Rightarrow>
        s\<lparr>nt_service := w,
          nt_phase := (case ctl of ServiceContinue \<Rightarrow> Serving | ServiceBreak \<Rightarrow> Leaving),
          nt_served := nt_served s @ (case call_for cd svc item of None \<Rightarrow> [] | Some q \<Rightarrow> [q])\<rparr>)"

section \<open>Steps\<close>

inductive net_step ::
    "codec \<Rightarrow> CallerTransport \<Rightarrow> (nat \<Rightarrow> string) \<Rightarrow> 'w worker \<Rightarrow> string \<Rightarrow> sink \<Rightarrow> sink \<Rightarrow> 'w Net \<Rightarrow> 'w Net \<Rightarrow> bool"
  for cd :: codec and tr :: CallerTransport and ids :: "nat \<Rightarrow> string" and worker :: "'w worker"
    and svc :: string and c :: sink and d :: sink where
  net_router: "router_move cd (nt_sys s) l t \<Longrightarrow> \<not> takes_binary c l \<Longrightarrow> \<not> takes_binary d l \<Longrightarrow>
    net_step cd tr ids worker svc c d s (s\<lparr>nt_audit := audit_note (nt_audit s) l t\<rparr>)"
| net_up: "nt_up s < length (cl_sent (cs_client (nt_client s))) \<Longrightarrow>
    l = Take c (ItemOk (Binary (cl_sent (cs_client (nt_client s)) ! nt_up s))) \<Longrightarrow>
    router_move cd (nt_sys s) l t \<Longrightarrow>
    net_step cd tr ids worker svc c d s (s\<lparr>nt_audit := audit_note (nt_audit s) l t, nt_up := Suc (nt_up s)\<rparr>)"
| net_sup: "nt_sup s < length (sv_sent (nt_service s)) \<Longrightarrow>
    l = Take d (ItemOk (Binary (sv_sent (nt_service s) ! nt_sup s))) \<Longrightarrow>
    router_move cd (nt_sys s) l t \<Longrightarrow>
    net_step cd tr ids worker svc c d s (s\<lparr>nt_audit := audit_note (nt_audit s) l t, nt_sup := Suc (nt_sup s)\<rparr>)"
| net_join: "\<not> nt_joined s \<Longrightarrow> frames_for c (nt_world s) = f # fs \<Longrightarrow>
    register_reply cd ''router rejected caller registration'' (ItemOk (Binary f)) = Inr () \<Longrightarrow>
    net_step cd tr ids worker svc c d s (s\<lparr>nt_joined := True, nt_down := 1\<rparr>)"
| net_client: "nt_joined s \<Longrightarrow> own_action cd tr ids a \<Longrightarrow> client_exec cd tr ids a (nt_client s) = Some t \<Longrightarrow>
    net_step cd tr ids worker svc c d s (s\<lparr>nt_client := t\<rparr>)"
| net_down: "nt_joined s \<Longrightarrow> nt_down s < length (frames_for c (nt_world s)) \<Longrightarrow>
    client_exec cd tr ids (Receive (ItemOk (Binary (frames_for c (nt_world s) ! nt_down s)))) (nt_client s) = Some t \<Longrightarrow>
    net_step cd tr ids worker svc c d s (s\<lparr>nt_client := t, nt_down := Suc (nt_down s)\<rparr>)"
| net_sjoin: "nt_phase s = Joining \<Longrightarrow> frames_for d (nt_world s) = f # fs \<Longrightarrow>
    register_reply cd ''router rejected service registration'' (ItemOk (Binary f)) = Inr () \<Longrightarrow>
    net_step cd tr ids worker svc c d s (s\<lparr>nt_phase := Serving, nt_sdown := 1\<rparr>)"
| net_serve: "nt_phase s = Serving \<Longrightarrow> nt_sdown s < length (frames_for d (nt_world s)) \<Longrightarrow>
    net_step cd tr ids worker svc c d s
      ((service_reads cd worker svc (ItemOk (Binary (frames_for d (nt_world s) ! nt_sdown s))) s)\<lparr>nt_sdown := Suc (nt_sdown s)\<rparr>)"
| net_sitem: "nt_phase s = Serving \<Longrightarrow> (\<And>f. item \<noteq> ItemOk (Binary f)) \<Longrightarrow>
    net_step cd tr ids worker svc c d s (service_reads cd worker svc item s)"
| net_sleave: "nt_phase s = Leaving \<Longrightarrow>
    net_step cd tr ids worker svc c d s
      (s\<lparr>nt_service := snd (run (send_disconnect_frame cd m svc) (nt_service s)), nt_phase := Gone\<rparr>)"
| net_senv: "net_step cd tr ids worker svc c d s
    (s\<lparr>nt_service := (nt_service s)\<lparr>sv_clock := k, sv_send_err := errs\<rparr>\<rparr>)"

definition net_init :: "codec \<Rightarrow> CallerTransport \<Rightarrow> string \<Rightarrow> 'w \<Rightarrow> 'w Net \<Rightarrow> bool" where
  "net_init cd tr svc st0 s \<longleftrightarrow> audit_init (nt_audit s) \<and> client_init (nt_client s) \<and>
     (\<exists>m ts f. register_frame cd m ts (ct_peer_id tr) Caller = Inr f \<and> length f < 2 ^ 32 \<and>
        cl_sent (cs_client (nt_client s)) = [f]) \<and>
     (\<exists>m ts f. register_frame cd m ts svc Service = Inr f \<and> sv_sent (nt_service s) = [f]) \<and>
     sv_worker (nt_service s) = st0 \<and> \<not> nt_joined s \<and> nt_phase s = Joining \<and> nt_served s = [] \<and>
     nt_up s = 0 \<and> nt_down s = 0 \<and> nt_sup s = 0 \<and> nt_sdown s = 0"


text \<open>
  In the network the audited router moves only by its own steps, and so does the caller:
  what holds of either alone under every environment holds in the network.
\<close>

interpretation net_router_part: simulation "net_init cd tr svc st0" "net_step cd tr ids worker svc c d"
    audit_init "audit_step cd" nt_audit for cd tr svc st0 ids worker c d
proof unfold_locales
  show "net_init cd tr svc st0 s \<Longrightarrow> audit_init (nt_audit s)" for s by (simp add: net_init_def)
  show "net_step cd tr ids worker svc c d s t \<Longrightarrow> (audit_step cd)\<^sup>*\<^sup>* (nt_audit s) (nt_audit t)" for s t
    by (erule net_step.cases) (auto simp: service_reads_def split: prod.splits intro!: r_into_rtranclp intro: audited)
qed

interpretation net_caller_part: part_invariant "net_init cd tr svc st0" "net_step cd tr ids worker svc c d"
    client_init "client_step cd tr ids" nt_client "client_inv cd ids" for cd tr svc st0 ids worker c d
proof unfold_locales
  show "net_init cd tr svc st0 s \<Longrightarrow> client_init (nt_client s)" for s by (simp add: net_init_def)
  show "net_step cd tr ids worker svc c d s t \<Longrightarrow> (client_step cd tr ids)\<^sup>*\<^sup>* (nt_client s) (nt_client t)" for s t
    by (erule net_step.cases)
      (auto simp: service_reads_def client_step_def simp del: client_exec.simps split: prod.splits intro!: r_into_rtranclp)
qed

section \<open>The two endpoints\<close>

definition binaries :: "ws_item list \<Rightarrow> bytes list" where
  "binaries = List.map_filter (\<lambda>i. case i of ItemOk (Binary f) \<Rightarrow> Some f | _ \<Rightarrow> None)"

lemma binaries_simps [simp]: "binaries [] = []" "binaries (xs @ ys) = binaries xs @ binaries ys"
  "binaries [ItemOk (Binary f)] = [f]"
  by (simp_all add: binaries_def List.map_filter_def)

lemma binaries_other: "(\<And>f. i \<noteq> ItemOk (Binary f)) \<Longrightarrow> binaries [i] = []"
  by (cases i) (auto simp: binaries_def List.map_filter_def split: Message.splits)

definition control_frame :: "codec \<Rightarrow> bytes \<Rightarrow> bool" where
  "control_frame cd f \<longleftrightarrow> (\<exists>e b. mf_encode_frame cd e b = Inr f \<and> env_kind e \<in> {''register'', ''disconnect''})"

lemma control_register: "register_frame cd m ts pid cls = Inr f \<Longrightarrow> control_frame cd f"
  by (auto simp: register_frame_def and_then_eq_Inr control_frame_def build_register_envelope_def mf_defs)

lemma control_disconnect: "disconnect_frame cd m ts pid = Inr f \<Longrightarrow> control_frame cd f"
  by (auto simp: disconnect_frame_def control_frame_def build_disconnect_envelope_def mf_defs)

fun unsent :: "call_pc \<Rightarrow> bool" where
  "unsent AtCheck = True"
| "unsent AtInsert = True"
| "unsent (AtSend ch) = True"
| "unsent _ = False"

text \<open>
  \<open>own\<close> says for each frame that the caller wrote which request wrote it, if any: every
  request writes its own frame, at most once.
\<close>

definition sent_by :: "codec \<Rightarrow> (nat \<rightharpoonup> request) \<Rightarrow> nat option list \<Rightarrow> bytes list \<Rightarrow> bool" where
  "sent_by cd rqs own fs \<longleftrightarrow> list_all2 (\<lambda>n f. case n of
       None \<Rightarrow> control_frame cd f
     | Some k \<Rightarrow> \<exists>rq. rqs k = Some rq \<and> rq_frame rq = f \<and> \<not> unsent (rq_pc rq)) own fs \<and>
     distinct (filter (\<lambda>n. n \<noteq> None) own)"

definition caller_ok :: "codec \<Rightarrow> CallerTransport \<Rightarrow> (nat \<Rightarrow> string) \<Rightarrow> ClientSystem \<Rightarrow> bool" where
  "caller_ok cd tr ids s \<longleftrightarrow> (\<forall>n rq. cs_requests s n = Some rq \<longrightarrow> request_for cd tr (ids n) (rq_frame rq)) \<and>
     (\<exists>own. sent_by cd (cs_requests s) own (cl_sent (cs_client s)))"

lemma sent_by_mono:
  assumes "sent_by cd rqs own fs"
    and "\<And>k rq. rqs k = Some rq \<Longrightarrow> \<not> unsent (rq_pc rq) \<Longrightarrow>
      \<exists>rq'. rqs' k = Some rq' \<and> rq_frame rq' = rq_frame rq \<and> \<not> unsent (rq_pc rq')"
  shows "sent_by cd rqs' own fs"
  using assms unfolding sent_by_def
  by (auto elim!: list_all2_mono split: option.splits)

lemma sent_by_control: "sent_by cd rqs own fs \<Longrightarrow> control_frame cd f \<Longrightarrow> sent_by cd rqs (own @ [None]) (fs @ [f])"
  by (simp add: sent_by_def list_all2_appendI)

lemma sent_by_request:
  assumes "sent_by cd rqs own fs" and "rqs n = Some rq" and "unsent (rq_pc rq)" and "\<not> unsent pc"
  shows "sent_by cd (rqs(n \<mapsto> rq\<lparr>rq_pc := pc\<rparr>)) (own @ [Some n]) (fs @ [rq_frame rq])"
proof -
  have "Some n \<notin> set own"
  proof
    assume "Some n \<in> set own"
    then obtain i where "i < length own" "own ! i = Some n" by (auto simp: in_set_conv_nth)
    then show False using assms(1-3) by (auto simp: sent_by_def list_all2_conv_all_nth)
  qed
  moreover have "sent_by cd (rqs(n \<mapsto> rq\<lparr>rq_pc := pc\<rparr>)) own fs"
    by (rule sent_by_mono [OF assms(1)]) (use assms(2-4) in auto)
  ultimately show ?thesis using assms(4) by (auto simp: sent_by_def list_all2_appendI)
qed

lemma sent_by_quiet:
  assumes "sent_by cd rqs own fs" and "rqs n = Some rq" and "\<not> unsent (rq_pc rq) \<Longrightarrow> \<not> unsent pc"
  shows "sent_by cd (rqs(n \<mapsto> rq\<lparr>rq_pc := pc\<rparr>)) own fs"
  by (rule sent_by_mono [OF assms(1)]) (use assms(2,3) in auto)

lemma send_and_wait_sent:
  assumes "send_and_wait tr rq c = Some (pc, c')"
  shows "(cl_sent c' = cl_sent c \<and> (\<not> unsent (rq_pc rq) \<longrightarrow> \<not> unsent pc)) \<or>
    (cl_sent c' = cl_sent c @ [rq_frame rq] \<and> unsent (rq_pc rq) \<and> \<not> unsent pc)"
  using assms
  by (auto simp: send_and_wait_def send_raw_frame_def pending_insert_def pending_remove_def chan_set_def Let_def
      split: call_pc.splits if_splits option.splits chan.splits)

lemma fold_drop_sent: "cl_sent (fold (\<lambda>ch. chan_set ch Dropped) chs c) = cl_sent c"
  by (induction chs arbitrary: c) (simp_all add: chan_set_def)

lemma inbound_loop_sent: "inbound_loop ep i c = Some (i', c') \<Longrightarrow> cl_sent c' = cl_sent c"
  by (auto simp: inbound_loop_def pending_remove_def pending_drain_def chan_set_def Let_def
      split: inbound.splits option.splits list.splits)

lemma caller_ok_exec:
  assumes ok: "caller_ok cd tr ids s" and "client_exec cd tr ids a s = Some t"
    and own: "own_action cd tr ids a \<or> (\<exists>item. a = Receive item)"
  shows "caller_ok cd tr ids t"
proof -
  obtain sd where req: "\<And>n rq. cs_requests s n = Some rq \<Longrightarrow> request_for cd tr (ids n) (rq_frame rq)"
    and sd: "sent_by cd (cs_requests s) sd (cl_sent (cs_client s))"
    using ok by (auto simp: caller_ok_def)
  show ?thesis
  proof (cases a)
    case (Issue n f)
    then have none: "cs_requests s n = None" and
      t: "t = s\<lparr>cs_requests := (cs_requests s)(n \<mapsto> \<lparr>rq_msg_id = ids n, rq_frame = f, rq_pc = AtCheck\<rparr>)\<rparr>"
      using assms(2) by (auto split: option.splits)
    have "sent_by cd (cs_requests t) sd (cl_sent (cs_client t))"
      unfolding t by simp (rule sent_by_mono [OF sd], use none in auto)
    then show ?thesis using own Issue req unfolding caller_ok_def t by auto
  next
    case (Advance n)
    then obtain rq pc c where rq: "cs_requests s n = Some rq" and st: "send_and_wait tr rq (cs_client s) = Some (pc, c)"
      and t: "t = set_request s n rq pc c"
      using assms(2) by (auto split: option.splits)
    have "\<exists>own. sent_by cd (cs_requests t) own (cl_sent (cs_client t))"
      using send_and_wait_sent [OF st] sent_by_quiet [OF sd rq, of pc] sent_by_request [OF sd rq, of pc]
      unfolding t set_request_def by auto
    then show ?thesis using req rq unfolding caller_ok_def t set_request_def by auto
  next
    case (Expire n)
    then obtain rq where rq: "cs_requests s n = Some rq"
      and t: "t = set_request s n rq (Returned (Inl TimeoutError)) (cs_client s)"
      using assms(2) by (auto simp: wait_timeout_def split: option.splits call_pc.splits if_splits)
    have "\<exists>own. sent_by cd (cs_requests t) own (cl_sent (cs_client t))"
      using sent_by_quiet [OF sd rq, of "Returned (Inl TimeoutError)"] unfolding t set_request_def by auto
    then show ?thesis using req rq unfolding caller_ok_def t set_request_def by auto
  next
    case (Receive item)
    then show ?thesis using assms(2) ok by (auto simp: caller_ok_def split: if_splits)
  next
    case InboundStep
    then show ?thesis using assms(2) ok inbound_loop_sent
      by (auto simp: caller_ok_def split: option.splits)
  next
    case (DisconnectSend m ts)
    then obtain f where f: "disconnect_frame cd m ts (ct_peer_id tr) = Inr f"
      and t: "t = s\<lparr>cs_client := snd (send_raw_frame f (cs_client s))\<rparr>"
      using assms(2) by (auto split: sum.splits)
    have "\<exists>own. sent_by cd (cs_requests t) own (cl_sent (cs_client t))"
      using sd sent_by_control [OF sd control_disconnect [OF f]]
      unfolding t by (auto simp: send_raw_frame_def split: option.splits)
    then show ?thesis using req unfolding caller_ok_def t by auto
  next
    case AbortInbound
    then show ?thesis using assms(2) ok
      by (auto simp: caller_ok_def abort_inbound_def fold_drop_sent split: if_splits)
  next
    case (Transport errs)
    then show ?thesis using assms(2) ok by (auto simp: caller_ok_def)
  qed
qed

text \<open>The worker's state after a sequence of calls.\<close>

definition worker_after :: "codec \<Rightarrow> 'w worker \<Rightarrow> 'w \<Rightarrow> FrameParts list \<Rightarrow> 'w" where
  "worker_after cd worker st0 qs = fold (\<lambda>q st. snd (call_outcome cd worker q st)) qs st0"

text \<open>The answer to the call number \<open>i\<close> of those the service handled.\<close>

definition answer_to :: "codec \<Rightarrow> 'w worker \<Rightarrow> 'w \<Rightarrow> string \<Rightarrow> FrameParts list \<Rightarrow> nat \<Rightarrow> bytes \<Rightarrow> bool" where
  "answer_to cd worker st0 svc qs i f \<longleftrightarrow> i < length qs \<and> (\<exists>ts. answer_frame cd ts svc (fp_envelope (qs ! i))
     (fst (call_outcome cd worker (qs ! i) (worker_after cd worker st0 (take i qs)))) = Inr f)"

definition service_ok :: "codec \<Rightarrow> 'w worker \<Rightarrow> 'w \<Rightarrow> string \<Rightarrow> FrameParts list \<Rightarrow> 'w ServiceWorld \<Rightarrow> bool" where
  "service_ok cd worker st0 svc qs w \<longleftrightarrow> sv_worker w = worker_after cd worker st0 qs \<and>
     (\<forall>f \<in> set (sv_sent w). control_frame cd f \<or> (\<exists>i. answer_to cd worker st0 svc qs i f))"

lemma answer_to_mono: "answer_to cd worker st0 svc qs i f \<Longrightarrow> answer_to cd worker st0 svc (qs @ rs) i f"
  by (auto simp: answer_to_def nth_append)

lemma service_ok_item:
  assumes "service_ok cd worker st0 svc qs w"
  shows "service_ok cd worker st0 svc (qs @ (case call_for cd svc item of None \<Rightarrow> [] | Some q \<Rightarrow> [q]))
    (snd (run (service_item cd svc worker item) w))"
proof (cases "call_for cd svc item")
  case None
  then obtain ctl lg where "run (service_item cd svc worker item) w = (ctl, w\<lparr>sv_log := lg\<rparr>)"
    using service_item_no_call by blast
  then show ?thesis using assms None by (simp add: service_ok_def)
next
  case (Some q)
  obtain out st where out: "call_outcome cd worker q (sv_worker w) = (out, st)" by force
  have w: "sv_worker w = worker_after cd worker st0 qs" using assms by (simp add: service_ok_def)
  have ans: "answer_to cd worker st0 svc (qs @ [q]) (length qs) f"
    if "answer_frame cd ts svc (fp_envelope q) out = Inr f" for ts f
    using that out w by (auto simp: answer_to_def)
  have st: "st = worker_after cd worker st0 (qs @ [q])" using out w by (simp add: worker_after_def)
  define r where "r = answer_frame cd (mf_now_ts (sv_clock w)) svc (fp_envelope q) out"
  have run: "run (handle_call_frame cd svc worker q) w = sv_transmit r (w\<lparr>sv_worker := st\<rparr>)"
    by (simp add: run_handle_call_frame out r_def)
  let ?w = "snd (run (service_item cd svc worker item) w)"
  have eff: "sv_worker ?w = st" "set (sv_sent ?w) \<subseteq> set (sv_sent w) \<union> {f. r = Inr f}"
    unfolding service_item_call [OF Some] run by (auto simp: sv_transmit_def split: sum.splits option.splits)
  have "control_frame cd f \<or> (\<exists>i. answer_to cd worker st0 svc (qs @ [q]) i f)" if "f \<in> set (sv_sent ?w)" for f
  proof (cases "f \<in> set (sv_sent w)")
    case True
    then consider "control_frame cd f" | i where "answer_to cd worker st0 svc qs i f"
      using assms unfolding service_ok_def by blast
    then show ?thesis by cases (auto dest: answer_to_mono [of _ _ _ _ _ _ _ "[q]"])
  next
    case False
    then have "r = Inr f" using eff(2) that by blast
    then show ?thesis using ans unfolding r_def by blast
  qed
  then show ?thesis using eff(1) st Some by (simp add: service_ok_def)
qed


section \<open>The invariant of the network\<close>

definition greets :: "codec \<Rightarrow> CallerTransport \<Rightarrow> bytes list \<Rightarrow> bool" where
  "greets cd tr sent \<longleftrightarrow> (\<exists>m ts f fs. register_frame cd m ts (ct_peer_id tr) Caller = Inr f \<and>
     length f < 2 ^ 32 \<and> sent = f # fs)"

lemma greets_prefix: "greets cd tr sent \<Longrightarrow> prefix sent sent' \<Longrightarrow> greets cd tr sent'"
  by (fastforce simp: greets_def prefix_def)

definition net_inv ::
    "codec \<Rightarrow> CallerTransport \<Rightarrow> (nat \<Rightarrow> string) \<Rightarrow> 'w worker \<Rightarrow> 'w \<Rightarrow> string \<Rightarrow> sink \<Rightarrow> sink \<Rightarrow> 'w Net \<Rightarrow> bool" where
  "net_inv cd tr ids worker st0 svc c d s \<longleftrightarrow>
     reachable audit_init (audit_step cd) (nt_audit s) \<and>
     client_inv cd ids (nt_client s) \<and> caller_ok cd tr ids (nt_client s) \<and>
     greets cd tr (cl_sent (cs_client (nt_client s))) \<and>
     service_ok cd worker st0 svc (nt_served s) (nt_service s) \<and>
     prefix (binaries (au_items (nt_audit s) c)) (cl_sent (cs_client (nt_client s))) \<and>
     length (binaries (au_items (nt_audit s) c)) = nt_up s \<and>
     prefix (binaries (au_items (nt_audit s) d)) (sv_sent (nt_service s)) \<and>
     length (binaries (au_items (nt_audit s) d)) = nt_sup s \<and>
     set (binaries (cs_items (nt_client s))) \<subseteq> set (frames_for c (nt_world s)) \<and>
     (nt_phase s = Joining \<longrightarrow> nt_served s = []) \<and>
     nt_sdown s \<le> length (frames_for d (nt_world s)) \<and>
     subseq (nt_served s) (List.map_filter (\<lambda>f. call_for cd svc (ItemOk (Binary f)))
       (take (nt_sdown s) (frames_for d (nt_world s))))"

lemma net_inv_audit:
  assumes "net_inv cd tr ids worker st0 svc c d s"
  shows "audit_inv cd (nt_audit s)" and "registered_first cd (nt_audit s)"
  using assms audited.reachable_inv reachable_registered by (auto simp: net_inv_def)

lemma frames_for_append: "w_sent w' = w_sent w @ new \<Longrightarrow> \<exists>fs. frames_for k w' = frames_for k w @ fs"
  by (simp add: frames_for_def)

lemma audit_note_sent:
  assumes "audit_inv cd a" and "router_move cd (au_sys a) l t"
  shows "\<exists>fs. frames_for k (sys_world t) = frames_for k (sys_world (au_sys a)) @ fs"
proof -
  have inv: "audit_inv cd (audit_note a l t)"
    using audit_step_inv [OF assms(1) audited [OF assms(2)]] .
  have "w_sent (sys_world t) = map snd (au_log (audit_note a l t))" "w_sent (sys_world (au_sys a)) = map snd (au_log a)"
    using inv assms(1) by (simp_all add: audit_inv_def)
  then show "\<exists>fs. frames_for k (sys_world t) = frames_for k (sys_world (au_sys a)) @ fs"
    by (intro frames_for_append) (simp add: audit_note_def)
qed

lemma binaries_note:
  "\<not> takes_binary k l \<Longrightarrow> binaries (note_items l items k) = binaries (items k)"
  by (cases "(k, l)" rule: takes_binary.cases) (auto simp: binaries_other)

lemma net_router_inv:
  assumes inv: "net_inv cd tr ids worker st0 svc c d s" and mv: "router_move cd (nt_sys s) l t"
    and "prefix (binaries (note_items l (au_items (nt_audit s)) c)) (cl_sent (cs_client (nt_client s)))"
    and "length (binaries (note_items l (au_items (nt_audit s)) c)) = u"
    and "prefix (binaries (note_items l (au_items (nt_audit s)) d)) (sv_sent (nt_service s))"
    and "length (binaries (note_items l (au_items (nt_audit s)) d)) = v"
  shows "net_inv cd tr ids worker st0 svc c d
    (s\<lparr>nt_audit := audit_note (nt_audit s) l t, nt_up := u, nt_sup := v\<rparr>)"
proof -
  have "reachable audit_init (audit_step cd) (audit_note (nt_audit s) l t)"
    using inv audited [OF mv] by (auto simp: net_inv_def intro: reachable_step)
  moreover obtain fs gs where fs: "frames_for c (sys_world t) = frames_for c (nt_world s) @ fs"
    "frames_for d (sys_world t) = frames_for d (nt_world s) @ gs"
    using audit_note_sent [OF net_inv_audit(1) [OF inv] mv] by metis
  ultimately show ?thesis
    using inv assms(3-6) fs by (auto simp: net_inv_def)
qed

lemma prefix_next:
  assumes "prefix xs ys" and "length xs < length ys"
  shows "prefix (xs @ [ys ! length xs]) ys"
proof -
  obtain zs where "ys = xs @ zs" using assms(1) by (auto simp: prefix_def)
  then show ?thesis using assms(2) by (cases zs) (auto simp: prefix_def)
qed

lemma net_serve_inv:
  assumes inv: "net_inv cd tr ids worker st0 svc c d s" and k: "k = nt_sdown s \<or> k = Suc (nt_sdown s)"
    and len: "k \<le> length (frames_for d (nt_world s))"
    and item: "subseq (case call_for cd svc item of None \<Rightarrow> [] | Some q \<Rightarrow> [q])
      (List.map_filter (\<lambda>f. call_for cd svc (ItemOk (Binary f))) (drop (nt_sdown s) (take k (frames_for d (nt_world s)))))"
  shows "net_inv cd tr ids worker st0 svc c d ((service_reads cd worker svc item s)\<lparr>nt_sdown := k\<rparr>)"
proof -
  let ?fs = "frames_for d (nt_world s)" and ?call = "\<lambda>f. call_for cd svc (ItemOk (Binary f))"
  obtain ctl w where run: "run (service_item cd svc worker item) (nt_service s) = (ctl, w)" by force
  have "take k ?fs = take (nt_sdown s) ?fs @ drop (nt_sdown s) (take k ?fs)"
    using k len by (metis append_take_drop_id le_SucI min.absorb1 order_refl take_take)
  then have split: "List.map_filter ?call (take k ?fs) =
      List.map_filter ?call (take (nt_sdown s) ?fs) @ List.map_filter ?call (drop (nt_sdown s) (take k ?fs))"
    by (metis List.map_filter_def filter_append map_append)
  have "prefix (sv_sent (nt_service s)) (sv_sent w)"
    using service_item_appends [of "nt_service s" cd svc worker item] run by simp
  moreover have "service_ok cd worker st0 svc
      (nt_served s @ (case call_for cd svc item of None \<Rightarrow> [] | Some q \<Rightarrow> [q])) w"
    using service_ok_item [of cd worker st0 svc "nt_served s" "nt_service s" item] inv run by (simp add: net_inv_def)
  moreover have "subseq (nt_served s @ (case call_for cd svc item of None \<Rightarrow> [] | Some q \<Rightarrow> [q]))
      (List.map_filter ?call (take k ?fs))"
    unfolding split using inv item by (intro list_emb_append_mono) (simp_all add: net_inv_def)
  moreover have "(case ctl of ServiceContinue \<Rightarrow> Serving | ServiceBreak \<Rightarrow> Leaving) \<noteq> Joining"
    by (cases ctl) simp_all
  ultimately show ?thesis
    using inv len by (auto simp: net_inv_def service_reads_def run intro: prefix_order.trans)
qed

lemma exec_sent:
  assumes "client_exec cd tr ids a s = Some t"
  shows "prefix (cl_sent (cs_client s)) (cl_sent (cs_client t))"
proof (cases a)
  case (Advance n)
  then obtain rq pc c where "send_and_wait tr rq (cs_client s) = Some (pc, c)" "t = set_request s n rq pc c"
    using assms by (auto split: option.splits)
  then show ?thesis using send_and_wait_sent [of tr rq "cs_client s" pc c] by (auto simp: set_request_def)
qed (use assms in \<open>auto simp: set_request_def inbound_loop_sent send_raw_frame_def abort_inbound_def fold_drop_sent
      split: option.splits if_splits sum.splits\<close>)

lemma exec_items:
  assumes "client_exec cd tr ids a s = Some t" and "own_action cd tr ids a"
  shows "binaries (cs_items t) = binaries (cs_items s)"
proof (cases a)
  case (Receive item)
  then have "\<And>f. item \<noteq> ItemOk (Binary f)" using assms(2) by auto
  then show ?thesis using Receive assms(1) binaries_other by (auto split: if_splits)
qed (use assms(1) in \<open>auto simp: set_request_def split: option.splits sum.splits prod.splits\<close>)

lemma service_leaves:
  assumes "service_ok cd worker st0 svc qs w"
  shows "service_ok cd worker st0 svc qs (snd (run (send_disconnect_frame cd m svc) w)) \<and>
    prefix (sv_sent w) (sv_sent (snd (run (send_disconnect_frame cd m svc) w)))"
  using assms control_disconnect [of cd m "mf_now_ts (sv_clock w)" svc]
  by (auto simp: send_disconnect_frame_def service_ok_def sv_transmit_def split: sum.splits option.splits)

lemma net_step_inv:
  assumes inv: "net_inv cd tr ids worker st0 svc c d s" and cd: "c \<noteq> d"
    and step: "net_step cd tr ids worker svc c d s t"
  shows "net_inv cd tr ids worker st0 svc c d t"
  using step
proof cases
  case (net_router l u)
  have "net_inv cd tr ids worker st0 svc c d
      (s\<lparr>nt_audit := audit_note (nt_audit s) l u, nt_up := nt_up s, nt_sup := nt_sup s\<rparr>)"
    by (rule net_router_inv [OF inv net_router(2)])
      (use inv in \<open>simp_all add: binaries_note net_router net_inv_def\<close>)
  then show ?thesis unfolding net_router(1) by simp
next
  case (net_up l u)
  have "net_inv cd tr ids worker st0 svc c d
      (s\<lparr>nt_audit := audit_note (nt_audit s) l u, nt_up := Suc (nt_up s), nt_sup := nt_sup s\<rparr>)"
    by (rule net_router_inv [OF inv net_up(4)])
      (use inv cd prefix_next net_up in \<open>fastforce simp: net_inv_def\<close>)+
  then show ?thesis unfolding net_up(1) by simp
next
  case (net_sup l u)
  have "net_inv cd tr ids worker st0 svc c d
      (s\<lparr>nt_audit := audit_note (nt_audit s) l u, nt_up := nt_up s, nt_sup := Suc (nt_sup s)\<rparr>)"
    by (rule net_router_inv [OF inv net_sup(4)])
      (use inv cd prefix_next net_sup in \<open>fastforce simp: net_inv_def\<close>)+
  then show ?thesis unfolding net_sup(1) by simp
next
  case (net_join f fs)
  then show ?thesis using inv by (simp add: net_inv_def)
next
  case (net_client a u)
  then show ?thesis
    using inv exec_inv [OF _ net_client(4)] caller_ok_exec [OF _ net_client(4)] exec_items [OF net_client(4)]
      exec_sent [OF net_client(4)] by (auto simp: net_inv_def intro: prefix_order.trans greets_prefix)
next
  case (net_down u)
  have items: "binaries (cs_items u) = binaries (cs_items (nt_client s)) @ [frames_for c (nt_world s) ! nt_down s]"
    using net_down(4) by (auto split: if_splits)
  have "frames_for c (nt_world s) ! nt_down s \<in> set (frames_for c (nt_world s))" using net_down(3) by simp
  then show ?thesis
    using inv net_down(1) items exec_inv [OF _ net_down(4)] caller_ok_exec [OF _ net_down(4)] exec_sent [OF net_down(4)]
    by (auto simp: net_inv_def intro: prefix_order.trans greets_prefix)
next
  case (net_sjoin f fs)
  then have "nt_served s = []" using inv by (simp add: net_inv_def)
  then show ?thesis using inv net_sjoin by (simp add: net_inv_def)
next
  case net_serve
  let ?f = "frames_for d (nt_world s) ! nt_sdown s"
  have "drop (nt_sdown s) (take (Suc (nt_sdown s)) (frames_for d (nt_world s))) = [?f]"
    using net_serve(3) by (simp add: take_Suc_conv_app_nth)
  then show ?thesis unfolding net_serve(1)
    using net_serve(3) by (intro net_serve_inv [OF inv]) (auto simp: List.map_filter_simps split: option.splits)
next
  case (net_sitem item)
  have "call_for cd svc item = None" using net_sitem(3) by (auto simp: call_for_def split: ws_item.splits Message.splits)
  then have "net_inv cd tr ids worker st0 svc c d ((service_reads cd worker svc item s)\<lparr>nt_sdown := nt_sdown s\<rparr>)"
    using inv by (intro net_serve_inv [OF inv]) (auto simp: net_inv_def)
  moreover have "(service_reads cd worker svc item s)\<lparr>nt_sdown := nt_sdown s\<rparr> = service_reads cd worker svc item s"
    by (simp add: service_reads_def split: prod.splits)
  ultimately show ?thesis unfolding net_sitem(1) by simp
next
  case (net_sleave m)
  then show ?thesis
    using inv service_leaves [of cd worker st0 svc "nt_served s" "nt_service s" m]
    by (auto simp: net_inv_def intro: prefix_order.trans)
next
  case (net_senv k errs)
  then show ?thesis using inv by (simp add: net_inv_def service_ok_def)
qed


lemma net_init_inv: "net_init cd tr svc st0 s \<Longrightarrow> net_inv cd tr ids worker st0 svc c d s"
proof -
  assume init: "net_init cd tr svc st0 s"
  then have "reachable audit_init (audit_step cd) (nt_audit s)" "client_inv cd ids (nt_client s)"
    using reachable_init client.init_inv by (auto simp: net_init_def)
  moreover have "caller_ok cd tr ids (nt_client s)"
    using init control_register
    by (auto simp: net_init_def caller_ok_def client_init_def sent_by_def intro!: exI [of _ "[None]"])
  moreover have "service_ok cd worker st0 svc [] (nt_service s)"
    using init control_register by (auto simp: net_init_def service_ok_def worker_after_def)
  moreover have "greets cd tr (cl_sent (cs_client (nt_client s)))"
    using init unfolding net_init_def greets_def by blast
  ultimately show ?thesis
    using init by (simp add: net_init_def net_inv_def audit_init_def client_init_def)
qed

lemma net_invariant: "c \<noteq> d \<Longrightarrow>
    inductive_invariant (net_init cd tr svc st0) (net_step cd tr ids worker svc c d) (net_inv cd tr ids worker st0 svc c d)"
  by unfold_locales (auto intro: net_init_inv net_step_inv)

lemmas net_reachable_inv = inductive_invariant.reachable_inv [OF net_invariant, rotated]

text \<open>Every router and caller state of the network is one of the router and the caller alone.\<close>

lemma net_parts_reachable:
  assumes "reachable (net_init cd tr svc st0) (net_step cd tr ids worker svc c d) s"
  shows "reachable router_init (router_step cd) (nt_sys s)" "reachable client_init (client_step cd tr ids) (nt_client s)"
  using watched.reachable_part [OF net_router_part.reachable_part [OF assms]] net_caller_part.reachable_part [OF assms]
  by simp_all

section \<open>Where frames come from\<close>

text \<open>
  Assumptions on a run: every frame the router wrote is below 4 GiB, the service's
  identity was registered on no other connection, nor were the caller's.
\<close>

definition short_frames :: "World \<Rightarrow> bool" where
  "short_frames w \<longleftrightarrow> (\<forall>e \<in> set (w_sent w). length (snd e) < 2 ^ 32)"

definition sole :: "string \<Rightarrow> sink \<Rightarrow> (string \<times> PeerClass \<times> sink) set \<Rightarrow> bool" where
  "sole pid k E \<longleftrightarrow> (\<forall>j x. (pid, j, x) \<in> E \<longrightarrow> x = k)"

lemma frame_origin:
  assumes "audit_inv cd a" and "f \<in> set (frames_for k (sys_world (au_sys a)))"
  obtains x where "(x, k, f) \<in> set (au_log a)" and "explained cd (au_live a) x k f"
proof -
  have "(k, f) \<in> set (map snd (au_log a))"
    using assms by (auto simp: audit_inv_def frames_for_def)
  then obtain x where "(x, k, f) \<in> set (au_log a)" by auto
  then show ?thesis using that assms(1) by (auto simp: audit_inv_def)
qed

lemma relayed_mem: "(x, k, f) \<in> set l \<Longrightarrow> x \<noteq> k \<Longrightarrow> ItemOk (Binary f) \<in> set (relayed x l)"
  by (auto simp: relayed_def)

lemma binaries_mem [simp]: "f \<in> set (binaries items) \<longleftrightarrow> ItemOk (Binary f) \<in> set items"
  by (induction items) (auto simp: binaries_def List.map_filter_simps split: ws_item.splits Message.splits)

lemma relayed_taken:
  assumes "audit_inv cd a" and "(x, k, f) \<in> set (au_log a)" and "x \<noteq> k"
  shows "f \<in> set (binaries (au_items a x))"
  using relayed_mem [OF assms(2,3)] audit_inv_subseq [OF assms(1), of x] subseq_order.order_refl
  by (auto dest: list_emb_set)

lemma router_made_decode:
  assumes "round_trips (enc_envelope cd) (dec_envelope cd)" and "router_made cd f" and "length f < 2 ^ 32"
    and "mf_decode_frame cd f = Inr p"
  shows "env_from (fp_envelope p) = ROUTER_PEER_ID" and "env_kind (fp_envelope p) \<noteq> KIND_CALL"
proof -
  obtain e b where e: "env_from e = ROUTER_PEER_ID" "env_kind e \<in> {KIND_RESPONSE, KIND_ERROR, KIND_HEARTBEAT}"
    "encode_frame cd e b = Inr f"
    using assms(2) unfolding router_made_def by blast
  have "decode_frame cd f = Inr p" using assms(4) by (simp add: to_router.decode_agree)
  then have "p = \<lparr>fp_envelope = e, fp_body_bytes = b\<rparr>"
    using router_frames.decode_own [OF assms(1) e(3) assms(3)] by blast
  then show "env_from (fp_envelope p) = ROUTER_PEER_ID" and "env_kind (fp_envelope p) \<noteq> KIND_CALL"
    using e by (auto simp: kind_defs)
qed

lemma control_decode:
  assumes "round_trips (enc_envelope cd) (dec_envelope cd)" and "control_frame cd f" and "length f < 2 ^ 32"
    and "mf_decode_frame cd f = Inr p"
  shows "env_kind (fp_envelope p) \<in> {''register'', ''disconnect''}"
proof -
  obtain e b where "mf_encode_frame cd e b = Inr f" "env_kind e \<in> {''register'', ''disconnect''}"
    using assms(2) unfolding control_frame_def by blast
  then show ?thesis using client_frames.decode_own [OF assms(1) _ assms(3,4)] by force
qed


lemma request_decode:
  assumes "round_trips (enc_envelope cd) (dec_envelope cd)" and "request_for cd tr m f" and "length f < 2 ^ 32"
    and "mf_decode_frame cd f = Inr q" and "env_kind (fp_envelope q) = ''call''"
  obtains ts target fn args b where "call_request cd m ts tr target fn args = Inr (m, f)"
    and "enc_call cd \<lparr>call_function = fn, call_args = args, call_namespace = None\<rparr> = Inr b"
    and "q = \<lparr>fp_envelope = build_call_envelope m ts (ct_peer_id tr) target, fp_body_bytes = b\<rparr>"
proof -
  from assms(2) consider (call) ts target fn args where "call_request cd m ts tr target fn args = Inr (m, f)"
    | (query) ts qb where "query_request cd m ts tr qb = Inr (m, f)"
    unfolding request_for_def by blast
  then show ?thesis
  proof cases
    case call
    then obtain b where b: "enc_call cd \<lparr>call_function = fn, call_args = args, call_namespace = None\<rparr> = Inr b"
      "mf_encode_frame cd (build_call_envelope m ts (ct_peer_id tr) target) b = Inr f"
      using call_request_frame by blast
    then show ?thesis using that call client_frames.decode_own [OF assms(1) b(2) assms(3,4)] by blast
  next
    case query
    then obtain b where "mf_encode_frame cd (build_query_envelope m ts (ct_peer_id tr) MF_ROUTER_PEER_ID) b = Inr f"
      using query_request_frame by blast
    then have "env_kind (fp_envelope q) = ''query''"
      using client_frames.decode_own [OF assms(1) _ assms(3,4)] by (force simp: build_query_envelope_def mf_defs)
    then show ?thesis using assms(5) by simp
  qed
qed

lemma frames_for_short: "short_frames w \<Longrightarrow> f \<in> set (frames_for k w) \<Longrightarrow> length f < 2 ^ 32"
  by (auto simp: short_frames_def frames_for_def)

text \<open>A frame for the caller that names the service as its sender was written by the service.\<close>

lemma reply_from_service:
  assumes rt: "round_trips (enc_envelope cd) (dec_envelope cd)" and inv: "net_inv cd tr ids worker st0 svc c d s"
    and ne: "c \<noteq> d" "svc \<noteq> ROUTER_PEER_ID" and short: "short_frames (nt_world s)"
    and sole: "sole svc d (au_live (nt_audit s))"
    and f: "f \<in> set (frames_for c (nt_world s))" and p: "mf_decode_frame cd f = Inr p" "env_from (fp_envelope p) = svc"
  shows "\<exists>i. answer_to cd worker st0 svc (nt_served s) i f" and "\<exists>k. (env_to (fp_envelope p), k, c) \<in> au_live (nt_audit s)"
proof -
  have a: "audit_inv cd (nt_audit s)" using inv by (rule net_inv_audit)
  have len: "length f < 2 ^ 32" using frames_for_short [OF short f] .
  have dec: "decode_frame cd f = Inr p" using p(1) by (simp add: to_router.decode_agree)
  obtain x where x: "(x, c, f) \<in> set (au_log (nt_audit s))" "explained cd (au_live (nt_audit s)) x c f"
    using frame_origin [OF a f] .
  have "\<not> router_made cd f" using router_made_decode(1) [OF rt _ len p(1)] p(2) ne(2) by blast
  then obtain pid cls where pc: "(pid, cls, x) \<in> au_live (nt_audit s)" "delivers cd (au_live (nt_audit s)) pid cls f c"
    using x(2) unfolding explained_def by blast
  then have pid: "pid = svc" "\<exists>k. (env_to (fp_envelope p), k, c) \<in> au_live (nt_audit s)"
    "env_kind (fp_envelope p) \<in> {KIND_CALL, KIND_RESPONSE, KIND_ERROR, KIND_HEARTBEAT}"
    using dec p(2) unfolding delivers_def by auto
  then show "\<exists>k. (env_to (fp_envelope p), k, c) \<in> au_live (nt_audit s)" by blast
  have "x = d" using sole pc(1) pid(1) unfolding sole_def by blast
  then have "f \<in> set (binaries (au_items (nt_audit s) d))" using relayed_taken [OF a x(1)] ne(1) by blast
  then have "f \<in> set (sv_sent (nt_service s))"
    using inv unfolding net_inv_def by (meson set_mono_prefix subsetD)
  moreover have "\<not> control_frame cd f" using control_decode [OF rt _ len p(1)] pid(3) by (auto simp: kind_defs)
  ultimately show "\<exists>i. answer_to cd worker st0 svc (nt_served s) i f"
    using inv unfolding net_inv_def service_ok_def by blast
qed

text \<open>A call that the service got from an identity of the caller is a frame the caller wrote.\<close>

lemma call_from_caller:
  assumes rt: "round_trips (enc_envelope cd) (dec_envelope cd)" and a: "audit_inv cd a" and ne: "c \<noteq> d"
    and len: "length f < 2 ^ 32" and q: "mf_decode_frame cd f = Inr q" "env_kind (fp_envelope q) = ''call''"
    and sole: "sole (env_from (fp_envelope q)) c (au_live a)"
    and x: "(x, d, f) \<in> set (au_log a)"
  shows "x = c"
proof -
  have dec: "decode_frame cd f = Inr q" using q(1) by (simp add: to_router.decode_agree)
  have "\<not> router_made cd f" using router_made_decode(2) [OF rt _ len q(1)] q(2) by (auto simp: kind_defs)
  moreover have "explained cd (au_live a) x d f" using a x by (auto simp: audit_inv_def)
  ultimately obtain pid cls where "(pid, cls, x) \<in> au_live a" "delivers cd (au_live a) pid cls f d"
    unfolding explained_def by blast
  then show ?thesis using dec sole unfolding delivers_def sole_def by auto
qed


text \<open>The caller's connection is registered under the caller's identity only.\<close>

lemma caller_identity:
  assumes rt: "round_trips (enc_envelope cd) (dec_envelope cd)" and inv: "net_inv cd tr ids worker st0 svc c d s"
    and live: "(pid, k, c) \<in> au_live (nt_audit s)"
  shows "pid = ct_peer_id tr"
proof -
  obtain item items where it: "au_items (nt_audit s) c = item # items" "registers_as cd item pid k"
    using registered_firstD(1) [OF net_inv_audit(2) [OF inv] live] by (cases "au_items (nt_audit s) c") auto
  then obtain raw p where raw: "item = ItemOk (Binary raw)" "mf_decode_frame cd raw = Inr p" "env_from (fp_envelope p) = pid"
    by (auto simp: registers_as_def to_router.decode_agree)
  obtain m ts f fs where f: "register_frame cd m ts (ct_peer_id tr) Caller = Inr f" "length f < 2 ^ 32"
    "cl_sent (cs_client (nt_client s)) = f # fs"
    using inv by (auto simp: net_inv_def greets_def)
  have "binaries (item # items) = raw # binaries items" using raw(1) by (simp add: binaries_def List.map_filter_simps)
  moreover have "prefix (binaries (item # items)) (f # fs)" using inv it(1) f(3) by (simp add: net_inv_def)
  ultimately have "raw = f" by simp
  obtain b where "mf_encode_frame cd (build_register_envelope m ts (ct_peer_id tr) Caller) b = Inr f"
    using f(1) by (auto simp: register_frame_def and_then_eq_Inr)
  then have "p = \<lparr>fp_envelope = build_register_envelope m ts (ct_peer_id tr) Caller, fp_body_bytes = b\<rparr>"
    using client_frames.decode_own [OF rt _ f(2)] raw(2) \<open>raw = f\<close> by blast
  then show ?thesis using raw(3) by (simp add: build_register_envelope_def)
qed

lemma served_frame:
  assumes inv: "net_inv cd tr ids worker st0 svc c d s" and q: "q \<in> set (nt_served s)"
  obtains g where "g \<in> set (frames_for d (nt_world s))" and "call_for cd svc (ItemOk (Binary g)) = Some q"
proof -
  have "subseq (nt_served s) (List.map_filter (\<lambda>f. call_for cd svc (ItemOk (Binary f)))
      (take (nt_sdown s) (frames_for d (nt_world s))))"
    using inv by (simp add: net_inv_def)
  then have "q \<in> set (List.map_filter (\<lambda>f. call_for cd svc (ItemOk (Binary f)))
      (take (nt_sdown s) (frames_for d (nt_world s))))"
    using q by (auto dest: list_emb_set)
  then show ?thesis using that by (auto simp: List.map_filter_def dest: in_set_takeD)
qed

lemma call_for_Some:
  "call_for cd svc (ItemOk (Binary g)) = Some q \<longleftrightarrow> mf_decode_frame cd g = Inr q \<and>
     env_to (fp_envelope q) = svc \<and> env_kind (fp_envelope q) = ''call''"
  by (auto simp: call_for_def split: sum.splits)

lemma caller_frame_request:
  assumes rt: "round_trips (enc_envelope cd) (dec_envelope cd)" and ok: "caller_ok cd tr ids s"
    and g: "g \<in> set (cl_sent (cs_client s))" "length g < 2 ^ 32" "mf_decode_frame cd g = Inr q"
      "env_kind (fp_envelope q) = ''call''"
  obtains n rq where "cs_requests s n = Some rq" and "rq_frame rq = g" and "request_for cd tr (ids n) g"
proof -
  obtain own where own: "sent_by cd (cs_requests s) own (cl_sent (cs_client s))"
    and req: "\<And>n rq. cs_requests s n = Some rq \<Longrightarrow> request_for cd tr (ids n) (rq_frame rq)"
    using ok by (auto simp: caller_ok_def)
  obtain i where i: "i < length (cl_sent (cs_client s))" "cl_sent (cs_client s) ! i = g"
    using g(1) by (auto simp: in_set_conv_nth)
  have "\<not> control_frame cd g" using control_decode [OF rt _ g(2,3)] g(4) by auto
  moreover have "case own ! i of None \<Rightarrow> control_frame cd g
      | Some k \<Rightarrow> \<exists>rq. cs_requests s k = Some rq \<and> rq_frame rq = g \<and> \<not> unsent (rq_pc rq)"
    using own i unfolding sent_by_def list_all2_conv_all_nth by auto
  ultimately obtain n rq where "cs_requests s n = Some rq" "rq_frame rq = g"
    by (auto split: option.splits)
  then show ?thesis using that req by blast
qed

lemma answer_decode:
  assumes rt: "round_trips (enc_envelope cd) (dec_envelope cd)" and "answer_frame cd ts svc e out = Inr f"
    and "length f < 2 ^ 32" and "mf_decode_frame cd f = Inr p"
  shows "fp_envelope p = answer_envelope ts svc e out \<and> answer_body cd out = Inr (fp_body_bytes p)"
proof -
  obtain b where "answer_body cd out = Inr b" "mf_encode_frame cd (answer_envelope ts svc e out) b = Inr f"
    using assms(2) by (auto simp: answer_frame_def and_then_eq_Inr)
  then show ?thesis using client_frames.decode_own [OF rt _ assms(3,4)] by fastforce
qed

section \<open>Genuine replies\<close>

lemma genuine_reply:
  assumes rt: "round_trips (enc_envelope cd) (dec_envelope cd)" "round_trips (enc_call cd) (dec_call cd)"
      "round_trips (enc_response cd) (dec_response cd)" "error_round_trips cd"
    and inv: "net_inv cd tr ids worker st0 svc c d s"
    and ne: "c \<noteq> d" "svc \<noteq> ROUTER_PEER_ID" and ids: "inj ids" and short: "short_frames (nt_world s)"
    and sole: "sole svc d (au_live (nt_audit s))"
      "sole (ct_peer_id tr) c (au_live (nt_audit s))"
    and rq: "cs_requests (nt_client s) n = Some rq" "rq_pc rq = Returned (Inr p)" "env_from (fp_envelope p) = svc"
  shows "\<exists>ts fn args i. call_request cd (ids n) ts tr svc fn args = Inr (ids n, rq_frame rq) \<and>
    i < length (nt_served s) \<and> mf_decode_frame cd (rq_frame rq) = Inr (nt_served s ! i) \<and>
    call_result cd from_value p =
      (case fst (worker fn args (worker_after cd worker st0 (take i (nt_served s)))) of
         Inr v \<Rightarrow> map_err JsonError (from_value v) | Inl err \<Rightarrow> Inl (RemoteCallError (error_text err)))"
proof -
  have cinv: "client_inv cd ids (nt_client s)" and cok: "caller_ok cd tr ids (nt_client s)"
    and a: "audit_inv cd (nt_audit s)" using inv net_inv_audit(1) [OF inv] by (simp_all add: net_inv_def)
  have "reply_for cd (cs_items (nt_client s)) (ids n) p"
    using client_invD(4) [OF cinv rq(1)] rq(2) by (simp add: pc_ok_def)
  then obtain f where id: "env_msg_id (fp_envelope p) = ids n" and p: "mf_decode_frame cd f = Inr p"
    and "f \<in> set (binaries (cs_items (nt_client s)))"
    by (auto simp: reply_for_def received_def)
  then have f: "f \<in> set (frames_for c (nt_world s))" using inv by (auto simp: net_inv_def)
  obtain i where i: "answer_to cd worker st0 svc (nt_served s) i f"
    using reply_from_service(1) [OF rt(1) inv ne short sole(1) f p rq(3)] by blast
  obtain k where k: "(env_to (fp_envelope p), k, c) \<in> au_live (nt_audit s)"
    using reply_from_service(2) [OF rt(1) inv ne short sole(1) f p rq(3)] by blast
  define q st out where "q = nt_served s ! i" and "st = worker_after cd worker st0 (take i (nt_served s))"
    and "out = fst (call_outcome cd worker q st)"
  obtain ts where len: "i < length (nt_served s)" and ans: "answer_frame cd ts svc (fp_envelope q) out = Inr f"
    using i by (auto simp: answer_to_def q_def out_def st_def)
  have env: "fp_envelope p = answer_envelope ts svc (fp_envelope q) out" "answer_body cd out = Inr (fp_body_bytes p)"
    using answer_decode [OF rt(1) ans frames_for_short [OF short f] p] by simp_all
  have "q \<in> set (nt_served s)" using len by (simp add: q_def)
  then obtain g0 where "g0 \<in> set (frames_for d (nt_world s))" "call_for cd svc (ItemOk (Binary g0)) = Some q"
    by (rule served_frame [OF inv])
  then obtain g where g: "g \<in> set (frames_for d (nt_world s))" "mf_decode_frame cd g = Inr q"
      "env_to (fp_envelope q) = svc" "env_kind (fp_envelope q) = ''call''"
    by (auto simp: call_for_Some)
  have glen: "length g < 2 ^ 32" using frames_for_short [OF short g(1)] .
  obtain x where x: "(x, d, g) \<in> set (au_log (nt_audit s))" using frame_origin [OF a g(1)] by blast
  have "sole (env_from (fp_envelope q)) c (au_live (nt_audit s))"
    using sole(2) caller_identity [OF rt(1) inv k] env(1) by (simp add: answer_envelope_def)
  then have "x = c" using call_from_caller [OF rt(1) a ne(1) glen g(2,4) _ x] by blast
  then have "g \<in> set (binaries (au_items (nt_audit s) c))" using relayed_taken [OF a x] ne(1) by blast
  then have "g \<in> set (cl_sent (cs_client (nt_client s)))"
    using inv unfolding net_inv_def by (meson set_mono_prefix subsetD)
  then obtain n' rq' where r: "cs_requests (nt_client s) n' = Some rq'" "rq_frame rq' = g" "request_for cd tr (ids n') g"
    using caller_frame_request [OF rt(1) cok _ glen g(2,4)] by blast
  obtain ts' target fn args b where call: "call_request cd (ids n') ts' tr target fn args = Inr (ids n', g)"
      "enc_call cd \<lparr>call_function = fn, call_args = args, call_namespace = None\<rparr> = Inr b"
      "q = \<lparr>fp_envelope = build_call_envelope (ids n') ts' (ct_peer_id tr) target, fp_body_bytes = b\<rparr>"
    by (rule request_decode [OF rt(1) r(3) glen g(2,4)])
  have "ids n' = ids n" using id env(1) call(3) by (simp add: answer_envelope_def build_call_envelope_def)
  then have n: "n' = n" "rq' = rq" using ids r(1) rq(1) by (auto dest: injD)
  have target: "target = svc" using g(3) call(3) by (simp add: build_call_envelope_def)
  have "dec_call cd b = Inr \<lparr>call_function = fn, call_args = args, call_namespace = None\<rparr>"
    using rt(2) call(2) by (rule round_tripsD)
  then have out: "out = Answer (fst (worker fn args st))"
    using call(3) by (simp add: out_def call_outcome_def split: prod.splits)
  have "call_result cd from_value p = (case fst (worker fn args st) of
      Inr v \<Rightarrow> map_err JsonError (from_value v) | Inl err \<Rightarrow> Inl (RemoteCallError (error_text err)))"
    by (rule reply_result [OF rt(3,4)])
      (use env out in \<open>auto simp: answer_envelope_def split: sum.splits\<close>)
  then show ?thesis
    using call(1) target n r(2) len g(2) unfolding st_def q_def by blast
qed

section \<open>At most once\<close>

lemma subseq_filter_length: "subseq xs ys \<Longrightarrow> length (filter P xs) \<le> length (filter P ys)"
  by (rule list_emb_length [OF subseq_filter])

lemma filter_length_mono: "(\<And>x. x \<in> set xs \<Longrightarrow> P x \<Longrightarrow> Q x) \<Longrightarrow> length (filter P xs) \<le> length (filter Q xs)"
  by (induction xs) auto

lemma filter_map_filter:
  "length (filter P (List.map_filter g xs)) = length (filter (\<lambda>x. \<exists>y. g x = Some y \<and> P y) xs)"
  by (induction xs) (auto simp: List.map_filter_simps split: option.splits)

lemma relayed_count:
  "length (filter (\<lambda>(x, k, f). x = c \<and> k \<noteq> c \<and> Q f) l) =
   length (filter (\<lambda>i. \<exists>f. i = ItemOk (Binary f) \<and> Q f) (relayed c l))"
  by (induction l) (auto simp: relayed_def split: if_splits)

lemma binaries_count: "length (filter (\<lambda>i. \<exists>f. i = ItemOk (Binary f) \<and> Q f) items) = length (filter Q (binaries items))"
  by (induction items) (auto simp: binaries_def List.map_filter_simps split: ws_item.splits Message.splits)

lemma frames_for_count:
  assumes "map snd l = w_sent w"
  shows "length (filter Q (frames_for k w)) = length (filter (\<lambda>(x, k', f). k' = k \<and> Q f) l)"
proof -
  have "length (filter Q (map snd (filter (\<lambda>e. fst e = k) (map snd l)))) = length (filter (\<lambda>(x, k', f). k' = k \<and> Q f) l)"
    by (induction l) auto
  then show ?thesis using assms by (simp add: frames_for_def)
qed

lemma distinct_once: "distinct xs \<Longrightarrow> length (filter (\<lambda>x. x = a) xs) \<le> 1"
  by (induction xs) (auto simp: filter_empty_conv)

lemma once_in_distinct:
  assumes "list_all2 R own fs" and "\<And>n f. R n f \<Longrightarrow> Q f \<Longrightarrow> n = Some k" and "distinct (filter (\<lambda>n. n \<noteq> None) own)"
  shows "length (filter Q fs) \<le> 1"
proof -
  have "length (filter Q fs) \<le> length (filter (\<lambda>n. n = Some k) own)"
    using assms(1,2) by (induction rule: list_all2_induct) auto
  also have "\<dots> = length (filter (\<lambda>n. n = Some k) (filter (\<lambda>n. n \<noteq> None) own))"
    by (simp add: conj_commute) (metis (mono_tags, lifting) filter_cong option.distinct(1))
  also have "\<dots> \<le> 1" by (rule distinct_once [OF assms(3)])
  finally show ?thesis .
qed


lemma served_once:
  assumes rt: "round_trips (enc_envelope cd) (dec_envelope cd)"
    and inv: "net_inv cd tr ids worker st0 svc c d s"
    and ne: "c \<noteq> d" and ids: "inj ids" and short: "short_frames (nt_world s)"
    and sole: "sole pid c (au_live (nt_audit s))"
  shows "length (filter (\<lambda>q. env_from (fp_envelope q) = pid \<and> env_msg_id (fp_envelope q) = ids n) (nt_served s)) \<le> 1"
proof -
  define P where "P = (\<lambda>q :: FrameParts. env_from (fp_envelope q) = pid \<and> env_msg_id (fp_envelope q) = ids n)"
  define Q where "Q = (\<lambda>f. length f < 2 ^ 32 \<and> (\<exists>q. call_for cd svc (ItemOk (Binary f)) = Some q \<and> P q))"
  have a: "audit_inv cd (nt_audit s)" and cok: "caller_ok cd tr ids (nt_client s)"
    using inv net_inv_audit(1) [OF inv] by (simp_all add: net_inv_def)
  let ?fs = "frames_for d (nt_world s)" and ?log = "au_log (nt_audit s)"
  let ?call = "\<lambda>f. call_for cd svc (ItemOk (Binary f))"
  have "length (filter P (nt_served s)) \<le> length (filter P (List.map_filter ?call (take (nt_sdown s) ?fs)))"
    using inv by (intro subseq_filter_length) (simp add: net_inv_def)
  also have "\<dots> = length (filter (\<lambda>f. \<exists>q. ?call f = Some q \<and> P q) (take (nt_sdown s) ?fs))"
    by (rule filter_map_filter)
  also have "\<dots> \<le> length (filter (\<lambda>f. \<exists>q. ?call f = Some q \<and> P q) ?fs)"
    by (intro subseq_filter_length prefix_imp_subseq take_is_prefix)
  also have "\<dots> \<le> length (filter Q ?fs)"
    using frames_for_short [OF short] by (intro filter_length_mono) (auto simp: Q_def)
  also have "\<dots> = length (filter (\<lambda>(x, k, f). k = d \<and> Q f) ?log)"
    using a by (intro frames_for_count) (simp add: audit_inv_def)
  also have "\<dots> \<le> length (filter (\<lambda>(x, k, f). x = c \<and> k \<noteq> c \<and> Q f) ?log)"
    using ne call_from_caller [OF rt a ne] sole
    by (intro filter_length_mono) (auto simp: Q_def P_def call_for_Some)
  also have "\<dots> = length (filter (\<lambda>i. \<exists>f. i = ItemOk (Binary f) \<and> Q f) (relayed c ?log))"
    by (rule relayed_count)
  also have "\<dots> \<le> length (filter (\<lambda>i. \<exists>f. i = ItemOk (Binary f) \<and> Q f) (au_items (nt_audit s) c))"
    by (intro subseq_filter_length audit_inv_subseq [OF a])
  also have "\<dots> = length (filter Q (binaries (au_items (nt_audit s) c)))"
    by (rule binaries_count)
  also have "\<dots> \<le> length (filter Q (cl_sent (cs_client (nt_client s))))"
    using inv by (intro subseq_filter_length prefix_imp_subseq) (simp add: net_inv_def)
  also have "\<dots> \<le> 1"
  proof -
    obtain own where own: "sent_by cd (cs_requests (nt_client s)) own (cl_sent (cs_client (nt_client s)))"
      and req: "\<And>n rq. cs_requests (nt_client s) n = Some rq \<Longrightarrow> request_for cd tr (ids n) (rq_frame rq)"
      using cok by (auto simp: caller_ok_def)
    have "j = Some n" if j: "case j of None \<Rightarrow> control_frame cd f
        | Some k \<Rightarrow> \<exists>rq. cs_requests (nt_client s) k = Some rq \<and> rq_frame rq = f \<and> \<not> unsent (rq_pc rq)" and "Q f" for j f
    proof -
      obtain q where q: "length f < 2 ^ 32" "mf_decode_frame cd f = Inr q" "env_kind (fp_envelope q) = ''call''"
          "env_msg_id (fp_envelope q) = ids n"
        using \<open>Q f\<close> by (auto simp: Q_def P_def call_for_Some)
      have "\<not> control_frame cd f" using control_decode [OF rt _ q(1,2)] q(3) by auto
      then obtain k where k: "j = Some k" "request_for cd tr (ids k) f"
        using j req by (auto split: option.splits)
      have "env_msg_id (fp_envelope q) = ids k"
        by (rule request_decode [OF rt k(2) q(1-3)]) (simp add: build_call_envelope_def)
      then show ?thesis using ids q(4) k(1) by (auto dest: injD)
    qed
    then show ?thesis
      using own unfolding sent_by_def by (elim conjE) (erule once_in_distinct [where k = n], assumption+)
  qed
  finally show ?thesis by (simp add: P_def)
qed

end
