(* ===== verification/Network_Spec.thy ===== *)
theory Network_Spec
  imports Network
begin

text \<open>
  What a caller can rely on in the whole network: replies are genuine, and calls execute
  at most once. A complete run, from the registrations to the reply of a call, shows that
  the assumptions of these properties hold together.
\<close>

section \<open>Properties\<close>

text \<open>
  C2: replies are genuine, whatever else happens in the network. A caller and a service
  of the Rust library are connected to the concurrent router together with any number of
  arbitrary peers, which may send anything. If a request of the caller returned a frame
  that names the service as its sender, then the request was a call \<open>fn(args)\<close> of the
  service; the service handled exactly that frame, as the \<open>i\<close>-th of its calls; and the
  result the caller reads is what the worker returned for \<open>fn\<close> and \<open>args\<close> in the state
  the earlier calls left. Assumed: the service's identity and the caller's were registered
  on no other connection, message identifiers are unique, frames are below 4 GiB, and the
  serialiser round-trips.
\<close>

theorem replies_are_genuine:
  assumes "round_trips (enc_envelope cd) (dec_envelope cd)" and "round_trips (enc_call cd) (dec_call cd)"
    and "round_trips (enc_response cd) (dec_response cd)" and "error_round_trips cd"
    and "reachable (net_init cd tr svc st0) (net_step cd tr ids worker svc c d) s"
    and "c \<noteq> d" and "svc \<noteq> ROUTER_PEER_ID" and "inj ids" and "short_frames (nt_world s)"
    and "sole svc d (au_live (nt_audit s))"
    and "sole (ct_peer_id tr) c (au_live (nt_audit s))"
    and "cs_requests (nt_client s) n = Some rq" and "rq_pc rq = Returned (Inr p)"
    and "env_from (fp_envelope p) = svc"
  shows "\<exists>ts fn args i. call_request cd (ids n) ts tr svc fn args = Inr (ids n, rq_frame rq) \<and>
    i < length (nt_served s) \<and> mf_decode_frame cd (rq_frame rq) = Inr (nt_served s ! i) \<and>
    call_result cd from_value p =
      (case fst (worker fn args (worker_after cd worker st0 (take i (nt_served s)))) of
         Inr v \<Rightarrow> map_err JsonError (from_value v) | Inl err \<Rightarrow> Inl (RemoteCallError (error_text err)))"
  using genuine_reply [OF assms(1-4) net_reachable_inv [OF assms(5,6)] assms(6-14)] .


text \<open>
  C3: calls execute at most once. In the same network, the service handles at most one
  call with a given identifier of the caller: neither the router nor the endpoints repeat
  a frame, whatever fails and however the tasks are scheduled.
\<close>

theorem calls_execute_at_most_once:
  assumes "round_trips (enc_envelope cd) (dec_envelope cd)"
    and "reachable (net_init cd tr svc st0) (net_step cd tr ids worker svc c d) s"
    and "c \<noteq> d" and "inj ids" and "short_frames (nt_world s)" and "sole (ct_peer_id tr) c (au_live (nt_audit s))"
  shows "length (filter (\<lambda>q. env_from (fp_envelope q) = ct_peer_id tr \<and> env_msg_id (fp_envelope q) = ids n) (nt_served s)) \<le> 1"
  using served_once [OF assms(1) net_reachable_inv [OF assms(2,3)] assms(3-6)] .


section \<open>A complete run\<close>

text \<open>The router handles what a connection has received, with no other task in between.\<close>

lemma net_move:
  "router_move cd (nt_sys s) (Move k) t \<Longrightarrow>
   net_step cd tr ids worker svc c d s (s\<lparr>nt_audit := audit_note (nt_audit s) (Move k) t\<rparr>)"
  by (rule net_router) simp_all

lemma net_shake:
  "sys_conns (nt_sys s) k = Some (Shaking p) \<Longrightarrow>
   \<exists>a. (net_step cd tr ids worker svc c d)\<^sup>*\<^sup>* s (s\<lparr>nt_audit := a\<rparr>) \<and> au_items a = au_items (nt_audit s) \<and>
     au_sys a = set_task (nt_sys s) k
       (after_handshake (fst (fst (run p (nt_world s)))) (snd (fst (run p (nt_world s))))) (snd (run p (nt_world s)))"
proof (induction p arbitrary: s)
  case (Ret r)
  let ?t = "set_task (nt_sys s) k (after_handshake (fst r) (snd r)) (nt_world s)"
  have "router_move cd (nt_sys s) (Move k) ?t" using Ret mv_shaken [of "nt_sys s" k "fst r" "snd r"] by simp
  from net_move [OF this] show ?case
    using Ret by (intro exI [of _ "audit_note (nt_audit s) (Move k) ?t"]) auto
next
  case (Act g)
  let ?t = "set_task (nt_sys s) k (Shaking (fst (g (nt_world s)))) (snd (g (nt_world s)))"
  let ?s = "s\<lparr>nt_audit := audit_note (nt_audit s) (Move k) ?t\<rparr>"
  have "net_step cd tr ids worker svc c d s ?s" using mv_shake [OF Act.prems] by (rule net_move)
  moreover obtain a where "(net_step cd tr ids worker svc c d)\<^sup>*\<^sup>* ?s (?s\<lparr>nt_audit := a\<rparr>)"
      "au_items a = au_items (nt_audit ?s)" "au_sys a = set_task (nt_sys ?s) k
       (after_handshake (fst (fst (run (fst (g (nt_world s))) (nt_world ?s)))) (snd (fst (run (fst (g (nt_world s))) (nt_world ?s)))))
       (snd (run (fst (g (nt_world s))) (nt_world ?s)))"
    using Act.IH [of "g (nt_world s)" "fst (g (nt_world s))" ?s] by (auto simp: fsts.intros)
  ultimately show ?case by (intro exI [of _ a]) (auto intro: converse_rtranclp_into_rtranclp)
qed

lemma net_handle:
  "sys_conns (nt_sys s) k = Some (Handling pid cls item p) \<Longrightarrow>
   \<exists>a. (net_step cd tr ids worker svc c d)\<^sup>*\<^sup>* s (s\<lparr>nt_audit := a\<rparr>) \<and> au_items a = au_items (nt_audit s) \<and>
     au_sys a = set_task (nt_sys s) k (after_body pid cls (fst (run p (nt_world s)))) (snd (run p (nt_world s)))"
proof (induction p arbitrary: s)
  case (Ret r)
  let ?t = "set_task (nt_sys s) k (after_body pid cls r) (nt_world s)"
  have "router_move cd (nt_sys s) (Move k) ?t" using Ret by (intro mv_handled)
  from net_move [OF this] show ?case
    using Ret by (intro exI [of _ "audit_note (nt_audit s) (Move k) ?t"]) auto
next
  case (Act g)
  let ?t = "set_task (nt_sys s) k (Handling pid cls item (fst (g (nt_world s)))) (snd (g (nt_world s)))"
  let ?s = "s\<lparr>nt_audit := audit_note (nt_audit s) (Move k) ?t\<rparr>"
  have "net_step cd tr ids worker svc c d s ?s" using mv_handle [OF Act.prems] by (rule net_move)
  moreover obtain a where "(net_step cd tr ids worker svc c d)\<^sup>*\<^sup>* ?s (?s\<lparr>nt_audit := a\<rparr>)"
      "au_items a = au_items (nt_audit ?s)" "au_sys a = set_task (nt_sys ?s) k
       (after_body pid cls (fst (run (fst (g (nt_world s))) (nt_world ?s)))) (snd (run (fst (g (nt_world s))) (nt_world ?s)))"
    using Act.IH [of "g (nt_world s)" "fst (g (nt_world s))" ?s] by (auto simp: fsts.intros)
  ultimately show ?case by (intro exI [of _ a]) (auto intro: converse_rtranclp_into_rtranclp)
qed


lemma net_accept:
  assumes "sys_conns (nt_sys s) k = None"
  shows "\<exists>a. net_step cd tr ids worker svc c d s (s\<lparr>nt_audit := a\<rparr>) \<and> au_items a = au_items (nt_audit s) \<and>
    au_sys a = set_task (nt_sys s) k AwaitFirst (nt_world s)"
  using net_move [OF mv_accept [OF assms]]
  by (intro exI [of _ "audit_note (nt_audit s) (Move k) (set_task (nt_sys s) k AwaitFirst (nt_world s))"]) simp

lemma net_registers:
  assumes none: "sys_conns (nt_sys s) k = None" and item: "item = ItemOk (Binary f)"
    and hs: "run (handshake cd k item) (nt_world s) = ((rp, start), w)"
    and u: "u = nt_up s \<and> v = Suc (nt_sup s) \<and> k = d \<and> nt_sup s < length (sv_sent (nt_service s)) \<and>
        sv_sent (nt_service s) ! nt_sup s = f \<or>
      u = Suc (nt_up s) \<and> v = nt_sup s \<and> k = c \<and> nt_up s < length (cl_sent (cs_client (nt_client s))) \<and>
        cl_sent (cs_client (nt_client s)) ! nt_up s = f"
  shows "\<exists>a. (net_step cd tr ids worker svc c d)\<^sup>*\<^sup>* s (s\<lparr>nt_audit := a, nt_up := u, nt_sup := v\<rparr>) \<and>
    au_items a = (au_items (nt_audit s))(k := au_items (nt_audit s) k @ [item]) \<and>
    au_sys a = set_task (nt_sys s) k (after_handshake rp start) w"
proof -
  obtain a1 where a1: "net_step cd tr ids worker svc c d s (s\<lparr>nt_audit := a1\<rparr>)" "au_items a1 = au_items (nt_audit s)"
    "au_sys a1 = set_task (nt_sys s) k AwaitFirst (nt_world s)"
    using net_accept [OF none] by blast
  let ?t = "set_task (nt_sys s) k (Shaking (handshake cd k item)) (nt_world s)"
  let ?s = "s\<lparr>nt_audit := audit_note a1 (Take k item) ?t, nt_up := u, nt_sup := v\<rparr>"
  have mv: "router_move cd (au_sys a1) (Take k item) ?t"
    using mv_first [of "au_sys a1" k cd item] a1(3) by simp
  have "net_step cd tr ids worker svc c d (s\<lparr>nt_audit := a1\<rparr>) ?s"
    using u
  proof (elim disjE conjE)
    assume h: "u = nt_up s" "v = Suc (nt_sup s)" "k = d" "nt_sup s < length (sv_sent (nt_service s))"
      "sv_sent (nt_service s) ! nt_sup s = f"
    show ?thesis using net_sup [of "s\<lparr>nt_audit := a1\<rparr>" "Take k item" d cd ?t] mv h item by simp
  next
    assume h: "u = Suc (nt_up s)" "v = nt_sup s" "k = c" "nt_up s < length (cl_sent (cs_client (nt_client s)))"
      "cl_sent (cs_client (nt_client s)) ! nt_up s = f"
    show ?thesis using net_up [of "s\<lparr>nt_audit := a1\<rparr>" "Take k item" c cd ?t] mv h item by simp
  qed
  moreover obtain a where "(net_step cd tr ids worker svc c d)\<^sup>*\<^sup>* ?s (?s\<lparr>nt_audit := a\<rparr>)"
      "au_items a = au_items (nt_audit ?s)" "au_sys a = set_task (nt_sys ?s) k (after_handshake rp start) w"
    using net_shake [of ?s k "handshake cd k item" cd tr ids worker svc c d] hs by auto
  moreover have "?s\<lparr>nt_audit := a\<rparr> = s\<lparr>nt_audit := a, nt_up := u, nt_sup := v\<rparr>" by (cases s) simp
  ultimately show ?thesis
    using a1 by (intro exI [of _ a]) (auto intro: converse_rtranclp_into_rtranclp)
qed

lemma net_relays:
  assumes conn: "sys_conns (nt_sys s) k = Some (Looping pid cls)" and item: "item = ItemOk (Binary f)"
    and body: "run (loop_body cd k pid cls item) (nt_world s) = (Inr Continue, w)"
    and u: "u = nt_up s \<and> v = Suc (nt_sup s) \<and> k = d \<and> nt_sup s < length (sv_sent (nt_service s)) \<and>
        sv_sent (nt_service s) ! nt_sup s = f \<or>
      u = Suc (nt_up s) \<and> v = nt_sup s \<and> k = c \<and> nt_up s < length (cl_sent (cs_client (nt_client s))) \<and>
        cl_sent (cs_client (nt_client s)) ! nt_up s = f"
  shows "\<exists>a. (net_step cd tr ids worker svc c d)\<^sup>*\<^sup>* s (s\<lparr>nt_audit := a, nt_up := u, nt_sup := v\<rparr>) \<and>
    au_items a = (au_items (nt_audit s))(k := au_items (nt_audit s) k @ [item]) \<and>
    au_sys a = set_task (nt_sys s) k (Looping pid cls) w"
proof -
  let ?t = "set_task (nt_sys s) k (Handling pid cls item (loop_body cd k pid cls item)) (nt_world s)"
  let ?s = "s\<lparr>nt_audit := audit_note (nt_audit s) (Take k item) ?t, nt_up := u, nt_sup := v\<rparr>"
  have mv: "router_move cd (nt_sys s) (Take k item) ?t" using conn by (rule mv_next)
  have "net_step cd tr ids worker svc c d s ?s"
    using u
  proof (elim disjE conjE)
    assume h: "u = nt_up s" "v = Suc (nt_sup s)" "k = d" "nt_sup s < length (sv_sent (nt_service s))"
      "sv_sent (nt_service s) ! nt_sup s = f"
    show ?thesis using net_sup [of s "Take k item" d cd ?t] mv h item by simp
  next
    assume h: "u = Suc (nt_up s)" "v = nt_sup s" "k = c" "nt_up s < length (cl_sent (cs_client (nt_client s)))"
      "cl_sent (cs_client (nt_client s)) ! nt_up s = f"
    show ?thesis using net_up [of s "Take k item" c cd ?t] mv h item by simp
  qed
  moreover obtain a where "(net_step cd tr ids worker svc c d)\<^sup>*\<^sup>* ?s (?s\<lparr>nt_audit := a\<rparr>)"
      "au_items a = au_items (nt_audit ?s)" "au_sys a = set_task (nt_sys ?s) k (Looping pid cls) w"
    using net_handle [of ?s k pid cls item "loop_body cd k pid cls item" cd tr ids worker svc c d] body
    by (auto simp: after_body_def)
  moreover have "?s\<lparr>nt_audit := a\<rparr> = s\<lparr>nt_audit := a, nt_up := u, nt_sup := v\<rparr>" by (cases s) simp
  ultimately show ?thesis
    by (intro exI [of _ a]) (auto intro: converse_rtranclp_into_rtranclp)
qed

lemma net_client_run:
  "client_run cd tr ids as (nt_client s) = Some t \<Longrightarrow> nt_joined s \<Longrightarrow> list_all (own_action cd tr ids) as \<Longrightarrow>
   (net_step cd tr ids worker svc c d)\<^sup>*\<^sup>* s (s\<lparr>nt_client := t\<rparr>)"
proof (induction as arbitrary: s)
  case Nil
  moreover have "s\<lparr>nt_client := nt_client s\<rparr> = s" by simp
  ultimately show ?case by auto
next
  case (Cons a as)
  then obtain u where u: "client_exec cd tr ids a (nt_client s) = Some u" "client_run cd tr ids as u = Some t"
    by (auto split: option.splits)
  have "net_step cd tr ids worker svc c d s (s\<lparr>nt_client := u\<rparr>)"
    using net_client u(1) Cons.prems by fastforce
  then show ?case
    using Cons.IH [of "s\<lparr>nt_client := u\<rparr>"] u(2) Cons.prems by (auto intro: converse_rtranclp_into_rtranclp)
qed


text \<open>
  From a network in which both endpoints work and everything written has been read, a call
  can complete: the request returns the service's answer.
\<close>

definition ready :: "CallerTransport \<Rightarrow> string \<Rightarrow> sink \<Rightarrow> sink \<Rightarrow> nat \<Rightarrow> 'w Net \<Rightarrow> bool" where
  "ready tr svc c d n s \<longleftrightarrow> nt_joined s \<and> nt_phase s = Serving \<and> idle n (nt_client s) \<and>
     (\<forall>f. sv_send_err (nt_service s) f = None) \<and> sockets_ok (nt_world s) \<and>
     sys_conns (nt_sys s) c = Some (Looping (ct_peer_id tr) Caller) \<and> sys_conns (nt_sys s) d = Some (Looping svc Service) \<and>
     live (nt_world s) (ct_peer_id tr) = Some (Caller, c) \<and> live (nt_world s) svc = Some (Service, d) \<and>
     nt_up s = length (cl_sent (cs_client (nt_client s))) \<and> nt_sup s = length (sv_sent (nt_service s)) \<and>
     nt_down s = length (frames_for c (nt_world s)) \<and> nt_sdown s = length (frames_for d (nt_world s))"

lemma frames_for_log [simp]:
  "frames_for k (w\<lparr>w_sent := l @ [(k', f)]\<rparr>) = frames_for k (w\<lparr>w_sent := l\<rparr>) @ (if k' = k then [f] else [])"
  "frames_for k (w\<lparr>w_sent := w_sent w\<rparr>) = frames_for k w" "frames_for k (w\<lparr>w_peers := m\<rparr>) = frames_for k w"
  by (simp_all add: frames_for_def)

lemma service_answer_frame:
  assumes rt: "round_trips (enc_envelope cd) (dec_envelope cd)" "round_trips (enc_call cd) (dec_call cd)"
    and wf: "well_framed cd (build_call_envelope m ts (ct_peer_id tr) svc)"
    and f: "call_request cd m ts tr svc fn args = Inr (m', f)"
    and work: "worker fn args (sv_worker sw) = (res, st)"
    and g: "answer_frame cd (mf_now_ts (sv_clock sw)) svc (build_call_envelope m ts (ct_peer_id tr) svc) (Answer res) = Inr g"
    and ok: "\<And>f. sv_send_err sw f = None"
  shows "sv_sent (snd (run (service_item cd svc worker (ItemOk (Binary f))) sw)) = sv_sent sw @ [g]"
proof -
  let ?e = "build_call_envelope m ts (ct_peer_id tr) svc"
  obtain b where b: "enc_call cd \<lparr>call_function = fn, call_args = args, call_namespace = None\<rparr> = Inr b"
      "mf_encode_frame cd ?e b = Inr f"
    using call_request_frame [OF f] by blast
  let ?q = "\<lparr>fp_envelope = ?e, fp_body_bytes = b\<rparr>"
  have call: "call_for cd svc (ItemOk (Binary f)) = Some ?q"
    using client_frames.decode_encode [OF rt(1) wf b(2)] by (simp add: call_for_Some build_call_envelope_def mf_defs)
  have "dec_call cd b = Inr \<lparr>call_function = fn, call_args = args, call_namespace = None\<rparr>"
    using rt(2) b(1) by (rule round_tripsD)
  then have "call_outcome cd worker ?q (sv_worker sw) = (Answer res, st)" using work by (simp add: call_outcome_def)
  then show ?thesis
    unfolding service_item_call [OF call] using g ok by (simp add: run_handle_call_frame sv_transmit_def)
qed

text \<open>The first half of a call: the request is sent, relayed by the router, and handled by the service.\<close>

lemma net_request:
  assumes ne: "c \<noteq> d" and "nt_joined s" and "nt_phase s = Serving"
    and cs1: "client_run cd tr ids [Issue n f, Advance n, Advance n, Advance n] (nt_client s) = Some cs1"
      "cl_sent (cs_client cs1) = cl_sent (cs_client (nt_client s)) @ [f]" "request_for cd tr (ids n) f"
    and there: "sys_conns (nt_sys s) c = Some (Looping pid Caller)"
      "run (loop_body cd c pid Caller (ItemOk (Binary f))) (nt_world s) =
        (Inr Continue, (nt_world s)\<lparr>w_sent := w_sent (nt_world s) @ [(d, f)]\<rparr>)"
    and cursors: "nt_up s = length (cl_sent (cs_client (nt_client s)))" "nt_sdown s = length (frames_for d (nt_world s))"
    and served: "run (service_item cd svc worker (ItemOk (Binary f))) (nt_service s) = (ServiceContinue, sw)"
  shows "\<exists>t. (net_step cd tr ids worker svc c d)\<^sup>*\<^sup>* s t \<and> nt_client t = cs1 \<and> nt_service t = sw \<and> nt_joined t \<and>
    nt_up t = Suc (nt_up s) \<and> nt_sup t = nt_sup s \<and> nt_down t = nt_down s \<and>
    au_items (nt_audit t) = (au_items (nt_audit s))(c := au_items (nt_audit s) c @ [ItemOk (Binary f)]) \<and>
    nt_sys t = set_task (nt_sys s) c (Looping pid Caller) ((nt_world s)\<lparr>w_sent := w_sent (nt_world s) @ [(d, f)]\<rparr>)"
proof -
  let ?step = "net_step cd tr ids worker svc c d" and ?w = "nt_world s"
  let ?w1 = "?w\<lparr>w_sent := w_sent ?w @ [(d, f)]\<rparr>"
  define s1 where "s1 = s\<lparr>nt_client := cs1\<rparr>"
  have st1: "?step\<^sup>*\<^sup>* s s1"
    unfolding s1_def by (rule net_client_run [OF cs1(1) assms(2)]) (simp add: cs1(3))
  obtain a2 where a2s: "?step\<^sup>*\<^sup>* s1 (s1\<lparr>nt_audit := a2, nt_up := Suc (nt_up s), nt_sup := nt_sup s\<rparr>)"
    and a2: "au_items a2 = (au_items (nt_audit s))(c := au_items (nt_audit s) c @ [ItemOk (Binary f)])"
      "au_sys a2 = set_task (nt_sys s) c (Looping pid Caller) ?w1"
    using net_relays [OF _ refl, of s1 c pid Caller cd f ?w1 "Suc (nt_up s)" "nt_sup s" d c tr ids worker svc]
      there cs1(2) cursors(1) by (auto simp: s1_def)
  let ?s2 = "s1\<lparr>nt_audit := a2, nt_up := Suc (nt_up s), nt_sup := nt_sup s\<rparr>"
  have f2: "frames_for d (nt_world ?s2) = frames_for d ?w @ [f]"
    using a2(2) ne by simp
  define s3 where "s3 = (service_reads cd worker svc (ItemOk (Binary f)) ?s2)\<lparr>nt_sdown := Suc (nt_sdown s)\<rparr>"
  have "?step ?s2 s3"
    using net_serve [of ?s2 d cd tr ids worker svc c] f2 assms(3) cursors(2) unfolding s3_def by (simp add: s1_def)
  then have "?step\<^sup>*\<^sup>* s s3" using rtranclp_trans [OF st1 a2s] by simp
  then show ?thesis
    using served assms(2) a2 by (intro exI [of _ s3]) (simp add: s3_def service_reads_def s1_def)
qed

text \<open>The second half: the router relays the reply, and the caller's inbound task wakes the request.\<close>

lemma net_reply:
  assumes ne: "c \<noteq> d" and "nt_joined s"
    and sent: "sv_sent (nt_service s) = fs @ [g]" "nt_sup s = length fs"
    and relayed: "sys_conns (nt_sys s) d = Some (Looping svc Service)"
      "run (loop_body cd d svc Service (ItemOk (Binary g))) (nt_world s) = (Inr Continue, w)"
      "frames_for c w = hs @ [g]" "nt_down s = length hs"
    and cs2: "client_run cd tr ids (Receive (ItemOk (Binary g)) # as) (nt_client s) = Some cs2" "list_all (own_action cd tr ids) as"
  shows "\<exists>t. (net_step cd tr ids worker svc c d)\<^sup>*\<^sup>* s t \<and> nt_client t = cs2 \<and>
    au_items (nt_audit t) = (au_items (nt_audit s))(d := au_items (nt_audit s) d @ [ItemOk (Binary g)]) \<and>
    nt_sys t = set_task (nt_sys s) d (Looping svc Service) w"
proof -
  let ?step = "net_step cd tr ids worker svc c d"
  obtain a4 where a4s: "?step\<^sup>*\<^sup>* s (s\<lparr>nt_audit := a4, nt_up := nt_up s, nt_sup := Suc (nt_sup s)\<rparr>)"
    and a4: "au_items a4 = (au_items (nt_audit s))(d := au_items (nt_audit s) d @ [ItemOk (Binary g)])"
      "au_sys a4 = set_task (nt_sys s) d (Looping svc Service) w"
    using net_relays [OF _ refl, of s d svc Service cd g w "nt_up s" "Suc (nt_sup s)" d c tr ids worker svc]
      relayed(1,2) sent ne by auto
  let ?s4 = "s\<lparr>nt_audit := a4, nt_up := nt_up s, nt_sup := Suc (nt_sup s)\<rparr>"
  obtain cs3 where cs3: "client_exec cd tr ids (Receive (ItemOk (Binary g))) (nt_client s) = Some cs3"
      "client_run cd tr ids as cs3 = Some cs2"
    using cs2(1) by (auto simp del: client_exec.simps split: option.splits)
  let ?s5 = "?s4\<lparr>nt_client := cs3, nt_down := Suc (nt_down s)\<rparr>"
  have "?step ?s4 ?s5"
    using net_down [of ?s4 c cd tr ids cs3 worker svc d] a4(2) relayed(3,4) assms(2) cs3(1) by simp
  then have st5: "?step\<^sup>*\<^sup>* s ?s5" using a4s by simp
  have "?step\<^sup>*\<^sup>* ?s5 (?s5\<lparr>nt_client := cs2\<rparr>)"
    using net_client_run [of cd tr ids as ?s5 cs2 worker svc c d] cs3(2) assms(2) cs2(2) by simp
  with st5 have "?step\<^sup>*\<^sup>* s (?s5\<lparr>nt_client := cs2\<rparr>)" by (rule rtranclp_trans)
  then show ?thesis using a4 by (intro exI [of _ "?s5\<lparr>nt_client := cs2\<rparr>"]) simp
qed

lemma call_completes:
  assumes rt: "round_trips (enc_envelope cd) (dec_envelope cd)" "round_trips (enc_call cd) (dec_call cd)"
      "round_trips (enc_response cd) (dec_response cd)" "error_round_trips cd"
    and ready: "ready tr svc c d n s" and ne: "c \<noteq> d"
    and wf: "well_framed cd (build_call_envelope (ids n) ts (ct_peer_id tr) svc)"
      "well_framed cd (answer_envelope (mf_now_ts (sv_clock (nt_service s))) svc
        (build_call_envelope (ids n) ts (ct_peer_id tr) svc) (Answer res))"
    and f: "call_request cd (ids n) ts tr svc fn args = Inr (m, f)"
    and work: "worker fn args (sv_worker (nt_service s)) = (res, st)" and b: "answer_body cd (Answer res) = Inr b"
    and g: "answer_frame cd (mf_now_ts (sv_clock (nt_service s))) svc
      (build_call_envelope (ids n) ts (ct_peer_id tr) svc) (Answer res) = Inr g"
  shows "\<exists>t rq reply. (net_step cd tr ids worker svc c d)\<^sup>*\<^sup>* s t \<and>
    cs_requests (nt_client t) n = Some rq \<and> rq_pc rq = Returned (Inr reply) \<and> env_from (fp_envelope reply) = svc \<and>
    w_sent (nt_world t) = w_sent (nt_world s) @ [(d, f), (c, g)] \<and>
    au_items (nt_audit t) = (au_items (nt_audit s))(c := au_items (nt_audit s) c @ [ItemOk (Binary f)],
      d := au_items (nt_audit s) d @ [ItemOk (Binary g)])"
proof -
  let ?step = "net_step cd tr ids worker svc c d" and ?w = "nt_world s" and ?sw = "nt_service s"
  let ?w1 = "?w\<lparr>w_sent := w_sent ?w @ [(d, f)]\<rparr>"
  have r: "nt_joined s" "nt_phase s = Serving" "idle n (nt_client s)" "\<And>f. sv_send_err ?sw f = None"
      "\<And>k g. w_send_err ?w k g = None" "live ?w (ct_peer_id tr) = Some (Caller, c)" "live ?w svc = Some (Service, d)"
    and conns: "sys_conns (nt_sys s) c = Some (Looping (ct_peer_id tr) Caller)"
      "sys_conns (nt_sys s) d = Some (Looping svc Service)"
    and cursors: "nt_up s = length (cl_sent (cs_client (nt_client s)))" "nt_sup s = length (sv_sent ?sw)"
      "nt_down s = length (frames_for c ?w)" "nt_sdown s = length (frames_for d ?w)"
    using ready by (simp_all add: ready_def sockets_ok_def)
  have m: "m = ids n" using call_request_frame [OF f] by blast
  obtain g' reply where hops:
      "run (loop_body cd c (ct_peer_id tr) Caller (ItemOk (Binary f))) ?w = (Inr Continue, ?w1)"
      "run (service_item cd svc worker (ItemOk (Binary f))) ?sw =
        (ServiceContinue, ?sw\<lparr>sv_worker := st, sv_sent := sv_sent ?sw @ [g']\<rparr>)"
      "run (loop_body cd d svc Service (ItemOk (Binary g'))) ?w1 =
        (Inr Continue, ?w\<lparr>w_sent := w_sent ?w @ [(d, f), (c, g')]\<rparr>)"
    and inb: "inbound_item cd (ItemOk (Binary g')) = InLookup reply" "env_msg_id (fp_envelope reply) = ids n"
    using call_end_to_end [where from_value = Inr and worker = worker and sw = ?sw,
        OF rt wf(1) f r(6,7,5,4) work b wf(2)] m by blast
  obtain cs1 cs2 where
      cs1: "client_run cd tr ids [Issue n f, Advance n, Advance n, Advance n] (nt_client s) = Some cs1"
        "cl_sent (cs_client cs1) = cl_sent (cs_client (nt_client s)) @ [f]"
      and cs2: "client_run cd tr ids [Receive (ItemOk (Binary g')), InboundStep, InboundStep, Advance n] cs1 = Some cs2"
        "map_option rq_pc (cs_requests cs2 n) = Some (Returned (Inr reply))"
    using idle_request [OF r(3), of cd tr ids f] inb by metis
  have "request_for cd tr (ids n) f" using f m by (auto simp: request_for_def)
  then obtain s3 where s3: "?step\<^sup>*\<^sup>* s s3" "nt_client s3 = cs1" "nt_joined s3" "nt_sup s3 = nt_sup s" "nt_down s3 = nt_down s"
      "nt_service s3 = ?sw\<lparr>sv_worker := st, sv_sent := sv_sent ?sw @ [g']\<rparr>"
      "au_items (nt_audit s3) = (au_items (nt_audit s))(c := au_items (nt_audit s) c @ [ItemOk (Binary f)])"
      "nt_sys s3 = set_task (nt_sys s) c (Looping (ct_peer_id tr) Caller) ?w1"
    using net_request [OF ne r(1,2) cs1 _ conns(1) hops(1) cursors(1,4) hops(2)] by blast
  obtain t where t: "?step\<^sup>*\<^sup>* s3 t" "nt_client t = cs2"
      "au_items (nt_audit t) = (au_items (nt_audit s3))(d := au_items (nt_audit s3) d @ [ItemOk (Binary g')])"
      "nt_sys t = set_task (nt_sys s3) d (Looping svc Service) (?w\<lparr>w_sent := w_sent ?w @ [(d, f), (c, g')]\<rparr>)"
    using net_reply [of c d s3 "sv_sent ?sw" g' svc cd "?w\<lparr>w_sent := w_sent ?w @ [(d, f), (c, g')]\<rparr>" "frames_for c ?w" tr ids
        "[InboundStep, InboundStep, Advance n]" cs2 worker] ne s3 conns(2) hops(3) cursors(2,3) cs2(1)
    by (auto simp: frames_for_def simp del: client_run.simps)
  have g': "g' = g" using service_answer_frame [where worker = worker and sw = ?sw, OF rt(1,2) wf(1) f work g r(4)] hops(2) by simp
  have "mf_decode_frame cd g' = Inr reply" using inb(1) by (auto simp: inbound_item_def split: sum.splits)
  then have "env_from (fp_envelope reply) = svc"
    using answer_frame_decode [OF rt(1) wf(2) g] g' by (auto simp: answer_envelope_def)
  then show ?thesis
    using rtranclp_trans [OF s3(1) t(1)] g' cs2(2) t s3(7) ne by (intro exI [of _ t]) auto
qed


section \<open>The run of a concrete network\<close>

definition demo_net :: "bytes \<Rightarrow> bytes \<Rightarrow> nat Net" where
  "demo_net rc rs = \<lparr>nt_audit = \<lparr>au_sys = boot, au_items = (\<lambda>_. []), au_log = [], au_live = {}\<rparr>,
     nt_client = demo_start\<lparr>cs_client := (cs_client demo_start)\<lparr>cl_sent := [rc]\<rparr>\<rparr>, nt_joined = False,
     nt_up = 0, nt_down = 0, nt_service = demo_world\<lparr>sv_sent := [rs]\<rparr>, nt_phase = Joining,
     nt_sup = 0, nt_sdown = 0, nt_served = []\<rparr>"

lemma small_frame:
  assumes "length (env_kind e) + length (env_msg_id e) + length (env_from e) + length (env_to e) + length b < 1000"
  shows "\<exists>f. mf_encode_frame msgpack e b = Inr f \<and> length f < 2 ^ 32"
  using msgpack_small_frame [OF assms] by (auto simp: to_router.encode_agree)

lemma small_register:
  assumes "length pid < 100"
  shows "\<exists>f. register_frame msgpack ''r'' 0 pid cls = Inr f \<and> length f < 2 ^ 32 \<and>
    well_framed msgpack (build_register_envelope ''r'' 0 pid cls)"
proof -
  have "length (mp_register \<lparr>reg_peer_id = pid, reg_class = cls\<rparr>) < 200"
    using assms length_mp_str [of pid] by (cases cls) (simp_all add: mp_register_def mp_str_def class_str_def)
  then obtain f where "mf_encode_frame msgpack (build_register_envelope ''r'' 0 pid cls)
      (mp_register \<lparr>reg_peer_id = pid, reg_class = cls\<rparr>) = Inr f" "length f < 2 ^ 32"
    using small_frame [of "build_register_envelope ''r'' 0 pid cls" "mp_register \<lparr>reg_peer_id = pid, reg_class = cls\<rparr>"] assms
    by (auto simp: build_register_envelope_def mf_defs)
  moreover have "well_framed msgpack (build_register_envelope ''r'' 0 pid cls)"
    using assms by (intro msgpack_well_framed) (simp_all add: build_register_envelope_def mf_defs PROTOCOL_VERSION_def)
  ultimately show ?thesis
    using assms by (simp add: register_frame_def mf_encode_register_body_def msgpack_def mk_enc_def str_ok_def)
qed

lemma small_ack:
  assumes "length pid < 100"
  shows "\<exists>f. ack_frame msgpack KIND_RESPONSE ts ''r'' pid = Inr f \<and> length f < 2 ^ 32 \<and>
    well_framed msgpack (build_envelope KIND_RESPONSE ''r'' ROUTER_PEER_ID pid ts)"
proof -
  let ?e = "build_envelope KIND_RESPONSE ''r'' ROUTER_PEER_ID pid ts"
  have "length (mp_ack build_ack_body) < 100" by (simp add: mp_ack_def build_ack_body_def mp_str_def mp_bool_def mp_opt_def)
  then obtain f where "encode_frame msgpack ?e (mp_ack build_ack_body) = Inr f" "length f < 2 ^ 32"
    using msgpack_small_frame [of ?e "mp_ack build_ack_body"] assms by (auto simp: build_envelope_def kind_defs ROUTER_PEER_ID_def)
  moreover have "well_framed msgpack ?e"
    using assms by (intro msgpack_well_framed) (simp_all add: build_envelope_def kind_defs ROUTER_PEER_ID_def)
  ultimately show ?thesis
    by (simp add: ack_frame_def encode_register_ack_body_def msgpack_def mk_enc_def build_ack_body_def)
qed


abbreviation demo_step :: "nat Net \<Rightarrow> nat Net \<Rightarrow> bool" where
  "demo_step \<equiv> net_step msgpack (demo_transport None) show_nat demo_worker ''svc'' 2 1"

abbreviation demo_items :: "bytes \<Rightarrow> bytes \<Rightarrow> sink \<Rightarrow> ws_item list" where
  "demo_items rc rs \<equiv> (\<lambda>_. [])(2 := [ItemOk (Binary rc)], 1 := [ItemOk (Binary rs)])"

lemma demo_registrations:
  assumes rc: "register_frame msgpack ''r'' 0 ''cli'' Caller = Inr rc"
    and rs: "register_frame msgpack ''r'' 0 ''svc'' Service = Inr rs"
  shows "\<exists>s. demo_step\<^sup>*\<^sup>* (demo_net rc rs) s \<and> ready (demo_transport None) ''svc'' 2 1 0 s \<and>
    short_frames (nt_world s) \<and> nt_service s = demo_world\<lparr>sv_sent := [rs]\<rparr> \<and> au_items (nt_audit s) = demo_items rc rs"
proof -
  let ?s0 = "demo_net rc rs"
  have cli: "ct_peer_id (demo_transport None) = ''cli''" by (simp add: demo_transport_def)
  obtain a where a: "ack_frame msgpack KIND_RESPONSE 0 ''r'' ''cli'' = Inr a" "length a < 2 ^ 32"
      "well_framed msgpack (build_envelope KIND_RESPONSE ''r'' ROUTER_PEER_ID ''cli'' 0)"
    using small_ack [of "''cli''" 0] by auto
  obtain b where b: "ack_frame msgpack KIND_RESPONSE 0 ''r'' ''svc'' = Inr b" "length b < 2 ^ 32"
      "well_framed msgpack (build_envelope KIND_RESPONSE ''r'' ROUTER_PEER_ID ''svc'' 0)"
    using small_ack [of "''svc''" 0] by auto
  have wf: "well_framed msgpack (build_register_envelope ''r'' 0 ''cli'' Caller)"
      "well_framed msgpack (build_register_envelope ''r'' 0 ''svc'' Service)"
    using small_register [of "''cli''" Caller] small_register [of "''svc''" Service] by auto
  let ?w0 = "sys_world boot"
  let ?w1 = "?w0\<lparr>w_peers := (w_peers ?w0)(''cli'' \<mapsto> fresh_record (w_instant ?w0) ''cli'' Caller 2), w_sent := [(2, a)]\<rparr>"
  let ?w2 = "?w1\<lparr>w_peers := (w_peers ?w1)(''svc'' \<mapsto> fresh_record (w_instant ?w1) ''svc'' Service 1), w_sent := [(2, a), (1, b)]\<rparr>"
  have w0: "w_sent ?w0 = []" "w_peers ?w0 = Map.empty" "clock_ts ?w0 = 0" "w_send_err ?w0 = (\<lambda>_ _. None)" "sys_conns boot = Map.empty"
    by (simp_all add: boot_def new_registry_def clock_ts_def scene_def)
  have r1: "run (handshake msgpack 2 (ItemOk (Binary rc))) ?w0 = ((Some ''cli'', Inr (Some (''cli'', Caller))), ?w1)"
      "register_reply msgpack reason (ItemOk (Binary a)) = Inr ()" for reason
    using registration_round [OF msgpack_round_trips(1,2,3) wf(1) rc, of ?w0 a 2 reason] a w0 by auto
  have r2: "run (handshake msgpack 1 (ItemOk (Binary rs))) ?w1 = ((Some ''svc'', Inr (Some (''svc'', Service))), ?w2)"
      "register_reply msgpack reason (ItemOk (Binary b)) = Inr ()" for reason
    using registration_round [OF msgpack_round_trips(1,2,3) wf(2) rs, of ?w1 b 1 reason] b w0
    by (auto simp: clock_ts_def)
  obtain a1 where s1: "demo_step\<^sup>*\<^sup>* ?s0 (?s0\<lparr>nt_audit := a1, nt_up := 1, nt_sup := 0\<rparr>)"
    and a1: "au_items a1 = (\<lambda>_. [])(2 := [ItemOk (Binary rc)])" "au_sys a1 = set_task boot 2 (Looping ''cli'' Caller) ?w1"
    using net_registers [OF _ refl, of ?s0 2 msgpack rc "Some ''cli''" "Inr (Some (''cli'', Caller))" ?w1 1 0 1 2
        "demo_transport None" show_nat demo_worker "''svc''"] r1 w0
    by (auto simp: demo_net_def demo_start_def after_handshake_def)
  let ?s1 = "?s0\<lparr>nt_audit := a1, nt_up := 1, nt_sup := 0\<rparr>"
  obtain a2 where s2: "demo_step\<^sup>*\<^sup>* ?s1 (?s1\<lparr>nt_audit := a2, nt_up := 1, nt_sup := 1\<rparr>)"
    and a2: "au_items a2 = demo_items rc rs" "au_sys a2 = set_task (au_sys a1) 1 (Looping ''svc'' Service) ?w2"
    using net_registers [OF _ refl, of ?s1 1 msgpack rs "Some ''svc''" "Inr (Some (''svc'', Service))" ?w2 1 1 1 2
        "demo_transport None" show_nat demo_worker "''svc''"] r2 w0 a1
    by (auto simp: demo_net_def after_handshake_def)
  let ?s2 = "?s1\<lparr>nt_audit := a2, nt_up := 1, nt_sup := 1\<rparr>"
  have fr: "frames_for 2 (sys_world (au_sys a2)) = [a]" "frames_for 1 (sys_world (au_sys a2)) = [b]"
    using a2(2) by (simp_all add: frames_for_def)
  let ?s3 = "?s2\<lparr>nt_joined := True, nt_down := 1\<rparr>" and ?s4 = "?s2\<lparr>nt_joined := True, nt_down := 1, nt_phase := Serving, nt_sdown := 1\<rparr>"
  have s3: "demo_step ?s2 ?s3"
    by (rule net_join [of _ _ a "[]"]) (use fr r1(2) in \<open>simp_all add: demo_net_def\<close>)
  have s4: "demo_step ?s3 ?s4"
    using net_sjoin [of ?s3 1 b "[]" msgpack "demo_transport None" show_nat demo_worker "''svc''" 2] fr r2(2)
    by (simp add: demo_net_def)
  have "demo_step\<^sup>*\<^sup>* ?s0 ?s4" using s1 s2 s3 s4 by (meson rtranclp_trans rtranclp.rtrancl_into_rtrancl)
  moreover have "ready (demo_transport None) ''svc'' 2 1 0 ?s4"
    using a2 a1 fr w0 by (auto simp: ready_def cli demo_net_def demo_start_def demo_world_def idle_def sockets_ok_def
        live_def fresh_record_def)
  moreover have "short_frames (nt_world ?s4)" using a2 a(2) b(2) by (simp add: short_frames_def)
  ultimately show ?thesis
    using a2(1) by (intro exI [of _ ?s4]) (simp add: demo_net_def)
qed


lemma demo_exchange:
  "\<exists>f g. call_request msgpack (show_nat 0) 0 (demo_transport None) ''svc'' ''add'' [VPosInt 1, VPosInt 2] = Inr (show_nat 0, f) \<and>
     length f < 2 ^ 32 \<and> well_framed msgpack (build_call_envelope (show_nat 0) 0 ''cli'' ''svc'') \<and>
     answer_frame msgpack 0 ''svc'' (build_call_envelope (show_nat 0) 0 ''cli'' ''svc'') (Answer (Inr (VBool True))) = Inr g \<and>
     length g < 2 ^ 32 \<and>
     well_framed msgpack (answer_envelope 0 ''svc'' (build_call_envelope (show_nat 0) 0 ''cli'' ''svc'') (Answer (Inr (VBool True))))"
proof -
  let ?e = "build_call_envelope (show_nat 0) 0 ''cli'' ''svc''"
  let ?a = "answer_envelope 0 ''svc'' ?e (Answer (Inr (VBool True)))"
  have id: "length (show_nat 0) < 10" by (simp add: show_nat.simps)
  have "length (mp_call demo_call) < 200"
    by (simp add: mp_call_def demo_call_def mp_str_def mp_args_def mp_value_def mp_opt_def mp_u64_def)
  then obtain f where f: "mf_encode_frame msgpack ?e (mp_call demo_call) = Inr f" "length f < 2 ^ 32"
    using small_frame [of ?e "mp_call demo_call"] id by (auto simp: build_call_envelope_def mf_defs)
  have "length (mp_response \<lparr>resp_result = VBool True\<rparr>) < 100" by (simp add: mp_response_def mp_value_def mp_str_def mp_bool_def)
  then obtain g where g: "mf_encode_frame msgpack ?a (mp_response \<lparr>resp_result = VBool True\<rparr>) = Inr g" "length g < 2 ^ 32"
    using small_frame [of ?a "mp_response \<lparr>resp_result = VBool True\<rparr>"] id
    by (auto simp: answer_envelope_def build_call_envelope_def)
  have "encode_call_body msgpack demo_call = Inr (mp_call demo_call)"
    by (simp add: encode_call_body_def msgpack_def mk_enc_def demo_call_def call_ok_def args_ok_def str_ok_def)
  then have "call_request msgpack (show_nat 0) 0 (demo_transport None) ''svc'' ''add'' [VPosInt 1, VPosInt 2] = Inr (show_nat 0, f)"
    using f(1) unfolding demo_call_def by (simp add: call_request_def demo_transport_def Let_def) (simp add: build_call_envelope_def)
  moreover have "answer_frame msgpack 0 ''svc'' ?e (Answer (Inr (VBool True))) = Inr g"
    using g(1) by (simp add: answer_frame_def msgpack_def mk_enc_def)
  moreover have "well_framed msgpack ?e" "well_framed msgpack ?a"
    using id by (auto intro!: msgpack_well_framed simp: answer_envelope_def build_call_envelope_def mf_defs PROTOCOL_VERSION_def)
  ultimately show ?thesis using f(2) g(2) by blast
qed

lemma register_identity:
  assumes "register_frame msgpack ''r'' 0 pid cls = Inr f" and "length f < 2 ^ 32"
    and "registers_as msgpack (ItemOk (Binary f)) pid' cls'"
  shows "pid' = pid"
proof -
  obtain b where b: "mf_encode_frame msgpack (build_register_envelope ''r'' 0 pid cls) b = Inr f"
    using assms(1) by (auto simp: register_frame_def and_then_eq_Inr)
  obtain p where "mf_decode_frame msgpack f = Inr p" "env_from (fp_envelope p) = pid'"
    using assms(3) by (auto simp: registers_as_def to_router.decode_agree)
  then show ?thesis
    using client_frames.decode_own [OF msgpack_round_trips(1) b assms(2)] by (simp add: build_register_envelope_def)
qed

lemma demo_run:
  obtains s rq reply where "reachable (net_init msgpack (demo_transport None) ''svc'' 0) demo_step s"
    and "short_frames (nt_world s)" and "sole ''svc'' 1 (au_live (nt_audit s))" and "sole ''cli'' 2 (au_live (nt_audit s))"
    and "cs_requests (nt_client s) 0 = Some rq" and "rq_pc rq = Returned (Inr reply)" and "env_from (fp_envelope reply) = ''svc''"
proof -
  let ?init = "net_init msgpack (demo_transport None) ''svc'' 0"
  obtain rc rs where rc: "register_frame msgpack ''r'' 0 ''cli'' Caller = Inr rc" "length rc < 2 ^ 32"
    and rs: "register_frame msgpack ''r'' 0 ''svc'' Service = Inr rs" "length rs < 2 ^ 32"
    using small_register [of "''cli''" Caller] small_register [of "''svc''" Service] by auto
  obtain s where s: "demo_step\<^sup>*\<^sup>* (demo_net rc rs) s" "ready (demo_transport None) ''svc'' 2 1 0 s"
      "short_frames (nt_world s)" "nt_service s = demo_world\<lparr>sv_sent := [rs]\<rparr>" "au_items (nt_audit s) = demo_items rc rs"
    using demo_registrations [OF rc(1) rs(1)] by blast
  obtain f g where fg: "call_request msgpack (show_nat 0) 0 (demo_transport None) ''svc'' ''add'' [VPosInt 1, VPosInt 2] = Inr (show_nat 0, f)"
      "length f < 2 ^ 32" "well_framed msgpack (build_call_envelope (show_nat 0) 0 ''cli'' ''svc'')"
      "answer_frame msgpack 0 ''svc'' (build_call_envelope (show_nat 0) 0 ''cli'' ''svc'') (Answer (Inr (VBool True))) = Inr g"
      "length g < 2 ^ 32"
      "well_framed msgpack (answer_envelope 0 ''svc'' (build_call_envelope (show_nat 0) 0 ''cli'' ''svc'') (Answer (Inr (VBool True))))"
    using demo_exchange by blast
  have dm: "ct_peer_id (demo_transport None) = ''cli''" "mf_now_ts (sv_clock (nt_service s)) = 0" "sv_worker (nt_service s) = 0"
    using s(4) by (simp_all add: demo_transport_def demo_world_def mf_now_ts_def)
  have body: "answer_body msgpack (Answer (Inr (VBool True))) = Inr (mp_response \<lparr>resp_result = VBool True\<rparr>)"
    by (simp add: msgpack_def mk_enc_def)
  obtain t rq reply where t: "demo_step\<^sup>*\<^sup>* s t" "cs_requests (nt_client t) 0 = Some rq" "rq_pc rq = Returned (Inr reply)"
      "env_from (fp_envelope reply) = ''svc''" "w_sent (nt_world t) = w_sent (nt_world s) @ [(1, f), (2, g)]"
      "au_items (nt_audit t) = (demo_items rc rs)(2 := [ItemOk (Binary rc), ItemOk (Binary f)],
        1 := [ItemOk (Binary rs), ItemOk (Binary g)])"
    using call_completes [OF msgpack_round_trips(1,7,8,9) s(2), where ids = show_nat and ts = 0 and worker = demo_worker
        and fn = "''add''" and args = "[VPosInt 1, VPosInt 2]" and res = "Inr (VBool True)" and st = 1 and f = f and g = g
        and b = "mp_response \<lparr>resp_result = VBool True\<rparr>" and m = "show_nat 0"] fg dm body s(5)
    by (auto simp: demo_worker_def)
  have "?init (demo_net rc rs)"
    using rc rs boot_reachable unfolding net_init_def
    by (auto simp: demo_net_def demo_start_def demo_world_def client_init_def audit_init_def router_init_def boot_def
        scene_def new_registry_def demo_transport_def)
  then have reach: "reachable ?init demo_step t"
    using s(1) t(1) by (meson reachable_init reachable_rtranclp rtranclp_trans)
  have first: "registered_first msgpack (nt_audit t)"
    using net_inv_audit(2) [OF net_reachable_inv [OF reach]] by simp
  have "x = 2 \<and> pid = ''cli'' \<or> x = 1 \<and> pid = ''svc''" if "(pid, k, x) \<in> au_live (nt_audit t)" for pid k x
    using registered_firstD(1) [OF first that] t(6) register_identity [OF rc] register_identity [OF rs]
    by (auto split: if_splits)
  then have "sole ''svc'' 1 (au_live (nt_audit t))" "sole ''cli'' 2 (au_live (nt_audit t))"
    unfolding sole_def by fastforce+
  moreover have "short_frames (nt_world t)" using s(3) t(5) fg(2,5) by (simp add: short_frames_def)
  ultimately show ?thesis using that reach t by blast
qed

theorem replies_are_genuine_witness:
  "\<exists>s rq reply ts fn args i. reachable (net_init msgpack (demo_transport None) ''svc'' 0) demo_step s \<and>
     cs_requests (nt_client s) 0 = Some rq \<and> rq_pc rq = Returned (Inr reply) \<and>
     call_request msgpack (show_nat 0) ts (demo_transport None) ''svc'' fn args = Inr (show_nat 0, rq_frame rq) \<and>
     i < length (nt_served s) \<and> mf_decode_frame msgpack (rq_frame rq) = Inr (nt_served s ! i) \<and>
     call_result msgpack Inr reply = Inr (VBool True)"
proof -
  obtain s rq reply where s: "reachable (net_init msgpack (demo_transport None) ''svc'' 0) demo_step s"
    "short_frames (nt_world s)" "sole ''svc'' 1 (au_live (nt_audit s))" "sole ''cli'' 2 (au_live (nt_audit s))"
    "cs_requests (nt_client s) 0 = Some rq" "rq_pc rq = Returned (Inr reply)" "env_from (fp_envelope reply) = ''svc''"
    by (rule demo_run)
  have "sole (ct_peer_id (demo_transport None)) 2 (au_live (nt_audit s))" using s(4) by (simp add: demo_transport_def)
  then obtain ts fn args i where
      "call_request msgpack (show_nat 0) ts (demo_transport None) ''svc'' fn args = Inr (show_nat 0, rq_frame rq)"
      "i < length (nt_served s)" "mf_decode_frame msgpack (rq_frame rq) = Inr (nt_served s ! i)"
      "call_result msgpack Inr reply = (case fst (demo_worker fn args (worker_after msgpack demo_worker 0 (take i (nt_served s)))) of
         Inr v \<Rightarrow> map_err JsonError (Inr v) | Inl err \<Rightarrow> Inl (RemoteCallError (error_text err)))"
    using replies_are_genuine [OF msgpack_round_trips(1,7,8,9) s(1) _ _ show_nat_inj s(2,3) _ s(5-7), of Inr]
    by (auto simp: ROUTER_PEER_ID_def)
  then show ?thesis
    using s by (intro exI [of _ s] exI [of _ rq] exI [of _ reply] exI [of _ ts] exI [of _ fn] exI [of _ args] exI [of _ i])
      (simp add: demo_worker_def map_err_def)
qed

theorem calls_execute_at_most_once_witness:
  "\<exists>s. reachable (net_init msgpack (demo_transport None) ''svc'' 0) demo_step s \<and> nt_served s \<noteq> [] \<and>
     length (filter (\<lambda>q. env_from (fp_envelope q) = ct_peer_id (demo_transport None) \<and>
       env_msg_id (fp_envelope q) = show_nat 0) (nt_served s)) \<le> 1"
proof -
  obtain s rq reply where s: "reachable (net_init msgpack (demo_transport None) ''svc'' 0) demo_step s"
    "short_frames (nt_world s)" "sole ''svc'' 1 (au_live (nt_audit s))" "sole ''cli'' 2 (au_live (nt_audit s))"
    "cs_requests (nt_client s) 0 = Some rq" "rq_pc rq = Returned (Inr reply)" "env_from (fp_envelope reply) = ''svc''"
    by (rule demo_run)
  have sole: "sole (ct_peer_id (demo_transport None)) 2 (au_live (nt_audit s))" using s(4) by (simp add: demo_transport_def)
  have "\<exists>i. i < length (nt_served s)"
    using genuine_reply [OF msgpack_round_trips(1,7,8,9) net_reachable_inv [OF s(1)] _ _ show_nat_inj s(2,3) sole s(5-7)]
    by (auto simp: ROUTER_PEER_ID_def)
  then show ?thesis
    using calls_execute_at_most_once [OF msgpack_round_trips(1) s(1) _ show_nat_inj s(2) sole, of 0] s(1) by auto
qed

end
