(* ===== verification/Test_Wire.thy ===== *)
theory Test_Wire
  imports Router_Server Client_Call
begin

text \<open>
  The unit tests of router/src/protocol.rs, router/src/server.rs, rust/src/error.rs,
  rust/src/message.rs, rust/src/parent.rs and rust/src/process.rs, run against the model.
  A test is a truth value: whether it returns without a failed assertion or a panic. What
  a test takes from its surroundings (the serialiser, fresh identifiers, clocks, the shell
  and the file system) is an argument, and the theorem says for which arguments it passes;
  tests of the client that the router has under the same name carry the prefix \<open>mf_\<close>.
\<close>

section \<open>Assertions\<close>

text \<open>\<open>unwrap\<close> and \<open>unwrap_err\<close> panic, so the test fails, on the other constructor.\<close>

definition unwrapped :: "'e + 'a \<Rightarrow> ('a \<Rightarrow> bool) \<Rightarrow> bool" where
  "unwrapped r k = (case r of Inr x \<Rightarrow> k x | Inl _ \<Rightarrow> False)"

definition unwrapped_err :: "'e + 'a \<Rightarrow> ('e \<Rightarrow> bool) \<Rightarrow> bool" where
  "unwrapped_err r k = (case r of Inl e \<Rightarrow> k e | Inr _ \<Rightarrow> False)"

definition is_ok :: "'e + 'a \<Rightarrow> bool" where
  "is_ok r = (case r of Inr _ \<Rightarrow> True | Inl _ \<Rightarrow> False)"

lemma unwrapped_simps [simp]:
  "unwrapped (Inr x) k = k x" "unwrapped (Inl e) k = False"
  "unwrapped_err (Inl e) j = j e" "unwrapped_err (Inr y) j = False"
  "is_ok (Inr z)" "\<not> is_ok (Inl d)"
  by (simp_all add: unwrapped_def unwrapped_err_def is_ok_def)

text \<open>Encoding and decoding again, the pattern of the round-trip tests.\<close>

definition encodes :: "('a \<Rightarrow> string + bytes) \<Rightarrow> 'a \<Rightarrow> bool" where
  "encodes enc x = is_ok (enc x)"

lemma round_trip_passes:
  assumes "round_trips enc dec" and "encodes enc x"
  shows "unwrapped (map_err f (enc x)) (\<lambda>bs. unwrapped (map_err g (dec bs)) (\<lambda>y. y = x))"
  using assms by (cases "enc x") (simp_all add: encodes_def round_tripsD)

section \<open>router/src/protocol.rs\<close>

text \<open>The literal \<open>1_700_000_000.5\<close>.\<close>

definition ts_literal :: f64 where
  "ts_literal = f64_round False (17000000005 / 10)"

definition frame_round_trip_preserves_body_bytes :: "codec \<Rightarrow> bool" where
  "frame_round_trip_preserves_body_bytes cd =
     (let envelope = \<lparr>env_v = PROTOCOL_VERSION, env_kind = KIND_CALL, env_msg_id = ''abc'',
            env_from = ''caller'', env_to = ''service'', env_ts = ts_literal\<rparr>;
          body_bytes = [0x82, 0xa3, 0x66, 0x6f, 0x6f, 0x01]
      in unwrapped (encode_frame cd envelope body_bytes) (\<lambda>encoded.
           unwrapped (decode_frame cd encoded) (\<lambda>decoded.
             fp_envelope decoded = envelope \<and> fp_body_bytes decoded = body_bytes)))"

definition register_body_round_trip :: "codec \<Rightarrow> bool" where
  "register_body_round_trip cd =
     (let body = \<lparr>reg_peer_id = ''peer'', reg_class = Service\<rparr>
      in unwrapped (encode_register_body cd body) (\<lambda>bs.
           unwrapped (decode_register_body cd bs) (\<lambda>decoded. decoded = body)))"

section \<open>router/src/server.rs\<close>

definition validate_register_envelope_accepts_matching_router_registration :: bool where
  "validate_register_envelope_accepts_matching_router_registration =
     is_ok (validate_register_envelope
       (build_envelope KIND_REGISTER ''msg-1'' ''peer-a'' ROUTER_PEER_ID (f64_of_uint 1))
       \<lparr>reg_peer_id = ''peer-a'', reg_class = Service\<rparr>)"

definition validate_register_envelope_rejects_wrong_target :: bool where
  "validate_register_envelope_rejects_wrong_target =
     unwrapped_err (validate_register_envelope
         (build_envelope KIND_REGISTER ''msg-1'' ''peer-a'' ''not-router'' (f64_of_uint 1))
         \<lparr>reg_peer_id = ''peer-a'', reg_class = Service\<rparr>)
       (\<lambda>err. case err of MalformedRegisterBody _ \<Rightarrow> True | _ \<Rightarrow> False)"

definition validate_register_envelope_rejects_peer_id_mismatch :: bool where
  "validate_register_envelope_rejects_peer_id_mismatch =
     unwrapped_err (validate_register_envelope
         (build_envelope KIND_REGISTER ''msg-1'' ''peer-a'' ROUTER_PEER_ID (f64_of_uint 1))
         \<lparr>reg_peer_id = ''peer-b'', reg_class = Service\<rparr>)
       (\<lambda>err. case err of MalformedRegisterBody _ \<Rightarrow> True | _ \<Rightarrow> False)"

text \<open>\<open>matches!\<close> against \<open>Reject { code, .. }\<close>.\<close>

definition rejects_with :: "string \<Rightarrow> RouteTargetDecision \<Rightarrow> bool" where
  "rejects_with code d = (case d of Reject c _ \<Rightarrow> c = code | Deliver \<Rightarrow> False)"

definition decide_route_target_enforces_class_rules :: bool where
  "decide_route_target_enforces_class_rules \<longleftrightarrow>
     decide_route_target KIND_CALL (Some Service) = Deliver \<and>
     rejects_with ''invalid_target_class'' (decide_route_target KIND_CALL (Some Caller)) \<and>
     decide_route_target KIND_RESPONSE (Some Caller) = Deliver \<and>
     rejects_with ''invalid_target_class'' (decide_route_target KIND_RESPONSE (Some Service)) \<and>
     rejects_with ''peer_not_found'' (decide_route_target KIND_ERROR None)"

definition build_envelope_sets_router_metadata :: bool where
  "build_envelope_sets_router_metadata \<longleftrightarrow>
     (let ts = f64_round False (425 / 10);
          envelope = build_envelope KIND_ERROR ''msg-9'' ''from-peer'' ''to-peer'' ts
      in env_v envelope = PROTOCOL_VERSION \<and> env_kind envelope = KIND_ERROR \<and>
         env_msg_id envelope = ''msg-9'' \<and> env_from envelope = ''from-peer'' \<and>
         env_to envelope = ''to-peer'' \<and> env_ts envelope = ts)"

section \<open>rust/src/error.rs\<close>

text \<open>\<open>text.contains(part)\<close> is \<open>sublist part text\<close>.\<close>

definition displays_router_unavailable :: bool where
  "displays_router_unavailable =
     sublist ''Router unavailable'' (error_text (RouterUnavailable ''ws://127.0.0.1:9981''))"

definition displays_register_rejected :: bool where
  "displays_register_rejected =
     sublist ''Register rejected'' (error_text (RegisterRejected ''duplicate peer_id''))"

definition displays_invalid_target_class :: bool where
  "displays_invalid_target_class =
     sublist ''Invalid target class'' (error_text (MfInvalidTargetClass ''caller''))"

section \<open>rust/src/message.rs\<close>

definition mf_frame_round_trip_preserves_body_bytes :: "codec \<Rightarrow> bool" where
  "mf_frame_round_trip_preserves_body_bytes cd =
     (let envelope = \<lparr>env_v = MF_PROTOCOL_VERSION, env_kind = MF_KIND_CALL, env_msg_id = ''abc'',
            env_from = ''caller'', env_to = ''service'', env_ts = ts_literal\<rparr>;
          body_bytes = [0x82, 0xa3, 0x66, 0x6f, 0x6f, 0x01]
      in unwrapped (mf_encode_frame cd envelope body_bytes) (\<lambda>encoded.
           unwrapped (mf_decode_frame cd encoded) (\<lambda>decoded.
             fp_envelope decoded = envelope \<and> fp_body_bytes decoded = body_bytes)))"

definition is_malformed_frame :: "MultifrostError \<Rightarrow> bool" where
  "is_malformed_frame err = (case err of MfMalformedFrame _ \<Rightarrow> True | _ \<Rightarrow> False)"

definition is_invalid_protocol_key :: "MultifrostError \<Rightarrow> bool" where
  "is_invalid_protocol_key err = (case err of MfInvalidProtocolKey _ \<Rightarrow> True | _ \<Rightarrow> False)"

definition frame_decode_rejects_short_input :: "codec \<Rightarrow> bool" where
  "frame_decode_rejects_short_input cd =
     unwrapped_err (mf_decode_frame cd [0x00, 0x00, 0x00]) is_malformed_frame"

definition frame_decode_rejects_truncated_envelope :: "codec \<Rightarrow> bool" where
  "frame_decode_rejects_truncated_envelope cd =
     unwrapped_err (mf_decode_frame cd [0x00, 0x00, 0x00, 0x10, 0x01]) is_malformed_frame"

definition envelope_decode_rejects_version_mismatch :: "codec \<Rightarrow> bool" where
  "envelope_decode_rejects_version_mismatch cd =
     (let envelope = \<lparr>env_v = MF_PROTOCOL_VERSION + 1, env_kind = MF_KIND_CALL, env_msg_id = ''abc'',
            env_from = ''caller'', env_to = ''service'', env_ts = ts_literal\<rparr>
      in unwrapped (mf_encode_envelope cd envelope) (\<lambda>bs.
           unwrapped_err (mf_decode_envelope cd bs) is_invalid_protocol_key))"

definition validate_protocol_key_accepts_and_rejects :: bool where
  "validate_protocol_key_accepts_and_rejects \<longleftrightarrow>
     is_ok (mf_validate_protocol_key MF_PROTOCOL_KEY) \<and>
     unwrapped_err (mf_validate_protocol_key ''not-the-key'') is_invalid_protocol_key"

definition binary_message_wraps_bytes :: bool where
  "binary_message_wraps_bytes = (case binary_message [1, 2, 3] of Binary _ \<Rightarrow> True | _ \<Rightarrow> False)"

definition register_ack_round_trip :: "codec \<Rightarrow> bool" where
  "register_ack_round_trip cd =
     (let body = \<lparr>ack_accepted = True, ack_reason = None\<rparr>
      in unwrapped (mf_encode_register_ack_body cd body) (\<lambda>bs.
           unwrapped (mf_decode_register_ack_body cd bs) (\<lambda>decoded. decoded = body)))"

definition query_response_round_trips :: "codec \<Rightarrow> bool" where
  "query_response_round_trips cd \<longleftrightarrow>
     (let ex = \<lparr>qe_peer_id = ''service'', qe_exists = True, qe_class = Some Service, qe_connected = True\<rparr>;
          get = \<lparr>qg_peer_id = ''service'', qg_exists = True, qg_class = Some Service, qg_connected = True\<rparr>
      in unwrapped (mf_encode_query_exists_response cd ex) (\<lambda>exists_bytes.
           unwrapped (mf_decode_query_exists_response cd exists_bytes) (\<lambda>decoded. decoded = ex)) \<and>
         unwrapped (mf_encode_query_get_response cd get) (\<lambda>get_bytes.
           unwrapped (mf_decode_query_get_response cd get_bytes) (\<lambda>decoded. decoded = get)))"

definition mf_register_body_round_trip :: "codec \<Rightarrow> bool" where
  "mf_register_body_round_trip cd =
     (let body = \<lparr>reg_peer_id = ''peer'', reg_class = Service\<rparr>
      in unwrapped (mf_encode_register_body cd body) (\<lambda>bs.
           unwrapped (mf_decode_register_body cd bs) (\<lambda>decoded. decoded = body)))"

definition query_body_round_trip :: "codec \<Rightarrow> bool" where
  "query_body_round_trip cd =
     (let body = PeerExists ''peer''
      in unwrapped (mf_encode_query_body cd body) (\<lambda>bs.
           unwrapped (mf_decode_query_body cd bs) (\<lambda>decoded. decoded = body)))"

text \<open>The three bodies of the last round-trip test.\<close>

definition test_call :: CallBody where
  "test_call = \<lparr>call_function = ''add'', call_args = [json_of_int 10, json_of_int 20],
     call_namespace = Some ''default''\<rparr>"

definition test_response :: ResponseBody where
  "test_response = \<lparr>resp_result = json_of_int 30\<rparr>"

definition test_error :: ErrorBody where
  "test_error = \<lparr>err_code = ''boom'', err_message = ''boom'', err_kind = ''application'',
     err_stack = Some ''stack'', err_details = Some (WInt 1)\<rparr>"

definition call_and_response_and_error_bodies_round_trip :: "codec \<Rightarrow> bool" where
  "call_and_response_and_error_bodies_round_trip cd \<longleftrightarrow>
     unwrapped (encode_call_body cd test_call) (\<lambda>call_bytes.
       unwrapped (decode_call_body cd call_bytes) (\<lambda>decoded. decoded = test_call)) \<and>
     unwrapped (encode_response_body cd test_response) (\<lambda>response_bytes.
       unwrapped (decode_response_body cd response_bytes) (\<lambda>decoded. decoded = test_response)) \<and>
     unwrapped (mf_encode_error_body cd test_error) (\<lambda>error_bytes.
       unwrapped (mf_decode_error_body cd error_bytes) (\<lambda>decoded. decoded = test_error))"

definition envelope_builders_use_expected_fields :: "(nat \<Rightarrow> string) \<Rightarrow> (nat \<Rightarrow> f64) \<Rightarrow> bool" where
  "envelope_builders_use_expected_fields fresh_id ts \<longleftrightarrow>
     (let register = build_register_envelope (fresh_id 0) (ts 0) ''caller-1'' Caller;
          query = build_query_envelope (fresh_id 1) (ts 1) ''caller-1'' ''router'';
          call = build_call_envelope (fresh_id 2) (ts 2) ''caller-1'' ''service-1'';
          response = build_response_envelope (ts 3) ''service-1'' ''caller-1'' ''msg-1'';
          error = build_error_envelope (ts 4) ''router'' ''caller-1'' ''msg-2'';
          disconnect = build_disconnect_envelope (ts 5) ''caller-1'' ''router'' ''msg-3''
      in env_v register = MF_PROTOCOL_VERSION \<and> env_kind register = MF_KIND_REGISTER \<and>
         env_from register = ''caller-1'' \<and> env_to register = MF_ROUTER_PEER_ID \<and>
         env_kind query = MF_KIND_QUERY \<and> env_to query = ''router'' \<and>
         env_kind call = MF_KIND_CALL \<and> env_to call = ''service-1'' \<and>
         env_kind response = MF_KIND_RESPONSE \<and> env_msg_id response = ''msg-1'' \<and>
         env_kind error = MF_KIND_ERROR \<and> env_to error = ''caller-1'' \<and>
         env_kind disconnect = MF_KIND_DISCONNECT \<and> env_msg_id disconnect = ''msg-3'')"

section \<open>rust/src/parent.rs and rust/src/process.rs\<close>

definition default_timeout_is_present :: bool where
  "default_timeout_is_present \<longleftrightarrow> sp_request_timeout default_spawn_options \<noteq> None"

definition builder_connect_uses_target_peer_id :: bool where
  "builder_connect_uses_target_peer_id \<longleftrightarrow>
     cb_target_peer_id (builder_connect ''math-service'') = ''math-service''"

definition connect_options_default_to_timeout :: bool where
  "connect_options_default_to_timeout \<longleftrightarrow>
     co_request_timeout default_connect_options \<noteq> None \<and> co_router_port default_connect_options = None"

definition process_default_timeout_is_present :: bool where
  "process_default_timeout_is_present \<longleftrightarrow> sp_request_timeout default_spawn_options \<noteq> None"

text \<open>
  The test of the environment of a spawned process: \<open>entrypoint\<close> and \<open>output\<close> are the paths
  in the temporary directory, \<open>launch\<close> starts the command, \<open>status\<close> is its exit status and
  \<open>contents\<close> the text of the output file after the command that was launched has run.
\<close>

definition spawn_with_options_exports_entrypoint_and_router_port ::
    "(string \<Rightarrow> string option) \<Rightarrow> (Command \<Rightarrow> string + u32) \<Rightarrow> (u32 \<Rightarrow> string + int) \<Rightarrow>
     (Command \<Rightarrow> string option) \<Rightarrow> string \<Rightarrow> string \<Rightarrow> bool" where
  "spawn_with_options_exports_entrypoint_and_router_port canonicalize launch status contents entrypoint output =
     (let script = ''printf '' @ [CHR 0x27] @ ''%s|%s'' @ [CHR 0x27] @ '' '' @
            [CHR 0x22] @ ''$MULTIFROST_ENTRYPOINT_PATH'' @ [CHR 0x22] @ '' '' @
            [CHR 0x22] @ ''$MULTIFROST_ROUTER_PORT'' @ [CHR 0x22] @ '' > '' @ [CHR 0x27] @ output @ [CHR 0x27];
          options = \<lparr>sp_caller_peer_id = None, sp_request_timeout = None, sp_router_port = Some 4242\<rparr>
      in unwrapped (spawn_with_options False canonicalize launch entrypoint script options) (\<lambda>service_process.
           unwrapped (wait_process status service_process) (\<lambda>code.
             code = 0 \<and>
             (case contents (spawn_command False canonicalize script entrypoint (Some 4242)) of
                None \<Rightarrow> False
              | Some text \<Rightarrow> (case canonicalize entrypoint of
                    None \<Rightarrow> False
                  | Some expected_entrypoint \<Rightarrow> text = expected_entrypoint @ ''|4242'')))))"

section \<open>The tests pass\<close>

lemmas test_defs = Let_def is_malformed_frame_def is_invalid_protocol_key_def rejects_with_def

theorem protocol_tests_pass:
  assumes "round_trips (enc_envelope cd) (dec_envelope cd)" and "round_trips (enc_register cd) (dec_register cd)"
    and "well_framed cd \<lparr>env_v = 5, env_kind = ''call'', env_msg_id = ''abc'', env_from = ''caller'',
           env_to = ''service'', env_ts = ts_literal\<rparr>"
    and "encodes (enc_register cd) \<lparr>reg_peer_id = ''peer'', reg_class = Service\<rparr>"
  shows "frame_round_trip_preserves_body_bytes cd" "register_body_round_trip cd"
    "mf_frame_round_trip_preserves_body_bytes cd" "mf_register_body_round_trip cd"
proof -
  let ?e = "\<lparr>env_v = 5, env_kind = ''call'', env_msg_id = ''abc'', env_from = ''caller'',
    env_to = ''service'', env_ts = ts_literal\<rparr>"
  let ?b = "[0x82, 0xa3, 0x66, 0x6f, 0x6f, 0x01] :: bytes"
  obtain f where f: "encode_frame cd ?e ?b = Inr f"
    using router_frames.encode_succeeds [OF assms(3)] by blast
  then have g: "mf_encode_frame cd ?e ?b = Inr f" by (simp only: to_router.encode_agree)
  show "frame_round_trip_preserves_body_bytes cd"
    using f router_frames.decode_encode [OF assms(1,3) f]
    by (simp add: frame_round_trip_preserves_body_bytes_def PROTOCOL_VERSION_def KIND_CALL_def Let_def)
  show "mf_frame_round_trip_preserves_body_bytes cd"
    using g client_frames.decode_encode [OF assms(1,3) g]
    by (simp add: mf_frame_round_trip_preserves_body_bytes_def mf_defs Let_def)
  show "register_body_round_trip cd" "mf_register_body_round_trip cd"
    by (simp_all add: register_body_round_trip_def mf_register_body_round_trip_def encode_register_body_def
        decode_register_body_def mf_encode_register_body_def mf_decode_register_body_def Let_def
        round_trip_passes [OF assms(2,4)])
qed

theorem server_tests_pass:
  "validate_register_envelope_accepts_matching_router_registration"
  "validate_register_envelope_rejects_wrong_target"
  "validate_register_envelope_rejects_peer_id_mismatch"
  "decide_route_target_enforces_class_rules"
  "build_envelope_sets_router_metadata"
  by (simp_all add: validate_register_envelope_accepts_matching_router_registration_def
      validate_register_envelope_rejects_wrong_target_def
      validate_register_envelope_rejects_peer_id_mismatch_def decide_route_target_enforces_class_rules_def
      build_envelope_sets_router_metadata_def validate_register_envelope_def build_envelope_def
      decide_route_target_def kind_defs ROUTER_PEER_ID_def test_defs)

theorem error_tests_pass:
  "displays_router_unavailable" "displays_register_rejected" "displays_invalid_target_class"
  by (simp_all add: displays_router_unavailable_def displays_register_rejected_def
      displays_invalid_target_class_def sublist_append_rightI prefix_imp_sublist)

theorem message_decode_tests_pass:
  "frame_decode_rejects_short_input cd" "frame_decode_rejects_truncated_envelope cd"
  "validate_protocol_key_accepts_and_rejects" "binary_message_wraps_bytes"
  "envelope_builders_use_expected_fields fresh_id ts"
  by (simp_all add: frame_decode_rejects_short_input_def frame_decode_rejects_truncated_envelope_def
      validate_protocol_key_accepts_and_rejects_def binary_message_wraps_bytes_def
      envelope_builders_use_expected_fields_def mf_decode_frame_def mf_validate_protocol_key_def
      binary_message_def from_be_bytes_def mf_defs test_defs build_register_envelope_def
      build_query_envelope_def build_call_envelope_def build_response_envelope_def
      build_error_envelope_def build_disconnect_envelope_def)

theorem envelope_version_test_passes:
  assumes "round_trips (enc_envelope cd) (dec_envelope cd)"
    and "encodes (enc_envelope cd) \<lparr>env_v = 6, env_kind = ''call'', env_msg_id = ''abc'', env_from = ''caller'',
           env_to = ''service'', env_ts = ts_literal\<rparr>"
  shows "envelope_decode_rejects_version_mismatch cd"
proof -
  let ?e = "\<lparr>env_v = 6, env_kind = ''call'', env_msg_id = ''abc'', env_from = ''caller'',
    env_to = ''service'', env_ts = ts_literal\<rparr>"
  from assms(2) obtain bs where bs: "enc_envelope cd ?e = Inr bs"
    by (cases "enc_envelope cd ?e") (simp_all add: encodes_def)
  then have "dec_envelope cd bs = Inr ?e" by (rule round_tripsD [OF assms(1)])
  with bs show ?thesis
    by (simp add: envelope_decode_rejects_version_mismatch_def mf_encode_envelope_def mf_decode_envelope_def
        mf_defs test_defs)
qed

theorem body_tests_pass:
  assumes "round_trips (enc_ack cd) (dec_ack cd)" and "encodes (enc_ack cd) \<lparr>ack_accepted = True, ack_reason = None\<rparr>"
    and "round_trips (enc_qexists cd) (dec_qexists cd)"
    and "encodes (enc_qexists cd) \<lparr>qe_peer_id = ''service'', qe_exists = True, qe_class = Some Service, qe_connected = True\<rparr>"
    and "round_trips (enc_qget cd) (dec_qget cd)"
    and "encodes (enc_qget cd) \<lparr>qg_peer_id = ''service'', qg_exists = True, qg_class = Some Service, qg_connected = True\<rparr>"
    and "round_trips (enc_query cd) (dec_query cd)" and "encodes (enc_query cd) (PeerExists ''peer'')"
  shows "register_ack_round_trip cd" "query_response_round_trips cd" "query_body_round_trip cd"
  by (simp_all add: register_ack_round_trip_def query_response_round_trips_def query_body_round_trip_def
      mf_encode_register_ack_body_def mf_decode_register_ack_body_def mf_encode_query_exists_response_def
      mf_decode_query_exists_response_def mf_encode_query_get_response_def mf_decode_query_get_response_def
      mf_encode_query_body_def mf_decode_query_body_def Let_def
      round_trip_passes [OF assms(1,2)] round_trip_passes [OF assms(3,4)] round_trip_passes [OF assms(5,6)]
      round_trip_passes [OF assms(7,8)])

theorem call_body_tests_pass:
  assumes "round_trips (enc_call cd) (dec_call cd)" and "encodes (enc_call cd) test_call"
    and "round_trips (enc_response cd) (dec_response cd)" and "encodes (enc_response cd) test_response"
    and "error_round_trips cd" and "encodes (enc_error cd) test_error"
  shows "call_and_response_and_error_bodies_round_trip cd"
  using assms(5,6)
  by (cases "enc_error cd test_error")
    (simp_all add: encodes_def error_round_tripsD test_error_def
      call_and_response_and_error_bodies_round_trip_def encode_call_body_def decode_call_body_def
      encode_response_body_def decode_response_body_def mf_encode_error_body_def mf_decode_error_body_def
      round_trip_passes [OF assms(1,2)] round_trip_passes [OF assms(3,4)])

text \<open>The reference codec satisfies the hypotheses for every body without error details.\<close>

theorem wire_tests_pass_msgpack:
  "frame_round_trip_preserves_body_bytes msgpack" "register_body_round_trip msgpack"
  "mf_frame_round_trip_preserves_body_bytes msgpack" "mf_register_body_round_trip msgpack"
  "envelope_decode_rejects_version_mismatch msgpack" "register_ack_round_trip msgpack"
  "query_response_round_trips msgpack" "query_body_round_trip msgpack"
proof -
  have e: "well_framed msgpack \<lparr>env_v = 5, env_kind = ''call'', env_msg_id = ''abc'', env_from = ''caller'',
           env_to = ''service'', env_ts = ts_literal\<rparr>"
    by (rule msgpack_well_framed) (simp_all add: PROTOCOL_VERSION_def)
  have r: "encodes (enc_register msgpack) \<lparr>reg_peer_id = ''peer'', reg_class = Service\<rparr>"
    by (simp add: encodes_def msgpack_def mk_enc_def str_ok_def)
  show "frame_round_trip_preserves_body_bytes msgpack" "register_body_round_trip msgpack"
    "mf_frame_round_trip_preserves_body_bytes msgpack" "mf_register_body_round_trip msgpack"
    by (rule protocol_tests_pass [OF _ _ e r]; simp)+
  show "envelope_decode_rejects_version_mismatch msgpack"
    by (rule envelope_version_test_passes, simp)
      (simp add: encodes_def msgpack_def mk_enc_def envelope_ok_def str_ok_def)
  have enc: "encodes (enc_ack msgpack) \<lparr>ack_accepted = True, ack_reason = None\<rparr>"
    "encodes (enc_qexists msgpack) \<lparr>qe_peer_id = ''service'', qe_exists = True, qe_class = Some Service, qe_connected = True\<rparr>"
    "encodes (enc_qget msgpack) \<lparr>qg_peer_id = ''service'', qg_exists = True, qg_class = Some Service, qg_connected = True\<rparr>"
    "encodes (enc_query msgpack) (PeerExists ''peer'')"
    by (simp_all add: encodes_def msgpack_def mk_enc_def query_ok_def str_ok_def)
  show "register_ack_round_trip msgpack" "query_response_round_trips msgpack" "query_body_round_trip msgpack"
    by (rule body_tests_pass [OF _ enc(1) _ enc(2) _ enc(3) _ enc(4)]; simp)+
qed

theorem options_tests_pass:
  "default_timeout_is_present" "builder_connect_uses_target_peer_id" "connect_options_default_to_timeout"
  "process_default_timeout_is_present"
  by (simp_all add: default_timeout_is_present_def builder_connect_uses_target_peer_id_def
      connect_options_default_to_timeout_def process_default_timeout_is_present_def default_spawn_options_def
      builder_connect_def default_connect_options_def)

text \<open>
  A shell that runs the script writes the two variables of its environment, separated by
  a bar: then the test passes on every temporary directory.
\<close>

lemma count_words_letter:
  assumes "\<not> white1 c" and "c \<noteq> CHR 0xC2" and "c \<noteq> CHR 0xE1" and "c \<noteq> CHR 0xE2" and "c \<noteq> CHR 0xE3"
  shows "count_words inside (c # s) = (if inside then 0 else 1) + count_words True s"
proof -
  have "white_prefix (c # s) = 0"
    using assms by (simp add: white2_def white3_def split: list.splits)
  then show ?thesis by (subst count_words.simps) simp
qed

lemma count_words_blank: "count_words inside (CHR '' '' # s) = count_words False s"
  by (subst count_words.simps) (simp add: white1_def)

lemma script_is_shell_command:
  "spawn_command False canonicalize (''printf '' @ [CHR 0x27] @ rest) entrypoint port =
     \<lparr>cmd_program = ''sh'', cmd_args = [''-c'', ''printf '' @ [CHR 0x27] @ rest],
      cmd_env = cmd_env (spawn_command False canonicalize (''printf '' @ [CHR 0x27] @ rest) entrypoint port)\<rparr>"
proof -
  have "count_words False (''printf '' @ [CHR 0x27] @ rest) > 1"
    by (simp add: count_words_letter count_words_blank white1_def)
  then show ?thesis by (simp add: spawn_command_def Let_def)
qed

theorem spawn_environment_test_passes:
  assumes launch: "\<And>cmd. launch cmd = Inr pid" and status: "status pid = Inr 0"
    and canon: "canonicalize entrypoint = Some path"
    and shell: "\<And>cmd. cmd_program cmd = ''sh'' \<Longrightarrow>
      contents cmd = Some (the (map_of (cmd_env cmd) ''MULTIFROST_ENTRYPOINT_PATH'') @ ''|'' @
        the (map_of (cmd_env cmd) ''MULTIFROST_ROUTER_PORT''))"
  shows "spawn_with_options_exports_entrypoint_and_router_port canonicalize launch status contents entrypoint output"
proof -
  define rest where "rest = ''%s|%s'' @ [CHR 0x27] @ '' '' @
    [CHR 0x22] @ ''$MULTIFROST_ENTRYPOINT_PATH'' @ [CHR 0x22] @ '' '' @
    [CHR 0x22] @ ''$MULTIFROST_ROUTER_PORT'' @ [CHR 0x22] @ '' > '' @ [CHR 0x27] @ output @ [CHR 0x27]"
  let ?cmd = "spawn_command False canonicalize (''printf '' @ [CHR 0x27] @ rest) entrypoint (Some 4242)"
  have "cmd_program ?cmd = ''sh''" by (subst script_is_shell_command) simp
  moreover have "cmd_env ?cmd = [(''MULTIFROST_ENTRYPOINT_PATH'', path), (''MULTIFROST_ROUTER_PORT'', ''4242'')]"
    using canon by (simp add: spawn_command_def Let_def show_nat.simps) code_simp
  ultimately have "contents ?cmd = Some (path @ ''|4242'')" by (simp add: shell)
  then show ?thesis
    unfolding spawn_with_options_exports_entrypoint_and_router_port_def Let_def rest_def [symmetric]
    using launch status canon by (simp add: spawn_with_options_def wait_process_def)
qed

end
