(* ===== verification/Test_Call.thy ===== *)
theory Test_Call
  imports Test_Wire
begin

text \<open>
  The unit tests of rust/src/call_macro.rs, run against the model. The record \<open>typed_json\<close>
  is \<open>serde_json::from_value\<close> at the three types that the tests ask for.
\<close>

record typed_json =
  tj_i64 :: "Value \<Rightarrow> string + 64 word"
  tj_string :: "Value \<Rightarrow> string + string"
  tj_bool :: "Value \<Rightarrow> string + bool"

text \<open>Documented behaviour: values of the type are read back, a string is not a number.\<close>

definition typed_json_ok :: "typed_json \<Rightarrow> bool" where
  "typed_json_ok tj \<longleftrightarrow> (\<forall>i. tj_i64 tj (json_of_int (sint i)) = Inr i) \<and> (\<forall>s. \<not> is_ok (tj_i64 tj (VString s))) \<and>
     (\<forall>s. tj_string tj (VString s) = Inr s) \<and> (\<forall>b. tj_bool tj (VBool b) = Inr b)"

definition test_args_extractor_get :: "typed_json \<Rightarrow> bool" where
  "test_args_extractor_get tj =
     (let args = new_extractor [json_of_int 10, json_of_int 20]
      in unwrapped (get_arg (tj_i64 tj) args 0) (\<lambda>a.
           unwrapped (get_arg (tj_i64 tj) args 1) (\<lambda>b. a = 10 \<and> b = 20)))"

definition test_args_extractor_take :: "typed_json \<Rightarrow> bool" where
  "test_args_extractor_take tj \<longleftrightarrow>
     (let args = new_extractor [json_of_int 10, json_of_int 20];
          args2 = new_extractor [json_of_int 30, json_of_int 40]
      in unwrapped (take_arg (tj_i64 tj) args 0) (\<lambda>a. a = 10) \<and>
         unwrapped (take_arg (tj_i64 tj) args2 1) (\<lambda>b. b = 40))"

definition test_args_extractor_missing :: "typed_json \<Rightarrow> bool" where
  "test_args_extractor_missing tj =
     (let args = new_extractor [json_of_int 10] in \<not> is_ok (get_arg (tj_i64 tj) args 1))"

definition test_args_extractor_remaining_and_len :: bool where
  "test_args_extractor_remaining_and_len \<longleftrightarrow>
     (let args = new_extractor [json_of_int 1, json_of_int 2, json_of_int 3]
      in args_len args = 3 \<and> \<not> args_is_empty args \<and>
         remaining_args args = [json_of_int 1, json_of_int 2, json_of_int 3])"

definition test_args_extractor_take_middle_value :: "typed_json \<Rightarrow> bool" where
  "test_args_extractor_take_middle_value tj =
     (let args = new_extractor [json_of_int 10, json_of_int 20, json_of_int 30]
      in unwrapped (take_arg (tj_i64 tj) args 1) (\<lambda>middle. middle = 20))"

definition test_to_json_arg_primitives :: bool where
  "test_to_json_arg_primitives \<longleftrightarrow>
     to_json_arg (ArgI64 5) = json_of_int 5 \<and> to_json_arg (ArgBool True) = VBool True \<and>
     to_json_arg (ArgString ''hello'') = VString ''hello'' \<and>
     (let pi = f64_round False (314 / 100) in to_json_arg (ArgF64 pi) = json_of_f64 pi)"

text \<open>\<open>to_value\<close> is \<open>serde_json::to_value\<close> on a vector or slice of \<open>i32\<close>.\<close>

definition test_to_json_arg_collections :: "(32 word list \<Rightarrow> string + Value) \<Rightarrow> bool" where
  "test_to_json_arg_collections to_value \<longleftrightarrow>
     (let values = [1, 2, 3]
      in to_json_arg (ArgSerialize (to_value values)) = VArray [json_of_int 1, json_of_int 2, json_of_int 3] \<and>
         to_json_arg (ArgSerialize (to_value values)) = VArray [json_of_int 1, json_of_int 2, json_of_int 3])"

definition test_call_args_tuples :: bool where
  "test_call_args_tuples \<longleftrightarrow>
     to_json_args Args0 = [] \<and>
     to_json_args (Args1 (ArgI64 1)) = [json_of_int 1] \<and>
     to_json_args (Args2 (ArgI64 1) (ArgI64 2)) = [json_of_int 1, json_of_int 2] \<and>
     to_json_args (Args3 (ArgI64 1) (ArgI64 2) (ArgI64 3)) = [json_of_int 1, json_of_int 2, json_of_int 3] \<and>
     to_json_args (Args4 (ArgI64 1) (ArgI64 2) (ArgI64 3) (ArgI64 4)) =
       [json_of_int 1, json_of_int 2, json_of_int 3, json_of_int 4] \<and>
     to_json_args (Args6 (ArgI64 1) (ArgI64 2) (ArgI64 3) (ArgI64 4) (ArgI64 5) (ArgI64 6)) =
       [json_of_int 1, json_of_int 2, json_of_int 3, json_of_int 4, json_of_int 5, json_of_int 6]"

definition test_extract_args_type_conversion :: "typed_json \<Rightarrow> bool" where
  "test_extract_args_type_conversion tj =
     (let args = new_extractor [json_of_int 42, VString ''hello'', VBool True]
      in unwrapped (get_arg (tj_i64 tj) args 0) (\<lambda>a.
           unwrapped (get_arg (tj_string tj) args 1) (\<lambda>b.
             unwrapped (get_arg (tj_bool tj) args 2) (\<lambda>c. a = 42 \<and> b = ''hello'' \<and> c = True))))"

definition test_extract_args_type_conversion_failure :: "typed_json \<Rightarrow> bool" where
  "test_extract_args_type_conversion_failure tj =
     (let args = new_extractor [VString ''not-a-number''] in \<not> is_ok (get_arg (tj_i64 tj) args 0))"

section \<open>The tests pass\<close>

lemmas extractor_defs = get_arg_def take_arg_def new_extractor_def remaining_args_def args_len_def args_is_empty_def

lemma is_ok_map_err [simp]: "is_ok (map_err f r) = is_ok r"
  by (cases r) simp_all

text \<open>Small numerals are read back as words of 64 bits.\<close>

lemma tj_i64_numerals:
  assumes "typed_json_ok tj"
  shows "tj_i64 tj (json_of_int 10) = Inr 10" "tj_i64 tj (json_of_int 20) = Inr 20"
    "tj_i64 tj (json_of_int 40) = Inr 40" "tj_i64 tj (json_of_int 42) = Inr 42"
proof -
  have *: "tj_i64 tj (json_of_int (sint i)) = Inr i" for i using assms by (simp add: typed_json_ok_def)
  show "tj_i64 tj (json_of_int 10) = Inr 10" "tj_i64 tj (json_of_int 20) = Inr 20"
    "tj_i64 tj (json_of_int 40) = Inr 40" "tj_i64 tj (json_of_int 42) = Inr 42"
    using * [of 10] * [of 20] * [of 40] * [of 42] by simp_all
qed

theorem extractor_tests_pass:
  assumes "typed_json_ok tj"
  shows "test_args_extractor_get tj" "test_args_extractor_take tj" "test_args_extractor_missing tj"
    "test_args_extractor_remaining_and_len" "test_args_extractor_take_middle_value tj"
    "test_extract_args_type_conversion tj" "test_extract_args_type_conversion_failure tj"
  using assms
  by (simp_all add: test_args_extractor_get_def test_args_extractor_take_def test_args_extractor_missing_def
      test_args_extractor_remaining_and_len_def test_args_extractor_take_middle_value_def
      test_extract_args_type_conversion_def test_extract_args_type_conversion_failure_def extractor_defs
      Let_def tj_i64_numerals) (simp_all add: typed_json_ok_def)

theorem json_arg_tests_pass:
  assumes "to_value [1, 2, 3] = Inr (VArray [json_of_int 1, json_of_int 2, json_of_int 3])"
  shows "test_to_json_arg_primitives" "test_to_json_arg_collections to_value" "test_call_args_tuples"
  using assms
  by (simp_all add: test_to_json_arg_primitives_def test_to_json_arg_collections_def test_call_args_tuples_def Let_def)

text \<open>\<open>serde_json\<close> as far as the tests use it, for which the hypothesis holds.\<close>

definition demo_typed_json :: typed_json where
  "demo_typed_json = \<lparr>
     tj_i64 = (\<lambda>v. case as_i64 demo_access v of Some i \<Rightarrow> Inr i | None \<Rightarrow> Inl ''expected i64''),
     tj_string = (\<lambda>v. case v of VString s \<Rightarrow> Inr s | _ \<Rightarrow> Inl ''expected a string''),
     tj_bool = (\<lambda>v. case v of VBool b \<Rightarrow> Inr b | _ \<Rightarrow> Inl ''expected a boolean'')\<rparr>"

lemma demo_typed_json_ok: "typed_json_ok demo_typed_json"
  by (simp add: typed_json_ok_def demo_typed_json_def demo_access_def json_of_int_def)

end
