(* ===== verification/Test_Bootstrap.thy ===== *)
theory Test_Bootstrap
  imports Test_Wire
begin

text \<open>
  The unit tests of rust/src/router_bootstrap.rs, run against the model. \<open>own\<close> is the
  identifier of the test process, \<open>alive\<close> says which processes run, \<open>add\<close> is addition of
  \<open>f64\<close> times, \<open>disk\<close> what reading the temporary file gives after a text was written to it,
  and \<open>now\<close> and \<open>later\<close> are the clock when the lock is written and when it is evaluated.
  Not here: the test of \<open>router_is_reachable\<close>, which is a parameter of the model, and the
  two tests of how \<open>serde\<close> treats absent fields.
\<close>

section \<open>Endpoints and ports\<close>

definition router_endpoint_formats_ws_url :: bool where
  "router_endpoint_formats_ws_url \<longleftrightarrow>
     ws_url \<lparr>ep_host = ''127.0.0.1'', ep_port = 9981\<rparr> = ''ws://127.0.0.1:9981''"

definition router_port_from_env_accepts_valid_override :: "boot_os \<Rightarrow> bool" where
  "router_port_from_env_accepts_valid_override os \<longleftrightarrow>
     router_port_from_env (os\<lparr>bo_router_port := Some ''12345''\<rparr>) = 12345"

definition router_port_from_env_falls_back_for_invalid_values :: "boot_os \<Rightarrow> bool" where
  "router_port_from_env_falls_back_for_invalid_values os \<longleftrightarrow>
     router_port_from_env (os\<lparr>bo_router_port := Some ''not-a-port''\<rparr>) = DEFAULT_ROUTER_PORT"

text \<open>\<open>up\<close>: whether the listener that never answers the handshake counts as a router.\<close>

definition ensure_router_reports_unreachable_server :: "bool \<Rightarrow> u16 \<Rightarrow> bool" where
  "ensure_router_reports_unreachable_server up port =
     unwrapped_err (ensure_router up \<lparr>ep_host = ''127.0.0.1'', ep_port = port\<rparr>)
       (\<lambda>err. case err of RouterUnavailable _ \<Rightarrow> True | _ \<Rightarrow> False)"

section \<open>Processes\<close>

definition is_process_alive_returns_true_for_current_pid :: "(u32 \<Rightarrow> bool) \<Rightarrow> u32 \<Rightarrow> bool" where
  "is_process_alive_returns_true_for_current_pid alive own = is_process_alive alive own"

definition is_process_alive_returns_false_for_zero :: "(u32 \<Rightarrow> bool) \<Rightarrow> bool" where
  "is_process_alive_returns_false_for_zero alive \<longleftrightarrow> \<not> is_process_alive alive 0"

definition is_process_alive_returns_false_for_bogus_pid :: "(u32 \<Rightarrow> bool) \<Rightarrow> bool" where
  "is_process_alive_returns_false_for_bogus_pid alive \<longleftrightarrow> \<not> is_process_alive alive 0xFFFFFFFF"

section \<open>Lock files\<close>

text \<open>The largest finite \<open>f64\<close>.\<close>

definition f64_max :: rat where "f64_max = (2 ^ 53 - 1) * 2 ^ 971"

definition evaluate_existing_lock_reclaims_on_missing_file ::
    "lock_json \<Rightarrow> (u32 \<Rightarrow> bool) \<Rightarrow> rat \<Rightarrow> bool" where
  "evaluate_existing_lock_reclaims_on_missing_file js alive later \<longleftrightarrow>
     evaluate_existing_lock js alive later None = Reclaim"

definition evaluate_existing_lock_reclaims_on_invalid_json ::
    "lock_json \<Rightarrow> (u32 \<Rightarrow> bool) \<Rightarrow> (string \<Rightarrow> string option) \<Rightarrow> rat \<Rightarrow> bool" where
  "evaluate_existing_lock_reclaims_on_invalid_json js alive disk later \<longleftrightarrow>
     evaluate_existing_lock js alive later (disk ''not json'') = Reclaim"

definition evaluate_existing_lock_reclaims_on_wrong_format ::
    "lock_json \<Rightarrow> (u32 \<Rightarrow> bool) \<Rightarrow> (string \<Rightarrow> string option) \<Rightarrow> u32 \<Rightarrow> rat \<Rightarrow> bool" where
  "evaluate_existing_lock_reclaims_on_wrong_format js alive disk own later \<longleftrightarrow>
     (let data = \<lparr>lk_format = ''v0'', lk_pid = own, lk_router_pid = None, lk_port = 9981, lk_created_at_unix = 0,
            lk_expires_at_unix = f64_max, lk_status = ''starting'', lk_language = ''rust''\<rparr>
      in evaluate_existing_lock js alive later (disk (lj_ser js data)) = Reclaim)"

definition evaluate_existing_lock_reclaims_on_expired ::
    "lock_json \<Rightarrow> (u32 \<Rightarrow> bool) \<Rightarrow> (string \<Rightarrow> string option) \<Rightarrow> u32 \<Rightarrow> rat \<Rightarrow> bool" where
  "evaluate_existing_lock_reclaims_on_expired js alive disk own later \<longleftrightarrow>
     (let data = \<lparr>lk_format = ''v1'', lk_pid = own, lk_router_pid = None, lk_port = 9981, lk_created_at_unix = 1000,
            lk_expires_at_unix = 1001, lk_status = ''starting'', lk_language = ''rust''\<rparr>
      in evaluate_existing_lock js alive later (disk (lj_ser js data)) = Reclaim)"

definition evaluate_existing_lock_reclaims_on_dead_pid ::
    "lock_json \<Rightarrow> (u32 \<Rightarrow> bool) \<Rightarrow> (string \<Rightarrow> string option) \<Rightarrow> (rat \<Rightarrow> rat \<Rightarrow> rat) \<Rightarrow> rat \<Rightarrow> rat \<Rightarrow> bool" where
  "evaluate_existing_lock_reclaims_on_dead_pid js alive disk add now later \<longleftrightarrow>
     (let data = \<lparr>lk_format = ''v1'', lk_pid = 0xFFFFFFFF, lk_router_pid = None, lk_port = 9981,
            lk_created_at_unix = now, lk_expires_at_unix = add now 3600, lk_status = ''starting'',
            lk_language = ''rust''\<rparr>
      in evaluate_existing_lock js alive later (disk (lj_ser js data)) = Reclaim)"

definition evaluate_existing_lock_reclaims_on_failed_status ::
    "lock_json \<Rightarrow> (u32 \<Rightarrow> bool) \<Rightarrow> (string \<Rightarrow> string option) \<Rightarrow> (rat \<Rightarrow> rat \<Rightarrow> rat) \<Rightarrow> u32 \<Rightarrow> rat \<Rightarrow> rat \<Rightarrow> bool" where
  "evaluate_existing_lock_reclaims_on_failed_status js alive disk add own now later \<longleftrightarrow>
     (let data = \<lparr>lk_format = ''v1'', lk_pid = own, lk_router_pid = None, lk_port = 9981,
            lk_created_at_unix = now, lk_expires_at_unix = add now 3600, lk_status = ''failed'',
            lk_language = ''rust''\<rparr>
      in evaluate_existing_lock js alive later (disk (lj_ser js data)) = Reclaim)"

definition evaluate_existing_lock_waits_on_valid_starting ::
    "lock_json \<Rightarrow> (u32 \<Rightarrow> bool) \<Rightarrow> (string \<Rightarrow> string option) \<Rightarrow> (rat \<Rightarrow> rat \<Rightarrow> rat) \<Rightarrow> u32 \<Rightarrow> rat \<Rightarrow> rat \<Rightarrow> bool" where
  "evaluate_existing_lock_waits_on_valid_starting js alive disk add own now later \<longleftrightarrow>
     (let data = \<lparr>lk_format = ''v1'', lk_pid = own, lk_router_pid = None, lk_port = 9981,
            lk_created_at_unix = now, lk_expires_at_unix = add now 3600, lk_status = ''starting'',
            lk_language = ''rust''\<rparr>
      in evaluate_existing_lock js alive later (disk (lj_ser js data)) = Wait)"

definition evaluate_existing_lock_skip_spawn_when_router_alive ::
    "lock_json \<Rightarrow> (u32 \<Rightarrow> bool) \<Rightarrow> (string \<Rightarrow> string option) \<Rightarrow> (rat \<Rightarrow> rat \<Rightarrow> rat) \<Rightarrow> u32 \<Rightarrow> rat \<Rightarrow> rat \<Rightarrow> bool" where
  "evaluate_existing_lock_skip_spawn_when_router_alive js alive disk add own now later \<longleftrightarrow>
     (let data = \<lparr>lk_format = ''v1'', lk_pid = own, lk_router_pid = Some own, lk_port = 9981,
            lk_created_at_unix = now, lk_expires_at_unix = add now 3600, lk_status = ''starting'',
            lk_language = ''rust''\<rparr>
      in evaluate_existing_lock js alive later (disk (lj_ser js data)) = SkipSpawn)"

definition serialized_lock_file_is_valid_json :: "lock_json \<Rightarrow> (rat \<Rightarrow> rat \<Rightarrow> rat) \<Rightarrow> rat \<Rightarrow> bool" where
  "serialized_lock_file_is_valid_json js add now \<longleftrightarrow>
     (let data = \<lparr>lk_format = ''v1'', lk_pid = 12345, lk_router_pid = None, lk_port = 9981,
            lk_created_at_unix = now, lk_expires_at_unix = add now 10, lk_status = ''starting'',
            lk_language = ''rust''\<rparr>
      in case lj_de js (lj_ser js data) of
           None \<Rightarrow> False
         | Some parsed \<Rightarrow> lk_format parsed = ''v1'' \<and> lk_pid parsed = 12345 \<and> lk_router_pid parsed = None \<and>
             lk_port parsed = 9981 \<and> lk_status parsed = ''starting'' \<and> lk_language parsed = ''rust'')"

definition lock_round_trip_through_acquired_lock_update ::
    "lock_json \<Rightarrow> (rat \<Rightarrow> rat \<Rightarrow> rat) \<Rightarrow> u32 \<Rightarrow> rat \<Rightarrow> boot_world \<Rightarrow> bool" where
  "lock_round_trip_through_acquired_lock_update js add own now w0 \<longleftrightarrow>
     (let data = \<lparr>lk_format = ''v1'', lk_pid = own, lk_router_pid = None, lk_port = 9981,
            lk_created_at_unix = now, lk_expires_at_unix = add now 10, lk_status = ''starting'',
            lk_language = ''rust''\<rparr>;
          w1 = write_path (lj_ser js data) (remove_path w0);
          w2 = update_lock js None (data\<lparr>lk_status := ''ready''\<rparr>) w1
      in case bw_file w2 of
           None \<Rightarrow> False
         | Some (_, content) \<Rightarrow> (case lj_de js content of
               None \<Rightarrow> False
             | Some parsed \<Rightarrow> lk_status parsed = ''ready''))"

section \<open>The tests pass\<close>

theorem endpoint_tests_pass:
  "router_endpoint_formats_ws_url" "router_port_from_env_falls_back_for_invalid_values os"
  "router_port_from_env_accepts_valid_override os" "ensure_router_reports_unreachable_server False port"
proof -
  have port: "show_nat 9981 = ''9981''" "show_nat 12345 = ''12345''"
    by (simp add: show_nat.simps; code_simp)+
  then show "router_endpoint_formats_ws_url"
    by (simp add: router_endpoint_formats_ws_url_def ws_url_def)
  show "router_port_from_env_falls_back_for_invalid_values os"
    by (simp add: router_port_from_env_falls_back_for_invalid_values_def router_port_from_env_def
        parse_unsigned_def is_digit_def)
  show "router_port_from_env_accepts_valid_override os"
    using env_port_round_trip [of "os\<lparr>bo_router_port := Some ''12345''\<rparr>" 12345] port
    by (simp add: router_port_from_env_accepts_valid_override_def)
  show "ensure_router_reports_unreachable_server False port"
    by (simp add: ensure_router_reports_unreachable_server_def ensure_router_def)
qed

theorem process_tests_pass:
  assumes "own \<noteq> 0" and "alive own" and "\<not> alive 0xFFFFFFFF"
  shows "is_process_alive_returns_true_for_current_pid alive own" "is_process_alive_returns_false_for_zero alive"
    "is_process_alive_returns_false_for_bogus_pid alive"
  using assms
  by (simp_all add: is_process_alive_returns_true_for_current_pid_def is_process_alive_returns_false_for_zero_def
      is_process_alive_returns_false_for_bogus_pid_def is_process_alive_def)

text \<open>
  The evaluation tests pass when the test process is alive and the process \<open>u32::MAX\<close> is
  not, the JSON library reads back what it wrote and refuses other text, the file holds
  what was written, and less than an hour passes between writing and reading.
\<close>

theorem lock_tests_pass:
  assumes json: "\<And>d. lock_round_trip js d" and bad: "lj_de js ''not json'' = None" and disk: "\<And>t. disk t = Some t"
    and own: "own \<noteq> 0" "alive own" and dead: "\<not> alive 0xFFFFFFFF"
    and clock: "1001 < later" "later \<le> add now 3600"
  shows "evaluate_existing_lock_reclaims_on_missing_file js alive later"
    "evaluate_existing_lock_reclaims_on_invalid_json js alive disk later"
    "evaluate_existing_lock_reclaims_on_wrong_format js alive disk own later"
    "evaluate_existing_lock_reclaims_on_expired js alive disk own later"
    "evaluate_existing_lock_reclaims_on_dead_pid js alive disk add now later"
    "evaluate_existing_lock_reclaims_on_failed_status js alive disk add own now later"
    "evaluate_existing_lock_waits_on_valid_starting js alive disk add own now later"
    "evaluate_existing_lock_skip_spawn_when_router_alive js alive disk add own now later"
    "serialized_lock_file_is_valid_json js add now"
    "lock_round_trip_through_acquired_lock_update js add own now w0"
  using assms
  by (simp_all add: evaluate_existing_lock_reclaims_on_missing_file_def
      evaluate_existing_lock_reclaims_on_invalid_json_def evaluate_existing_lock_reclaims_on_wrong_format_def
      evaluate_existing_lock_reclaims_on_expired_def evaluate_existing_lock_reclaims_on_dead_pid_def
      evaluate_existing_lock_reclaims_on_failed_status_def evaluate_existing_lock_waits_on_valid_starting_def
      evaluate_existing_lock_skip_spawn_when_router_alive_def serialized_lock_file_is_valid_json_def
      lock_round_trip_through_acquired_lock_update_def evaluate_existing_lock_def is_process_alive_def
      lock_round_trip_def update_lock_def write_path_def remove_path_def Let_def)

end
