(* ===== verification/Test_Metrics.thy ===== *)
theory Test_Metrics
  imports Client_Latency
begin

text \<open>
  The unit tests of rust/src/metrics.rs, run against the model. \<open>clock\<close> is the system time
  at a snapshot, and \<open>elapsed\<close> what \<open>Instant::elapsed\<close> measures between the start and the
  end of a request: the tests that sleep pass for every time that a sleep may take.
\<close>

section \<open>The tests\<close>

text \<open>A snapshot that panics fails the test.\<close>

definition snap :: "f64 option \<Rightarrow> MetricsInner \<Rightarrow> (MetricsSnapshot \<Rightarrow> bool) \<Rightarrow> bool" where
  "snap clock m k = (case snapshot clock m of None \<Rightarrow> False | Some s \<Rightarrow> k s)"

definition test_metrics_creation :: "f64 option \<Rightarrow> bool" where
  "test_metrics_creation clock =
     snap clock new_metrics (\<lambda>s. ms_requests_total s = 0 \<and> ms_requests_success s = 0 \<and>
       ms_requests_failed s = 0 \<and> ms_latency_avg_ms s = 0 \<and> ms_queue_depth s = 0)"

definition test_metrics_creation_with_options :: "f64 option \<Rightarrow> bool" where
  "test_metrics_creation_with_options clock =
     snap clock (with_options 100 (f64_of_uint 30)) (\<lambda>s.
       ms_window_seconds s = f64_of_uint 30 \<and> ms_requests_total s = 0)"

definition test_record_request_success :: "Duration \<Rightarrow> f64 option \<Rightarrow> bool" where
  "test_record_request_success elapsed clock =
     (case end_request elapsed True (start_request new_metrics) of (latency, m) \<Rightarrow>
       snap clock m (\<lambda>s. ms_requests_total s = 1 \<and> ms_requests_success s = 1 \<and> ms_requests_failed s = 0 \<and>
         f64_le (f64_of_uint 10) latency \<and> f64_less 0 (ms_latency_avg_ms s)))"

definition test_record_request_failure :: "Duration \<Rightarrow> f64 option \<Rightarrow> bool" where
  "test_record_request_failure elapsed clock =
     (case end_request elapsed False (start_request new_metrics) of (latency, m) \<Rightarrow>
       snap clock m (\<lambda>s. ms_requests_total s = 1 \<and> ms_requests_success s = 0 \<and> ms_requests_failed s = 1 \<and>
         f64_le 0 latency))"

text \<open>\<open>elapsed i\<close> is the time measured for the \<open>i\<close>-th request, which sleeps \<open>i\<close> milliseconds.\<close>

definition run_requests :: "(nat \<Rightarrow> Duration) \<Rightarrow> nat list \<Rightarrow> MetricsInner \<Rightarrow> MetricsInner" where
  "run_requests elapsed = fold (\<lambda>i m. snd (end_request (elapsed i) True (start_request m)))"

definition test_latency_percentiles :: "(nat \<Rightarrow> Duration) \<Rightarrow> f64 option \<Rightarrow> bool" where
  "test_latency_percentiles elapsed clock =
     snap clock (run_requests elapsed [0..<100] new_metrics) (\<lambda>s.
       ms_requests_total s = 100 \<and> f64_less 0 (ms_latency_p50_ms s) \<and>
       f64_less (ms_latency_p50_ms s) (ms_latency_p95_ms s) \<and>
       f64_le (ms_latency_p95_ms s) (ms_latency_p99_ms s) \<and>
       f64_le (ms_latency_min_ms s) (ms_latency_p50_ms s) \<and>
       f64_le (ms_latency_p99_ms s) (ms_latency_max_ms s))"

definition test_circuit_breaker_tracking :: "(nat \<Rightarrow> f64 option) \<Rightarrow> bool" where
  "test_circuit_breaker_tracking clock \<longleftrightarrow>
     (let m1 = record_circuit_breaker_trip new_metrics;
          m2 = record_circuit_breaker_reset m1;
          m3 = record_circuit_breaker_half_open m2
      in snap (clock 1) m1 (\<lambda>s. ms_circuit_breaker_trips s = 1 \<and> ms_circuit_breaker_state s = ''open'') \<and>
         snap (clock 2) m2 (\<lambda>s. ms_circuit_breaker_state s = ''closed'') \<and>
         snap (clock 3) m3 (\<lambda>s. ms_circuit_breaker_state s = ''half-open''))"

definition test_queue_depth_tracking :: "Duration \<Rightarrow> (nat \<Rightarrow> f64 option) \<Rightarrow> bool" where
  "test_queue_depth_tracking elapsed clock \<longleftrightarrow>
     (let m1 = start_request (start_request (start_request new_metrics));
          m2 = snd (end_request elapsed True m1)
      in snap (clock 1) m1 (\<lambda>s. ms_queue_depth s = 3 \<and> ms_queue_max_depth s = 3) \<and>
         snap (clock 2) m2 (\<lambda>s. ms_queue_depth s = 2 \<and> ms_queue_max_depth s = 3))"

text \<open>\<open>(x - y).abs()\<close>.\<close>

definition f64_abs_diff :: "f64 \<Rightarrow> f64 \<Rightarrow> f64" where
  "f64_abs_diff x y = f64_make False (f64_mag (f64_add x (f64_make (\<not> f64_neg y) (f64_mag y))))"

definition test_heartbeat_rtt_tracking :: "f64 option \<Rightarrow> bool" where
  "test_heartbeat_rtt_tracking clock =
     (let m = record_heartbeat_rtt (f64_round False (128 / 10)) (record_heartbeat_rtt (f64_round False (152 / 10))
            (record_heartbeat_rtt (f64_round False (105 / 10)) new_metrics))
      in snap clock m (\<lambda>s. ms_heartbeat_rtt_last_ms s = f64_round False (128 / 10) \<and>
           f64_less (f64_abs_diff (ms_heartbeat_rtt_avg_ms s) (f64_round False (1283 / 100))) (f64_round False (1 / 10))))"

definition test_heartbeat_miss_tracking :: "f64 option \<Rightarrow> bool" where
  "test_heartbeat_miss_tracking clock =
     snap clock (record_heartbeat_miss (record_heartbeat_miss (record_heartbeat_miss new_metrics)))
       (\<lambda>s. ms_heartbeat_misses s = 3)"

definition test_metrics_snapshot :: "Duration \<Rightarrow> f64 option \<Rightarrow> bool" where
  "test_metrics_snapshot elapsed clock =
     snap clock (snd (end_request elapsed True (start_request new_metrics))) (\<lambda>s.
       f64_less 0 (ms_timestamp s) \<and> ms_requests_total s = 1 \<and> ms_requests_success s = 1 \<and> ms_requests_failed s = 0)"

definition test_metrics_reset :: "Duration \<Rightarrow> f64 option \<Rightarrow> bool" where
  "test_metrics_reset elapsed clock =
     (let m1 = snd (end_request elapsed True (start_request new_metrics));
          m2 = record_heartbeat_miss (record_heartbeat_rtt (f64_of_uint 10) (record_circuit_breaker_trip m1))
      in snap clock (reset_metrics m2) (\<lambda>s.
           ms_requests_total s = 0 \<and> ms_requests_success s = 0 \<and> ms_requests_failed s = 0 \<and>
           ms_circuit_breaker_trips s = 0 \<and> ms_circuit_breaker_state s = ''closed'' \<and> ms_queue_depth s = 0 \<and>
           ms_queue_max_depth s = 0 \<and> ms_heartbeat_misses s = 0 \<and> ms_latency_avg_ms s = 0 \<and>
           ms_heartbeat_rtt_avg_ms s = 0))"

text \<open>\<open>Metrics::default()\<close> is \<open>Metrics::new()\<close>.\<close>

definition test_metrics_default :: "f64 option \<Rightarrow> bool" where
  "test_metrics_default clock = snap clock new_metrics (\<lambda>s. ms_requests_total s = 0)"

text \<open>A clone shares the collector behind the lock.\<close>

definition test_metrics_clone :: "Duration \<Rightarrow> (nat \<Rightarrow> f64 option) \<Rightarrow> bool" where
  "test_metrics_clone elapsed clock =
     (let m = snd (end_request elapsed True (start_request new_metrics))
      in snap (clock 1) m (\<lambda>snapshot1. snap (clock 2) m (\<lambda>snapshot2.
           ms_requests_total snapshot1 = ms_requests_total snapshot2)))"

definition test_latency_circular_buffer :: "(nat \<Rightarrow> Duration) \<Rightarrow> f64 option \<Rightarrow> bool" where
  "test_latency_circular_buffer elapsed clock =
     snap clock (run_requests elapsed [0..<10] (with_options 5 (f64_of_uint 60))) (\<lambda>s.
       ms_requests_total s = 10 \<and> f64_less 0 (ms_latency_avg_ms s))"

definition test_heartbeat_rtt_circular_buffer :: "f64 option \<Rightarrow> bool" where
  "test_heartbeat_rtt_circular_buffer clock =
     snap clock (fold (\<lambda>i. record_heartbeat_rtt (f64_of_uint (int i))) [0..<150] new_metrics) (\<lambda>s.
       ms_heartbeat_rtt_last_ms s = f64_of_uint 149 \<and> f64_less 0 (ms_heartbeat_rtt_avg_ms s))"

definition test_empty_latency_percentiles :: "f64 option \<Rightarrow> bool" where
  "test_empty_latency_percentiles clock =
     snap clock new_metrics (\<lambda>s. ms_latency_avg_ms s = 0 \<and> ms_latency_p50_ms s = 0 \<and> ms_latency_p95_ms s = 0 \<and>
       ms_latency_p99_ms s = 0 \<and> ms_latency_min_ms s = 0 \<and> ms_latency_max_ms s = 0)"

definition test_empty_heartbeat_rtt :: "f64 option \<Rightarrow> bool" where
  "test_empty_heartbeat_rtt clock =
     snap clock new_metrics (\<lambda>s. ms_heartbeat_rtt_avg_ms s = 0 \<and> ms_heartbeat_rtt_last_ms s = 0)"

text \<open>
  The ten tasks of the last test each start and end one request; \<open>schedule\<close> is the order in
  which their operations get the lock.
\<close>

fun interleavings :: "'a list list \<Rightarrow> 'a list set" where
  "interleavings [] = {[]}"
| "interleavings (xs # xss) = (\<Union>ys \<in> interleavings xss. shuffles xs ys)"

definition request_tasks :: "(nat \<Rightarrow> Duration) \<Rightarrow> metrics_op list list" where
  "request_tasks elapsed = map (\<lambda>i. [StartRequest, EndRequest (elapsed i) True]) [0..<10]"

definition test_concurrent_requests :: "metrics_op list \<Rightarrow> f64 option \<Rightarrow> bool" where
  "test_concurrent_requests schedule clock =
     snap clock (metrics_run schedule new_metrics) (\<lambda>s. ms_requests_total s = 10 \<and> ms_requests_success s = 10)"

section \<open>Tests without latencies\<close>

lemmas recording_defs = new_metrics_def with_options_def start_request_def end_request_def
  record_circuit_breaker_trip_def record_circuit_breaker_reset_def record_circuit_breaker_half_open_def
  record_heartbeat_rtt_def record_heartbeat_miss_def reset_metrics_def saturating_sub_def push_bounded_def

theorem creation_tests_pass:
  "test_metrics_creation clock" "test_metrics_creation_with_options clock" "test_metrics_default clock"
  "test_empty_latency_percentiles clock" "test_empty_heartbeat_rtt clock"
  by (simp_all add: test_metrics_creation_def test_metrics_creation_with_options_def test_metrics_default_def
      test_empty_latency_percentiles_def test_empty_heartbeat_rtt_def snap_def snapshot_def recording_defs)

theorem counter_tests_pass:
  "test_circuit_breaker_tracking clocks" "test_queue_depth_tracking elapsed clocks"
  "test_heartbeat_miss_tracking clock" "test_metrics_reset elapsed clock" "test_metrics_clone elapsed clocks"
  by (simp_all add: test_circuit_breaker_tracking_def test_queue_depth_tracking_def test_heartbeat_miss_tracking_def
      test_metrics_reset_def test_metrics_clone_def snap_def snapshot_def sort_by_partial_cmp_def recording_defs
      Let_def max_def)

theorem heartbeat_rtt_test_passes: "test_heartbeat_rtt_tracking clock"
proof -
  let ?rtts = "[f64_round False (105 / 10), f64_round False (152 / 10), f64_round False (128 / 10)]"
  have "f64_less (f64_abs_diff (f64_div (f64_sum ?rtts) (f64_of_uint 3)) (f64_round False (1283 / 100))) (f64_round False (1 / 10))"
    by code_simp
  then show ?thesis
    by (simp add: test_heartbeat_rtt_tracking_def snap_def snapshot_def recording_defs Let_def)
qed

section \<open>Tests with latencies\<close>

text \<open>At least and at most so many milliseconds.\<close>

definition at_least_ms :: "u32 \<Rightarrow> Duration \<Rightarrow> bool" where
  "at_least_ms n d \<longleftrightarrow> du_secs d \<noteq> 0 \<or> n * 1000000 \<le> du_nanos d"

definition at_most_ms :: "u32 \<Rightarrow> Duration \<Rightarrow> bool" where
  "at_most_ms n d \<longleftrightarrow> du_secs d = 0 \<and> du_nanos d \<le> n * 1000000"

definition key_ms :: "u32 \<Rightarrow> int" where
  "key_ms n = f64_key (latency_of \<lparr>du_secs = 0, du_nanos = n * 1000000\<rparr>)"

lemma key_at_least:
  assumes "at_least_ms n d" "key_ms n \<le> f64_key (latency_of \<lparr>du_secs = 1, du_nanos = 0\<rparr>)"
  shows "key_ms n \<le> f64_key (latency_of d)"
proof (cases "du_secs d = 0")
  case True
  then show ?thesis using assms(1) unfolding key_ms_def by (intro latency_mono) (simp_all add: at_least_ms_def)
next
  case False
  then have "1 \<le> du_secs d" by (simp add: word_le_nat_alt Suc_le_eq unat_gt_0)
  then have "f64_key (latency_of \<lparr>du_secs = 1, du_nanos = 0\<rparr>) \<le> f64_key (latency_of d)"
    by (intro latency_mono) simp_all
  then show ?thesis using assms(2) by simp
qed

lemma key_at_most: "at_most_ms n d \<Longrightarrow> f64_key (latency_of d) \<le> key_ms n"
  unfolding key_ms_def by (rule latency_mono) (simp_all add: at_most_ms_def)

lemma latency_literals:
  "key_ms 10 = 4621819117588971520" "key_ms 50 = 4632233691727265792" "key_ms 90 = 4636033603912859648" "key_ms 95 = 4636385447633747968"
  "f64_key (latency_of \<lparr>du_secs = 1, du_nanos = 0\<rparr>) = 4652007308841189376" "f64_key (f64_of_uint 10) = 4621819117588971520"
  by code_simp+

text \<open>The average of latencies that are not zero is positive.\<close>

lemma exact_powers: "f64_exact (1 / 2 ^ 20)" "f64_exact (1 / 2 ^ 40)" "f64_exact 1" "f64_exact (1 / 2 ^ 10)"
  by code_simp+

lemma average_positive:
  assumes "\<forall>x \<in> set xs. f64_ge (1 / 2 ^ 20) x" "xs \<noteq> []" "length xs \<le> 2 ^ 20"
  shows "f64_less 0 (f64_div (f64_sum xs) (f64_of_uint (int (length xs))))"
proof -
  have "(of_int (int (length xs)) :: rat) \<le> of_int (2 ^ 20)" using assms(3) by (subst of_int_le_iff) simp
  then have "f64_ge (1 / 2 ^ 40) (f64_div (f64_sum xs) (f64_of_uint (int (length xs))))"
    using assms by (intro f64_ge_div [OF f64_sum_ge [OF exact_powers(1)]] exact_powers(2)) simp_all
  then show ?thesis by (rule f64_ge_less [rotated]) simp
qed

lemma at_least_nonzero: "at_least_ms n d \<Longrightarrow> n * 1000000 \<noteq> 0 \<Longrightarrow> du_secs d \<noteq> 0 \<or> du_nanos d \<noteq> 0"
  by (auto simp: at_least_ms_def)

theorem request_success_test_passes:
  assumes "at_least_ms 10 elapsed"
  shows "test_record_request_success elapsed clock"
proof -
  have "f64_le (f64_of_uint 10) (latency_of elapsed)"
    using key_at_least [OF assms] by (simp add: latency_literals f64_le_def latency_number)
  moreover have "f64_less 0 (f64_div (f64_sum [latency_of elapsed]) (f64_of_uint 1))"
    using average_positive [of "[latency_of elapsed]"] latency_ge [OF at_least_nonzero [OF assms]] by simp
  ultimately show ?thesis
    by (simp add: test_record_request_success_def snap_def snapshot_def sort_by_partial_cmp_def recording_defs Let_def)
qed

theorem request_failure_test_passes: "test_record_request_failure elapsed clock"
proof -
  have "f64_le 0 (latency_of elapsed)"
    using latency_pos [of elapsed] latency_number [of elapsed]
    by (simp add: f64_le_def latency_of_alt f64_posD) (simp add: is_nan_def f64_key_def f64_mag_def f64_neg_def)
  then show ?thesis
    by (simp add: test_record_request_failure_def snap_def snapshot_def sort_by_partial_cmp_def recording_defs Let_def)
qed

theorem snapshot_test_passes:
  assumes "f64_less 0 now"
  shows "test_metrics_snapshot elapsed (Some now)"
  using assms
  by (simp add: test_metrics_snapshot_def snap_def snapshot_def sort_by_partial_cmp_def recording_defs Let_def)

section \<open>Loops of requests\<close>

definition request_ops :: "(nat \<Rightarrow> Duration) \<Rightarrow> nat list \<Rightarrow> metrics_op list" where
  "request_ops elapsed is = concat (map (\<lambda>i. [StartRequest, EndRequest (elapsed i) True]) is)"

lemma run_requests_ops: "run_requests elapsed is m = metrics_run (request_ops elapsed is) m"
  by (induction "is" arbitrary: m) (simp_all add: run_requests_def request_ops_def metrics_run_def)

lemma since_reset_id: "ResetMetrics \<notin> set ops \<Longrightarrow> since_reset ops = ops"
  by (subst since_reset_def, subst takeWhile_eq_all_conv [THEN iffD2]) auto

lemma request_ops_history:
  "ResetMetrics \<notin> set (request_ops elapsed is)"
  "count_op (\<lambda>op. op = StartRequest) (request_ops elapsed is) = length is"
  "count_op (is_end True) (request_ops elapsed is) = length is"
  "concat (map op_latency (request_ops elapsed is)) = map (\<lambda>i. latency_of (elapsed i)) is"
  "length (request_ops elapsed is) = 2 * length is"
  by (induction "is") (simp_all add: request_ops_def count_op_def)

lemma run_requests_state:
  assumes "length is < 2 ^ 63"
  shows "mi_requests_total (run_requests elapsed is (with_options cap window)) = of_nat (length is)"
    "mi_latencies (run_requests elapsed is (with_options cap window)) =
       last_n (unat cap) (map (\<lambda>i. latency_of (elapsed i)) is)"
  using assms unfolding run_requests_ops
  by (simp_all add: metrics_run_history request_ops_history since_reset_id metrics_of_def)

text \<open>What a snapshot shows of the samples, whatever the other fields.\<close>

lemma snapshot_average:
  assumes "mi_latencies m \<noteq> []" "\<forall>x \<in> set (mi_latencies m). \<not> is_nan x"
  shows "\<exists>s. snapshot clock m = Some s \<and> ms_requests_total s = mi_requests_total m \<and>
    ms_latency_avg_ms s = f64_div (f64_sum (sort_key f64_key (mi_latencies m))) (f64_of_uint (int (length (mi_latencies m)))) \<and>
    ms_latency_min_ms s = sort_key f64_key (mi_latencies m) ! 0 \<and>
    ms_latency_max_ms s = sort_key f64_key (mi_latencies m) ! (length (mi_latencies m) - 1)"
  using assms by (auto simp: snapshot_def sort_by_partial_cmp_def list_ex_iff Let_def split_beta)

theorem circular_buffer_test_passes:
  assumes "\<And>i. du_secs (elapsed i) \<noteq> 0 \<or> du_nanos (elapsed i) \<noteq> 0"
  shows "test_latency_circular_buffer elapsed clock"
proof -
  define m where "m = run_requests elapsed [0..<10] (with_options 5 (f64_of_uint 60))"
  have m: "mi_requests_total m = 10" "mi_latencies m = map (\<lambda>i. latency_of (elapsed i)) [5..<10]"
    unfolding m_def by (simp_all add: run_requests_state last_n_def drop_map)
  have "\<forall>x \<in> set (mi_latencies m). f64_ge (1 / 2 ^ 20) x" using latency_ge [OF assms] by (auto simp: m(2))
  then have "f64_less 0 (f64_div (f64_sum (sort_key f64_key (mi_latencies m)))
      (f64_of_uint (int (length (sort_key f64_key (mi_latencies m))))))"
    by (intro average_positive) (simp_all add: m(2))
  then show ?thesis
    using snapshot_average [of m clock] m
    by (auto simp: test_latency_circular_buffer_def snap_def m_def [symmetric] latency_number)
qed

text \<open>Counting in a range.\<close>

lemma length_filter_less: "length (filter (\<lambda>i. i < k) [0..<n]) = min k n"
  by (induction n) auto

lemma length_filter_below:
  assumes "\<And>i. i < n \<Longrightarrow> P i \<Longrightarrow> i < k"
  shows "length (filter P [0..<n]) \<le> k"
proof -
  have "filter P [0..<n] = filter P (filter (\<lambda>i. i < k) [0..<n])" using assms by (auto intro!: filter_cong)
  then have "length (filter P [0..<n]) \<le> length (filter (\<lambda>i. i < k) [0..<n])" by (metis length_filter_le)
  then show ?thesis by (simp add: length_filter_less)
qed

lemma length_filter_above:
  assumes "\<And>i. i < k \<Longrightarrow> P i" "k \<le> n"
  shows "k \<le> length (filter P [0..<n])"
proof -
  have "filter P [0..<n] = filter P [0..<k] @ filter P [k..<n]"
    using upt_add_eq_append [of 0 k "n - k"] assms(2) by simp
  moreover have "filter P [0..<k] = [0..<k]" using assms(1) by (auto simp: filter_id_conv)
  ultimately show ?thesis by simp
qed

text \<open>A quantile of 100 samples whose keys are bounded by their index.\<close>

lemma quantile_bounds:
  assumes q: "quantile p x (map f [0..<100])"
  shows "(\<And>i. i < 100 \<Longrightarrow> p \<le> i \<Longrightarrow> K \<le> f64_key (f i)) \<Longrightarrow> K \<le> f64_key x"
    and "p < 100 \<Longrightarrow> (\<And>i. i \<le> p \<Longrightarrow> f64_key (f i) \<le> K) \<Longrightarrow> f64_key x \<le> K"
proof -
  assume hi: "\<And>i. i < 100 \<Longrightarrow> p \<le> i \<Longrightarrow> K \<le> f64_key (f i)"
  show "K \<le> f64_key x"
  proof (rule ccontr)
    assume "\<not> K \<le> f64_key x"
    then have "length (filter (\<lambda>i. f64_key (f i) \<le> f64_key x) [0..<100]) \<le> p"
      using hi by (intro length_filter_below) force
    then show False using q by (simp add: quantile_def filter_map comp_def)
  qed
next
  assume p: "p < 100" and lo: "\<And>i. i \<le> p \<Longrightarrow> f64_key (f i) \<le> K"
  show "f64_key x \<le> K"
  proof (rule ccontr)
    assume less: "\<not> f64_key x \<le> K"
    have "Suc p \<le> length (filter (\<lambda>i. f64_key (f i) < f64_key x) [0..<100])"
    proof (rule length_filter_above)
      fix i assume "i < Suc p"
      then have "f64_key (f i) \<le> K" by (intro lo) simp
      then show "f64_key (f i) < f64_key x" using less by simp
    qed (use p in simp)
    then show False using q by (simp add: quantile_def filter_map comp_def)
  qed
qed

text \<open>
  The percentile test depends on the scheduler: it passes if no sleep takes more than 40
  milliseconds longer than asked for.
\<close>

lemma unat_ms: "i < 4000 \<Longrightarrow> unat (of_nat i * 1000000 :: u32) = i * 1000000"
  using unat_of_nat [of "i * 1000000", where 'a = 32] by simp

lemma at_least_ms_mono: "at_least_ms (of_nat i) d \<Longrightarrow> j \<le> i \<Longrightarrow> i < 4000 \<Longrightarrow> at_least_ms (of_nat j) d"
  by (auto simp: at_least_ms_def word_le_nat_alt unat_ms)

lemma at_most_ms_mono: "at_most_ms (of_nat i) d \<Longrightarrow> i \<le> j \<Longrightarrow> j < 4000 \<Longrightarrow> at_most_ms (of_nat j) d"
  by (auto simp: at_most_ms_def word_le_nat_alt unat_ms)

theorem percentiles_test_passes:
  assumes slept: "\<And>i. i < 100 \<Longrightarrow> at_least_ms (of_nat i) (elapsed i)"
    and overslept: "\<And>i. i < 100 \<Longrightarrow> at_most_ms (of_nat (i + 40)) (elapsed i)"
  shows "test_latency_percentiles elapsed clock"
proof -
  define m where "m = run_requests elapsed [0..<100] new_metrics"
  define f where "f i = latency_of (elapsed i)" for i
  have run: "m = metrics_run (request_ops elapsed [0..<100]) (with_options 1000 (f64_of_uint 60))"
    by (simp add: m_def new_metrics_def run_requests_ops)
  have m: "mi_requests_total m = 100" "mi_latencies m = map f [0..<100]"
    unfolding m_def new_metrics_def by (simp_all add: run_requests_state last_n_def f_def)
  have "length (request_ops elapsed [0..<100]) < 2 ^ 64" by (simp add: request_ops_history)
  from snapshot_quantiles [OF this, of 1000 "f64_of_uint 60" clock, folded run] m(2)
  obtain s where s: "snapshot clock m = Some s" "quantile 50 (ms_latency_p50_ms s) (map f [0..<100])"
    "quantile 95 (ms_latency_p95_ms s) (map f [0..<100])" "quantile 99 (ms_latency_p99_ms s) (map f [0..<100])"
    "sorted (map f64_key [ms_latency_min_ms s, ms_latency_p50_ms s, ms_latency_p95_ms s, ms_latency_p99_ms s, ms_latency_max_ms s])"
    by auto
  have num: "\<not> is_nan x" if "x \<in> set (map f [0..<100])" for x using that by (auto simp: f_def latency_number)
  then have "\<not> is_nan (ms_latency_p50_ms s)" "\<not> is_nan (ms_latency_p95_ms s)" "\<not> is_nan (ms_latency_p99_ms s)"
    using s(2-4) unfolding quantile_def by blast+
  moreover have "ms_requests_total s = 100" "\<not> is_nan (ms_latency_min_ms s)" "\<not> is_nan (ms_latency_max_ms s)"
  proof -
    have "sort_key f64_key (map f [0..<100]) ! i \<in> set (map f [0..<100])" if "i < 100" for i
      using nth_mem [of i "sort_key f64_key (map f [0..<100])"] that by simp
    then show "ms_requests_total s = 100" "\<not> is_nan (ms_latency_min_ms s)" "\<not> is_nan (ms_latency_max_ms s)"
      using snapshot_average [of m clock] m s(1) num by auto
  qed
  moreover have "key_ms 50 \<le> f64_key (ms_latency_p50_ms s)"
  proof (rule quantile_bounds(1) [OF s(2)])
    fix i :: nat assume "i < 100" "50 \<le> i"
    then have "at_least_ms 50 (elapsed i)" using at_least_ms_mono [OF slept, of i 50] by simp
    then show "key_ms 50 \<le> f64_key (f i)" unfolding f_def by (rule key_at_least) (simp add: latency_literals)
  qed
  moreover have "f64_key (ms_latency_p50_ms s) \<le> key_ms 90"
  proof (rule quantile_bounds(2) [OF s(2)])
    fix i :: nat assume "i \<le> 50"
    then have "at_most_ms 90 (elapsed i)" using at_most_ms_mono [OF overslept, of i 90] by simp
    then show "f64_key (f i) \<le> key_ms 90" unfolding f_def by (rule key_at_most)
  qed simp
  moreover have "key_ms 95 \<le> f64_key (ms_latency_p95_ms s)"
  proof (rule quantile_bounds(1) [OF s(3)])
    fix i :: nat assume "i < 100" "95 \<le> i"
    then have "at_least_ms 95 (elapsed i)" using at_least_ms_mono [OF slept, of i 95] by simp
    then show "key_ms 95 \<le> f64_key (f i)" unfolding f_def by (rule key_at_least) (simp add: latency_literals)
  qed
  moreover have "\<not> is_nan 0" "f64_key 0 = 0" by (simp_all add: is_nan_def f64_key_def f64_mag_def f64_neg_def)
  ultimately show ?thesis
    using s(1,5) by (simp add: test_latency_percentiles_def snap_def m_def [symmetric] f64_less_def f64_le_def latency_literals)
qed

section \<open>Heartbeats and concurrent tasks\<close>

theorem rtt_buffer_test_passes: "test_heartbeat_rtt_circular_buffer clock"
proof -
  define m where "m = fold (\<lambda>i. record_heartbeat_rtt (f64_of_uint (int i))) [0..<150] new_metrics"
  have run: "fold (\<lambda>i. record_heartbeat_rtt (f64_of_uint (int i))) is m0 =
      metrics_run (map (\<lambda>i. HeartbeatRtt (f64_of_uint (int i))) is) m0" for "is" m0
    by (induction "is" arbitrary: m0) (simp_all add: metrics_run_def)
  define h where "h = map (\<lambda>i. HeartbeatRtt (f64_of_uint (int i))) [0..<150]"
  have h: "since_reset h = h" by (rule since_reset_id) (auto simp: h_def)
  have "m = metrics_of 1000 (f64_of_uint 60) h"
    using metrics_run_history [of h 1000 "f64_of_uint 60"] h
    by (simp add: m_def new_metrics_def run) (simp add: h_def)
  moreover have "concat (map op_rtt h) = map (\<lambda>i. f64_of_uint (int i)) [0..<150]"
    unfolding h_def map_map comp_def by (simp add: concat_map_singleton)
  moreover have "concat (map op_latency h) = []" by (auto simp: h_def)
  ultimately have m: "mi_heartbeat_rtts m = map (\<lambda>i. f64_of_uint (int i)) [50..<150]" "mi_latencies m = []"
    by (simp_all add: metrics_of_def last_n_def drop_map)
  have "f64_ge (1 / 2 ^ 20) (f64_of_uint (int i))" if "i \<in> {50..<150}" for i
  proof -
    have "f64_val (f64_of_uint (int i)) = of_nat i" using f64_of_uint_exact(1) [of "int i"] that by simp
    moreover have "(50 :: rat) \<le> of_nat i" using that by simp
    ultimately show ?thesis by (simp add: f64_ge_def)
  qed
  then have "f64_less 0 (f64_div (f64_sum (mi_heartbeat_rtts m)) (f64_of_uint (int (length (mi_heartbeat_rtts m)))))"
    unfolding m(1) by (intro average_positive) (auto simp del: upt_rec_numeral)
  moreover have "last (mi_heartbeat_rtts m) = f64_of_uint 149" by (simp add: m last_map)
  ultimately show ?thesis
    using m by (simp add: test_heartbeat_rtt_circular_buffer_def snap_def snapshot_def m_def [symmetric] Let_def)
qed

lemma interleavings_filter:
  "ys \<in> interleavings xss \<Longrightarrow> length (filter P ys) = sum_list (map (\<lambda>xs. length (filter P xs)) xss)"
proof (induction xss arbitrary: ys)
  case (Cons xs xss)
  then obtain zs where zs: "zs \<in> interleavings xss" "ys \<in> shuffles xs zs" by auto
  then have "filter P ys \<in> shuffles (filter P xs) (filter P zs)" using filter_shuffles [of P xs zs] by blast
  then show ?case using Cons.IH [OF zs(1)] by (simp add: length_shuffles)
qed simp

theorem concurrent_test_passes:
  assumes "schedule \<in> interleavings (request_tasks elapsed)"
  shows "test_concurrent_requests schedule clock"
proof -
  note count = interleavings_filter [OF assms]
  have "filter (\<lambda>op. op = ResetMetrics) schedule = []"
    using count [of "\<lambda>op. op = ResetMetrics"] by (simp add: request_tasks_def comp_def)
  then have "since_reset schedule = schedule" by (intro since_reset_id) (auto simp: filter_empty_conv)
  moreover have len: "length schedule = 20" using count [of "\<lambda>_. True"] by (simp add: request_tasks_def comp_def sum_list_triv del: upt_rec_numeral)
  moreover have "count_op (\<lambda>op. op = StartRequest) schedule = 10" "count_op (is_end True) schedule = 10"
    using count [of "\<lambda>op. op = StartRequest"] count [of "is_end True"]
    by (simp_all add: count_op_def request_tasks_def comp_def sum_list_triv del: upt_rec_numeral)
  ultimately have m: "mi_requests_total (metrics_run schedule new_metrics) = 10"
    "mi_requests_success (metrics_run schedule new_metrics) = 10"
    by (simp_all add: new_metrics_def metrics_run_history metrics_of_def)
  have "\<exists>s. snapshot clock (metrics_run schedule new_metrics) = Some s"
    using run_latencies_number [of schedule 1000 "f64_of_uint 60"] len
    by (auto simp: new_metrics_def snapshot_def sort_by_partial_cmp_def list_ex_iff Let_def split_beta)
  moreover have "ms_requests_total s = mi_requests_total m'" "ms_requests_success s = mi_requests_success m'"
    if "snapshot clock m' = Some s" for m' s
    using that by (auto simp: snapshot_def Let_def split_beta split: option.splits if_splits)
  ultimately show ?thesis using m by (auto simp: test_concurrent_requests_def snap_def)
qed

end
