(* ===== verification/Test_Logging.thy ===== *)
theory Test_Logging
  imports Client_Logging_Spec
begin

text \<open>
  The unit tests of rust/src/logging.rs, run against the model. \<open>print\<close> and \<open>parse\<close> are the
  JSON library on objects and \<open>lv\<close> what logging reads from its surroundings. The tests
  capture lines in a vector behind a lock, which is the world of the handler.
\<close>

section \<open>The tests\<close>

type_synonym json_print = "(string \<times> Value) list \<Rightarrow> string option"

text \<open>A call that panics fails the test.\<close>

definition logged :: "'w option \<Rightarrow> ('w \<Rightarrow> bool) \<Rightarrow> bool" where
  "logged r k = (case r of None \<Rightarrow> False | Some w \<Rightarrow> k w)"

text \<open>Calls one after the other.\<close>

definition calls :: "('w \<Rightarrow> 'w option) list \<Rightarrow> 'w \<Rightarrow> 'w option" where
  "calls acts w = foldl Option.bind (Some w) acts"

definition capture :: "json_print \<Rightarrow> string list handler" where
  "capture print = (\<lambda>entry logs. Some (logs @ [to_json print entry]))"

definition test_log_level_display :: bool where
  "test_log_level_display \<longleftrightarrow> level_text Debug = ''debug'' \<and> level_text Info = ''info'' \<and>
     level_text Warn = ''warn'' \<and> level_text Error = ''error''"

definition test_log_event_display :: "(LogEvent \<Rightarrow> string option) \<Rightarrow> bool" where
  "test_log_event_display ser \<longleftrightarrow>
     event_text ser WorkerStart = ''worker_start'' \<and> event_text ser WorkerStop = ''worker_stop'' \<and>
     event_text ser RequestStart = ''request_start'' \<and> event_text ser CircuitOpen = ''circuit_open''"

definition test_log_entry_to_json :: "json_print \<Rightarrow> bool" where
  "test_log_entry_to_json print \<longleftrightarrow>
     (let entry = default_entry\<lparr>le_event := ''test_event'', le_level := ''info'', le_message := ''Test message'',
            le_timestamp := f64_of_uint 1234567890, le_correlation_id := Some ''corr-123'',
            le_request_id := Some ''req-456'', le_worker_id := Some ''worker-1'', le_function := Some ''test_func'',
            le_duration_ms := Some (f64_round False (1005 / 10)), le_success := Some True\<rparr>;
          json = to_json print entry
      in sublist ''test_event'' json \<and> sublist ''Test message'' json \<and> sublist ''corr-123'' json \<and>
         sublist ''req-456'' json)"

definition test_log_entry_default :: bool where
  "test_log_entry_default \<longleftrightarrow> le_event default_entry = [] \<and> le_level default_entry = [] \<and>
     le_message default_entry = [] \<and> le_correlation_id default_entry = None \<and> le_request_id default_entry = None"

definition test_logger_creation :: "log_env \<Rightarrow> bool" where
  "test_logger_creation lv =
     (let logger = new_logger None Info (Some ''worker-1'') None
      in logged (log_info lv logger WorkerStart ''Test'' default_options ()) (\<lambda>_. True))"

definition test_logger_with_handler :: "json_print \<Rightarrow> log_env \<Rightarrow> bool" where
  "test_logger_with_handler print lv =
     (let logger = new_logger (Some (capture print)) Debug (Some ''worker-1'') None
      in logged (log_info lv logger WorkerStart ''Worker started'' default_options []) (\<lambda>captured_logs.
           length captured_logs = 1 \<and> sublist ''worker_start'' (captured_logs ! 0) \<and>
           sublist ''Worker started'' (captured_logs ! 0)))"

definition test_log_level_filtering :: "json_print \<Rightarrow> (nat \<Rightarrow> log_env) \<Rightarrow> bool" where
  "test_log_level_filtering print lv =
     (let logger = new_logger (Some (capture print)) Warn (Some ''worker-1'') None
      in logged (calls
           [log_debug (lv 0) logger WorkerStart ''Debug message'' default_options,
            log_info (lv 1) logger WorkerStart ''Info message'' default_options,
            log_warn (lv 2) logger CircuitOpen ''Warn message'' default_options,
            log_error (lv 3) logger RequestError ''Error message'' default_options] [])
         (\<lambda>captured_logs. length captured_logs = 2))"

definition test_log_level_ordering :: bool where
  "test_log_level_ordering \<longleftrightarrow>
     level_num Debug < level_num Info \<and> level_num Info < level_num Warn \<and> level_num Warn < level_num Error"

text \<open>The two vectors of this test are the two components of the world.\<close>

definition test_set_handler :: "(nat \<Rightarrow> log_env) \<Rightarrow> bool" where
  "test_set_handler lv =
     (let handler1 = (\<lambda>_ (logs1, logs2). Some (logs1 @ [''handler1''], logs2));
          handler2 = (\<lambda>_ (logs1, logs2). Some (logs1, logs2 @ [''handler2'']));
          logger = new_logger (Some handler1) Debug (Some ''worker-1'') None
      in logged (calls
           [log_info (lv 0) logger WorkerStart ''Test'' default_options,
            log_info (lv 1) (set_handler handler2 logger) WorkerStart ''Test'' default_options] ([], []))
         (\<lambda>(logs1, logs2). length logs1 = 1 \<and> length logs2 = 1))"

definition test_set_context :: "json_print \<Rightarrow> (nat \<Rightarrow> log_env) \<Rightarrow> bool" where
  "test_set_context print lv =
     (let logger = new_logger (Some (capture print)) Debug None None
      in logged (calls
           [log_info (lv 0) logger WorkerStart ''Test'' default_options,
            log_info (lv 1) (set_context (Some ''worker-1'') (Some ''service-1'') logger) WorkerStart ''Test''
              default_options] [])
         (\<lambda>captured_logs. length captured_logs = 2 \<and> \<not> sublist ''worker-1'' (captured_logs ! 0) \<and>
            sublist ''worker-1'' (captured_logs ! 1) \<and> sublist ''service-1'' (captured_logs ! 1)))"

definition test_convenience_methods :: "json_print \<Rightarrow> (nat \<Rightarrow> log_env) \<Rightarrow> bool" where
  "test_convenience_methods print lv =
     (let logger = new_logger (Some (capture print)) Debug (Some ''worker-1'') None
      in logged (calls
           [request_start (lv 0) logger ''req-123'' ''add'' ''default'' (Some ''corr-456'') None,
            request_end (lv 1) logger ''req-123'' ''add'' (f64_round False (1005 / 10)) True None None,
            log_circuit_open (lv 2) logger 5,
            log_circuit_close (lv 3) logger,
            worker_start (lv 4) logger ''spawn'',
            worker_stop (lv 5) logger ''shutdown'',
            process_exit (lv 6) logger 0,
            heartbeat_sent (lv 7) logger,
            heartbeat_received (lv 8) logger (f64_round False (155 / 10)),
            heartbeat_missed (lv 9) logger 2 3,
            heartbeat_timeout (lv 10) logger 3] [])
         (\<lambda>captured_logs. 10 \<le> length captured_logs))"

definition test_log_options_default :: bool where
  "test_log_options_default \<longleftrightarrow>
     lo_correlation_id default_options = None \<and> lo_request_id default_options = None \<and>
     lo_function default_options = None \<and> lo_namespace default_options = None \<and>
     lo_duration_ms default_options = None \<and> lo_success default_options = None \<and>
     lo_error default_options = None \<and> lo_error_type default_options = None \<and>
     lo_metrics default_options = None \<and> lo_metadata default_options = None"

definition test_log_options_with_fields :: bool where
  "test_log_options_with_fields \<longleftrightarrow>
     (let options = \<lparr>lo_correlation_id = Some ''corr-123'', lo_request_id = Some ''req-456'',
            lo_parent_request_id = Some ''parent-789'', lo_function = Some ''test_func'',
            lo_namespace = Some ''test_ns'', lo_duration_ms = Some (f64_round False (1005 / 10)),
            lo_success = Some True, lo_error = Some ''Test error'', lo_error_type = Some ''TestError'',
            lo_metrics = Some (VObject [(''count'', json_of_int 1)]),
            lo_metadata = Some (VObject [(''key'', VString ''value'')])\<rparr>
      in lo_correlation_id options = Some ''corr-123'' \<and> lo_request_id options = Some ''req-456'' \<and>
         lo_function options = Some ''test_func'')"

definition test_default_json_handler :: "json_print \<Rightarrow> bool" where
  "test_default_json_handler print =
     (let entry = default_entry\<lparr>le_event := ''test_event'', le_level := ''info'', le_message := ''Test message'',
            le_timestamp := f64_of_uint 1234567890\<rparr>
      in logged (default_json_handler print entry []) (\<lambda>_. True))"

definition test_default_pretty_handler :: "nat \<Rightarrow> bool" where
  "test_default_pretty_handler secs =
     (let entry = default_entry\<lparr>le_event := ''test_event'', le_level := ''info'', le_message := ''Test message'',
            le_timestamp := f64_of_uint 1234567890, le_request_id := Some ''req-123'',
            le_function := Some ''test_func'', le_duration_ms := Some (f64_round False (1005 / 10))\<rparr>
      in logged (default_pretty_handler secs entry []) (\<lambda>_. True))"

text \<open>\<open>parsed[key] == text\<close>.\<close>

definition field_is :: "(string \<times> Value) list \<Rightarrow> string \<Rightarrow> Value \<Rightarrow> bool" where
  "field_is parsed key v \<longleftrightarrow> map_of parsed key = Some v"

definition full_entry :: LogEntry where
  "full_entry = \<lparr>le_event = ''test_event'', le_level = ''info'', le_message = ''Test message'',
     le_timestamp = f64_of_uint 1234567890, le_correlation_id = Some ''corr-123'', le_request_id = Some ''req-456'',
     le_parent_request_id = Some ''parent-789'', le_worker_id = Some ''worker-1'', le_service_id = Some ''service-1'',
     le_function = Some ''test_func'', le_namespace = Some ''test_ns'',
     le_duration_ms = Some (f64_round False (1005 / 10)), le_success = Some True, le_error = Some ''Test error'',
     le_error_type = Some ''TestError'', le_metrics = Some (VObject [(''count'', json_of_int 1)]),
     le_metadata = Some (VObject [(''key'', VString ''value'')])\<rparr>"

definition test_log_entry_serialization :: "json_print \<Rightarrow> (string \<Rightarrow> (string \<times> Value) list option) \<Rightarrow> bool" where
  "test_log_entry_serialization print parse =
     logged (parse (to_json print full_entry)) (\<lambda>parsed.
       field_is parsed ''event'' (VString ''test_event'') \<and> field_is parsed ''level'' (VString ''info'') \<and>
       field_is parsed ''message'' (VString ''Test message'') \<and>
       field_is parsed ''correlation_id'' (VString ''corr-123'') \<and>
       field_is parsed ''request_id'' (VString ''req-456'') \<and> field_is parsed ''worker_id'' (VString ''worker-1'') \<and>
       field_is parsed ''service_id'' (VString ''service-1'') \<and> field_is parsed ''function'' (VString ''test_func'') \<and>
       field_is parsed ''namespace'' (VString ''test_ns'') \<and>
       field_is parsed ''duration_ms'' (VFloat (f64_round False (1005 / 10))) \<and>
       field_is parsed ''success'' (VBool True) \<and> field_is parsed ''error'' (VString ''Test error'') \<and>
       field_is parsed ''error_type'' (VString ''TestError''))"

definition test_handler_exception_handling :: bool where
  "test_handler_exception_handling \<longleftrightarrow>
     (let logger = new_logger (Some (\<lambda>_ _. None :: unit option)) Debug (Some ''worker-1'') None
      in lg_worker_id logger = Some ''worker-1'')"

section \<open>The JSON library\<close>

text \<open>Text that JSON neither escapes nor uses as punctuation.\<close>

definition plain :: "string \<Rightarrow> bool" where
  "plain s \<longleftrightarrow> list_all (\<lambda>c. 32 \<le> (of_char c :: nat) \<and> (of_char c :: nat) < 127 \<and> c \<notin> set [CHR 0x22, CHR 0x5C, CHR ''{'',
     CHR ''}'', CHR ''['', CHR '']'', CHR '','', CHR '':'']) s"

text \<open>
  Printing an object succeeds, shows the texts of its fields, and, of plain texts with a
  letter that no number or constant has, only those that occur in a key or a text.
\<close>

definition shows_texts :: "json_print \<Rightarrow> bool" where
  "shows_texts print \<longleftrightarrow> (\<forall>fs. \<exists>t. print fs = Some t \<and>
     (\<forall>k s. (k, VString s) \<in> set fs \<longrightarrow> plain s \<longrightarrow> sublist s t))"

definition shows_only_texts :: "json_print \<Rightarrow> bool" where
  "shows_only_texts print \<longleftrightarrow> (\<forall>fs t s. print fs = Some t \<longrightarrow>
     (\<forall>v \<in> snd ` set fs. case v of VArray _ \<Rightarrow> False | VObject _ \<Rightarrow> False | _ \<Rightarrow> True) \<longrightarrow>
     plain s \<longrightarrow> CHR ''w'' \<in> set s \<longrightarrow> sublist s t \<longrightarrow>
     (\<exists>k v. (k, v) \<in> set fs \<and> (sublist s k \<or> (\<exists>u. v = VString u \<and> sublist s u))))"

definition reads_back :: "json_print \<Rightarrow> (string \<Rightarrow> (string \<times> Value) list option) \<Rightarrow> bool" where
  "reads_back print parse \<longleftrightarrow> (\<forall>fs t. distinct (map fst fs) \<longrightarrow> print fs = Some t \<longrightarrow>
     (\<exists>gs. parse t = Some gs \<and> map_of gs = map_of fs))"

lemma shows_only_textsD:
  assumes "shows_only_texts print" "print fs = Some t"
    and "\<forall>v \<in> snd ` set fs. case v of VArray _ \<Rightarrow> False | VObject _ \<Rightarrow> False | _ \<Rightarrow> True"
    and "plain s" "CHR ''w'' \<in> set s" "sublist s t"
  shows "\<exists>k v. (k, v) \<in> set fs \<and> (sublist s k \<or> (\<exists>u. v = VString u \<and> sublist s u))"
  using assms unfolding shows_only_texts_def by blast

lemma to_json_shows:
  assumes "shows_texts print" "(k, VString s) \<in> set (entry_fields e)" "plain s"
  shows "sublist s (to_json print e)"
proof -
  obtain t where "print (entry_fields e) = Some t" "\<forall>k s. (k, VString s) \<in> set (entry_fields e) \<longrightarrow> plain s \<longrightarrow> sublist s t"
    using assms(1) unfolding shows_texts_def by blast
  then show ?thesis using assms(2,3) by (auto simp: to_json_def)
qed

section \<open>The tests pass\<close>

lemmas logger_defs = log_debug_def log_info_def log_warn_def log_error_def log_event_def should_log_def
  new_logger_def set_handler_def set_context_def make_entry_def

theorem plain_tests_pass:
  "test_log_level_display" "test_log_entry_default" "test_logger_creation lv" "test_log_level_ordering"
  "test_log_options_default" "test_log_options_with_fields" "test_default_json_handler print"
  "test_handler_exception_handling"
  by (simp_all add: test_log_level_display_def test_log_entry_default_def test_logger_creation_def
      test_log_level_ordering_def test_log_options_default_def test_log_options_with_fields_def
      test_default_json_handler_def test_handler_exception_handling_def default_entry_def default_options_def
      default_json_handler_def logged_def logger_defs Let_def)

lemma event_texts:
  assumes "serde_events ser"
  shows "event_text ser WorkerStart = ''worker_start''" "event_text ser WorkerStop = ''worker_stop''"
    "event_text ser RequestStart = ''request_start''" "event_text ser CircuitOpen = ''circuit_open''"
proof -
  have "snake_case (variant_name WorkerStart) = ''worker_start''" "snake_case (variant_name WorkerStop) = ''worker_stop''"
    "snake_case (variant_name RequestStart) = ''request_start''" "snake_case (variant_name CircuitOpen) = ''circuit_open''"
    by code_simp+
  then show "event_text ser WorkerStart = ''worker_start''" "event_text ser WorkerStop = ''worker_stop''"
    "event_text ser RequestStart = ''request_start''" "event_text ser CircuitOpen = ''circuit_open''"
    by (simp_all only: event_text_snake [OF assms])
qed

theorem event_display_test_passes: "serde_events ser \<Longrightarrow> test_log_event_display ser"
  by (simp add: test_log_event_display_def event_texts)

theorem pretty_handler_test_passes: "test_default_pretty_handler secs"
proof -
  have "slice_to (min (length ''req-123'') 8) ''req-123'' = Some ''req-123''" by code_simp
  then show ?thesis
    by (simp add: test_default_pretty_handler_def logged_def default_pretty_handler_def pretty_line_def
        default_entry_def Let_def)
qed

theorem level_tests_pass:
  "test_log_level_filtering print lvs" "test_set_handler lvs" "test_convenience_methods print lvs"
  by (simp_all add: test_log_level_filtering_def test_set_handler_def test_convenience_methods_def logged_def calls_def
      capture_def logger_defs request_start_def request_end_def log_circuit_open_def log_circuit_close_def
      worker_start_def worker_stop_def process_exit_def heartbeat_sent_def heartbeat_received_def
      heartbeat_missed_def heartbeat_timeout_def Let_def word_le_nat_alt)

text \<open>The texts of an entry that its line shows.\<close>

lemma line_shows:
  assumes "shows_texts print"
  shows "le_event e = s \<Longrightarrow> plain s \<Longrightarrow> sublist s (to_json print e)"
    "le_message e = s \<Longrightarrow> plain s \<Longrightarrow> sublist s (to_json print e)"
    "le_correlation_id e = Some s \<Longrightarrow> plain s \<Longrightarrow> sublist s (to_json print e)"
    "le_request_id e = Some s \<Longrightarrow> plain s \<Longrightarrow> sublist s (to_json print e)"
    "le_worker_id e = Some s \<Longrightarrow> plain s \<Longrightarrow> sublist s (to_json print e)"
    "le_service_id e = Some s \<Longrightarrow> plain s \<Longrightarrow> sublist s (to_json print e)"
proof -
  note line = to_json_shows [OF assms]
  show "le_event e = s \<Longrightarrow> plain s \<Longrightarrow> sublist s (to_json print e)"
    by (rule line [of "''event''"]) (simp_all add: entry_fields_def)
  show "le_message e = s \<Longrightarrow> plain s \<Longrightarrow> sublist s (to_json print e)"
    by (rule line [of "''message''"]) (simp_all add: entry_fields_def)
  show "le_correlation_id e = Some s \<Longrightarrow> plain s \<Longrightarrow> sublist s (to_json print e)"
    by (rule line [of "''correlation_id''"]) (simp_all add: entry_fields_def opt_field_def)
  show "le_request_id e = Some s \<Longrightarrow> plain s \<Longrightarrow> sublist s (to_json print e)"
    by (rule line [of "''request_id''"]) (simp_all add: entry_fields_def opt_field_def)
  show "le_worker_id e = Some s \<Longrightarrow> plain s \<Longrightarrow> sublist s (to_json print e)"
    by (rule line [of "''worker_id''"]) (simp_all add: entry_fields_def opt_field_def)
  show "le_service_id e = Some s \<Longrightarrow> plain s \<Longrightarrow> sublist s (to_json print e)"
    by (rule line [of "''service_id''"]) (simp_all add: entry_fields_def opt_field_def)
qed

text \<open>A logger at the lowest level that captures lines.\<close>

lemma log_info_captured:
  assumes "lg_handler lg = Some (capture print)" "lg_level lg = Debug"
  shows "log_info lv lg event message options logs =
    Some (logs @ [to_json print (make_entry lv lg event message Info options)])"
  using assms by (simp add: log_info_def log_event_def should_log_def capture_def)

lemma context_logger: "lg_handler (new_logger h l w sv) = h" "lg_level (new_logger h l w sv) = l"
  "lg_handler (set_context w' s' lg) = lg_handler lg" "lg_level (set_context w' s' lg) = lg_level lg"
  by (simp_all add: new_logger_def set_context_def Let_def)

lemma plain_texts: "plain ''test_event''" "plain ''Test message''" "plain ''corr-123''" "plain ''req-456''"
  "plain ''worker_start''" "plain ''Worker started''" "plain ''worker-1''" "plain ''service-1''"
  by code_simp+

lemma print_total: "shows_texts print \<Longrightarrow> \<exists>t. print fs = Some t"
  unfolding shows_texts_def by blast

theorem json_tests_pass:
  assumes print: "shows_texts print" and ser: "serde_events (lv_ser_event lv)"
  shows "test_log_entry_to_json print" "test_logger_with_handler print lv"
proof -
  show "test_log_entry_to_json print"
    unfolding test_log_entry_to_json_def Let_def
    by (intro conjI, rule line_shows(1) [OF print], simp, rule plain_texts,
      rule line_shows(2) [OF print], simp, rule plain_texts,
      rule line_shows(3) [OF print], simp, rule plain_texts,
      rule line_shows(4) [OF print], simp, rule plain_texts)
  define e where "e = make_entry lv (new_logger (Some (capture print)) Debug (Some ''worker-1'') None) WorkerStart
    ''Worker started'' Info default_options"
  have "le_event e = ''worker_start''" "le_message e = ''Worker started''"
    by (simp_all add: e_def make_entry_def event_texts(1) [OF ser])
  then have "sublist ''worker_start'' (to_json print e)" "sublist ''Worker started'' (to_json print e)"
    using line_shows(1,2) [OF print] plain_texts(5,6) by blast+
  moreover have "test_logger_with_handler print lv \<longleftrightarrow> sublist ''worker_start'' (to_json print e) \<and> sublist ''Worker started'' (to_json print e)"
    by (simp add: e_def test_logger_with_handler_def logged_def log_info_captured context_logger Let_def)
  ultimately show "test_logger_with_handler print lv" by simp
qed

theorem serialization_test_passes:
  assumes "shows_texts print" "reads_back print parse"
  shows "test_log_entry_serialization print parse"
proof -
  obtain t where t: "print (entry_fields full_entry) = Some t" using print_total [OF assms(1)] by blast
  have "json_of_f64 (f64_round False (1005 / 10)) = VFloat (f64_round False (1005 / 10))" by code_simp
  then have fields: "entry_fields full_entry =
    [(''event'', VString ''test_event''), (''level'', VString ''info''), (''message'', VString ''Test message''),
     (''timestamp'', json_of_f64 (f64_of_uint 1234567890)), (''correlation_id'', VString ''corr-123''),
     (''request_id'', VString ''req-456''), (''parent_request_id'', VString ''parent-789''),
     (''worker_id'', VString ''worker-1''), (''service_id'', VString ''service-1''),
     (''function'', VString ''test_func''), (''namespace'', VString ''test_ns''),
     (''duration_ms'', VFloat (f64_round False (1005 / 10))), (''success'', VBool True), (''error'', VString ''Test error''),
     (''error_type'', VString ''TestError''), (''metrics'', VObject [(''count'', json_of_int 1)]),
     (''metadata'', VObject [(''key'', VString ''value'')])]"
    by (simp add: full_entry_def entry_fields_def opt_field_def)
  then have "distinct (map fst (entry_fields full_entry))" by simp
  then obtain gs where gs: "parse t = Some gs" "map_of gs = map_of (entry_fields full_entry)"
    using assms(2) t unfolding reads_back_def by blast
  then show ?thesis
    by (simp add: test_log_entry_serialization_def logged_def to_json_def t field_is_def gs(2)) (simp add: fields)
qed

theorem set_context_test_passes:
  assumes print: "shows_texts print" "shows_only_texts print" and ser: "\<And>i. serde_events (lv_ser_event (lvs i))"
  shows "test_set_context print lvs"
proof -
  define lg where "lg = new_logger (Some (capture print)) Debug None None"
  define e0 where "e0 = make_entry (lvs 0) lg WorkerStart ''Test'' Info default_options"
  define e1 where "e1 = make_entry (lvs 1) (set_context (Some ''worker-1'') (Some ''service-1'') lg) WorkerStart ''Test'' Info default_options"
  have fields: "entry_fields e0 = [(''event'', VString ''worker_start''), (''level'', VString ''info''),
     (''message'', VString ''Test''), (''timestamp'', json_of_f64 (le_timestamp e0))]"
    by (simp add: e0_def lg_def new_logger_def make_entry_def entry_fields_def opt_field_def default_options_def
        event_texts(1) [OF ser])
  obtain t where t: "print (entry_fields e0) = Some t" using print_total [OF print(1)] by blast
  let ?T = "{''event'', ''level'', ''message'', ''timestamp'', ''worker_start'', ''info'', ''Test''}"
  have none: "\<not> sublist ''worker-1'' u" if "u \<in> ?T" for u
  proof -
    have "list_all (\<lambda>u. \<not> sublist ''worker-1'' u) [''event'', ''level'', ''message'', ''timestamp'', ''worker_start'', ''info'', ''Test'']"
      by code_simp
    then show ?thesis using that by auto
  qed
  have in_T: "k \<in> ?T \<and> (\<forall>u. v = VString u \<longrightarrow> u \<in> ?T)" if "(k, v) \<in> set (entry_fields e0)" for k v
    using that by (auto simp: fields json_of_f64_def split: if_splits)
  have "\<not> sublist ''worker-1'' t"
  proof
    assume "sublist ''worker-1'' t"
    then have "\<exists>k v. (k, v) \<in> set (entry_fields e0) \<and>
        (sublist ''worker-1'' k \<or> (\<exists>u. v = VString u \<and> sublist ''worker-1'' u))"
      by (intro shows_only_textsD [OF print(2) t _ plain_texts(7)]) (simp_all add: fields json_of_f64_def)
    then show False using in_T none by blast
  qed
  then have "\<not> sublist ''worker-1'' (to_json print e0)" by (simp add: to_json_def t)
  moreover have "le_worker_id e1 = Some ''worker-1''" "le_service_id e1 = Some ''service-1''"
    by (simp_all add: e1_def lg_def make_entry_def set_context_def Let_def)
  then have "sublist ''worker-1'' (to_json print e1)" "sublist ''service-1'' (to_json print e1)"
    using line_shows(5,6) [OF print(1)] plain_texts(7,8) by blast+
  moreover have "test_set_context print lvs \<longleftrightarrow> \<not> sublist ''worker-1'' (to_json print e0) \<and>
      sublist ''worker-1'' (to_json print e1) \<and> sublist ''service-1'' (to_json print e1)"
    by (simp add: e0_def e1_def lg_def test_set_context_def logged_def calls_def log_info_captured context_logger Let_def)
  ultimately show ?thesis by simp
qed

text \<open>
  The last test constructs a logger whose handler panics but never logs with it: a call
  would panic.
\<close>

theorem panicking_handler_crashes:
  "log_info lv (new_logger (Some (\<lambda>_ _. None)) Debug worker_id service_id) event message options w = None"
  by (simp add: log_info_def log_event_def should_log_def new_logger_def)

section \<open>A printer that satisfies the hypotheses\<close>

text \<open>Compact JSON without escapes; numbers are shown as a digit and nested values are cut.\<close>

definition value_text :: "Value \<Rightarrow> string" where
  "value_text v = (case v of VString s \<Rightarrow> [CHR 0x22] @ s @ [CHR 0x22] | VNull \<Rightarrow> ''null''
     | VBool b \<Rightarrow> (if b then ''true'' else ''false'') | VArray _ \<Rightarrow> ''[]'' | VObject _ \<Rightarrow> ''{}'' | _ \<Rightarrow> ''0'')"

definition field_text :: "string \<times> Value \<Rightarrow> string" where
  "field_text f = [CHR 0x22] @ fst f @ [CHR 0x22] @ [CHR '':''] @ value_text (snd f) @ [CHR '','']"

definition reference_print :: json_print where
  "reference_print fs = Some ([CHR ''{''] @ concat (map field_text fs) @ [CHR ''}''])"

lemma sublist_separated:
  assumes "c \<notin> set s" "sublist s (a @ [c] @ b)"
  shows "sublist s a \<or> sublist s b"
proof -
  from assms(2) obtain p q where pq: "a @ c # b = p @ s @ q" by (auto simp: sublist_def)
  then consider us where "a = p @ us" "us @ c # b = s @ q" | us where "c # b = us @ s @ q"
    by (auto simp: append_eq_append_conv2)
  then show ?thesis
  proof cases
    case 1
    then consider ws where "us = s @ ws" | ws where "s = us @ ws" "c # b = ws @ q"
      by (auto simp: append_eq_append_conv2)
    then show ?thesis
    proof cases
      case 1
      then show ?thesis using \<open>a = p @ us\<close> by auto
    next
      case 2
      then have "ws = []" using assms(1) by (cases ws) auto
      then show ?thesis using 2(1) \<open>a = p @ us\<close> by auto
    qed
  next
    case 2
    show ?thesis
    proof (cases us)
      case Nil
      then have "s = []" using 2 assms(1) by (cases s) auto
      then show ?thesis by simp
    next
      case (Cons d vs)
      then have "b = vs @ s @ q" using 2 by simp
      then show ?thesis by (auto simp: sublist_def)
    qed
  qed
qed

lemma sublist_separated_left: "c \<notin> set s \<Longrightarrow> sublist s (c # b) \<Longrightarrow> s = [] \<or> sublist s b"
  using sublist_separated [of c s "[]" b] by auto

lemma reference_shows_texts: "shows_texts reference_print"
proof -
  have "sublist s ([CHR ''{''] @ concat (map field_text fs) @ [CHR ''}''])" if f: "(k, VString s) \<in> set fs" for k s fs
  proof -
    from f obtain xs ys where fs: "fs = xs @ (k, VString s) # ys" by (meson split_list)
    show ?thesis
      unfolding sublist_def fs
      by (rule exI [of _ "[CHR ''{''] @ concat (map field_text xs) @ [CHR 0x22] @ k @ [CHR 0x22] @ [CHR '':''] @ [CHR 0x22]"],
          rule exI [of _ "[CHR 0x22] @ [CHR '',''] @ concat (map field_text ys) @ [CHR ''}'']"])
        (simp add: field_text_def value_text_def)
  qed
  then show ?thesis unfolding shows_texts_def reference_print_def by blast
qed

lemma reference_shows_only_texts: "shows_only_texts reference_print"
  unfolding shows_only_texts_def
proof (intro allI impI)
  fix fs t and s :: string
  assume t: "reference_print fs = Some t"
    and flat: "\<forall>v \<in> snd ` set fs. case v of VArray _ \<Rightarrow> False | VObject _ \<Rightarrow> False | _ \<Rightarrow> True"
    and s: "plain s" "CHR ''w'' \<in> set s" and sub: "sublist s t"
  have no: "CHR 0x22 \<notin> set s" "CHR '':'' \<notin> set s" "CHR '','' \<notin> set s" "CHR ''{'' \<notin> set s" "CHR ''}'' \<notin> set s"
    using s(1) by (auto simp: plain_def list_all_iff)
  have nil: "s \<noteq> []" using s(2) by auto
  have w: "\<not> sublist s u" if "CHR ''w'' \<notin> set u" for u using that s(2) by (auto simp: sublist_def)
  have text_of: "\<exists>u. v = VString u \<and> sublist s u" if "sublist s (value_text v)" "case v of VArray _ \<Rightarrow> False | VObject _ \<Rightarrow> False | _ \<Rightarrow> True" for v
  proof (cases v)
    case (VString u)
    then have "sublist s (u @ [CHR 0x22] @ [])"
      using that(1) sublist_separated_left [OF no(1)] nil by (auto simp: value_text_def)
    then have "sublist s u" using sublist_separated [OF no(1), of u "[]"] nil by auto
    then show ?thesis using VString by simp
  qed (use that w in \<open>auto simp: value_text_def split: if_splits\<close>)
  have field: "sublist s (fst f) \<or> sublist s (value_text (snd f)) \<or> sublist s rest" if "sublist s (field_text f @ rest)" for f rest
  proof -
    have "sublist s (CHR 0x22 # (fst f @ [CHR 0x22] @ (CHR '':'' # (value_text (snd f) @ [CHR '',''] @ rest))))"
      using that by (simp add: field_text_def)
    then have "sublist s (fst f) \<or> sublist s (CHR '':'' # (value_text (snd f) @ [CHR '',''] @ rest))"
      using sublist_separated_left [OF no(1)] sublist_separated [OF no(1)] nil by blast
    then show ?thesis
      using sublist_separated_left [OF no(2)] sublist_separated [OF no(3)] nil by blast
  qed
  have fields: "\<exists>k v. (k, v) \<in> set fs \<and> (sublist s k \<or> (\<exists>u. v = VString u \<and> sublist s u))" if "sublist s (concat (map field_text fs))"
    using that flat
  proof (induction fs)
    case (Cons f fs)
    have "sublist s (fst f) \<or> (\<exists>u. snd f = VString u \<and> sublist s u) \<or> sublist s (concat (map field_text fs))"
      using field [of f "concat (map field_text fs)"] Cons.prems text_of [of "snd f"] by auto
    then show ?case using Cons by (cases f) auto
  qed (simp add: nil)
  have "sublist s (concat (map field_text fs) @ [CHR ''}''] @ [])"
    using sub t sublist_separated_left [OF no(4)] nil by (auto simp: reference_print_def)
  then have "sublist s (concat (map field_text fs))" using sublist_separated [OF no(5), of "concat (map field_text fs)" "[]"] nil by auto
  then show "\<exists>k v. (k, v) \<in> set fs \<and> (sublist s k \<or> (\<exists>u. v = VString u \<and> sublist s u))" by (rule fields)
qed

end
