(* ===== verification/Test_Service.thy ===== *)
theory Test_Service
  imports Test_Wire Client_Service_Spec Example_Workers
begin

text \<open>
  The unit tests of rust/src/child.rs, run against the model: how a service finds its
  identity, and a service that answers a call over the mock router of the tests. Not here:
  the test that builds the router and the example worker and starts both as processes,
  with its helpers.
\<close>

section \<open>Workers and contexts\<close>

text \<open>The sum of the worker wraps, as in a release build.\<close>

definition add_worker :: "json_access \<Rightarrow> 'w worker" where
  "add_worker ja function args w =
     (if function = ''add'' then
        and_then (arg_or (as_i64 ja) ''missing a'' args 0) (\<lambda>a.
          and_then (arg_or (as_i64 ja) ''missing b'' args 1) (\<lambda>b. Inr (json_of_int (sint (a + b)))))
      else Inl (FunctionNotFound function), w)"

definition echo_worker :: "'w worker" where
  "echo_worker function args w =
     (if function = ''echo'' then Inr (case args of v # _ \<Rightarrow> v | [] \<Rightarrow> VNull)
      else Inl (FunctionNotFound function), w)"

definition resolves_default_peer_id_from_current_exe :: "service_os \<Rightarrow> string \<Rightarrow> bool" where
  "resolves_default_peer_id_from_current_exe os endpoint =
     unwrapped (resolve_peer_id os (new_context endpoint)) (\<lambda>peer_id. peer_id \<noteq> [])"

definition explicit_service_id_wins_over_other_sources :: "service_os \<Rightarrow> string \<Rightarrow> bool" where
  "explicit_service_id_wins_over_other_sources os endpoint =
     unwrapped (resolve_peer_id os (with_service_id ''explicit-service'' (new_context endpoint)))
       (\<lambda>peer_id. peer_id = ''explicit-service'')"

definition entrypoint_path_is_used_when_service_id_is_missing :: "service_os \<Rightarrow> string \<Rightarrow> string \<Rightarrow> bool" where
  "entrypoint_path_is_used_when_service_id_is_missing os endpoint entrypoint =
     unwrapped (resolve_peer_id os (with_entrypoint_path entrypoint (new_context endpoint)))
       (\<lambda>peer_id. so_canonicalize os entrypoint = Some peer_id)"

text \<open>The functions are sorted before they are compared.\<close>

definition namespace_timeout_and_registered_functions_are_recorded :: "string \<Rightarrow> bool" where
  "namespace_timeout_and_registered_functions_are_recorded endpoint \<longleftrightarrow>
     (let ctx = register_function ''mul'' ''Multiply two numbers'' (register_function ''add'' ''Add two numbers''
            (with_timeout 5000 (with_namespace ''custom'' (new_context endpoint))))
      in ctx_namespace ctx = ''custom'' \<and> ctx_request_timeout ctx = Some 5000 \<and>
         length (list_functions ctx) = 2 \<and> set (list_functions ctx) = {''add'', ''mul''})"

section \<open>The mock router\<close>

text \<open>The message, if one comes in time, must be a binary frame.\<close>

definition read_binary_frame :: "codec \<Rightarrow> ws_item \<Rightarrow> FrameParts option" where
  "read_binary_frame cd item = (case item of
     ItemOk (Binary bs) \<Rightarrow> (case mf_decode_frame cd bs of Inr frame \<Rightarrow> Some frame | Inl _ \<Rightarrow> None)
   | _ \<Rightarrow> None)"

datatype mock_status = MockWaiting | MockReturned | MockPanicked | MockClosed

text \<open>
  One connection of the mock router: from the frames it received, the items that the
  service reads and how far the task got. \<open>gone\<close> is what the service reads when the task
  ends without closing the socket.
\<close>

definition start_service_router ::
    "codec \<Rightarrow> string \<Rightarrow> f64 \<Rightarrow> ws_item \<Rightarrow> bytes list \<Rightarrow> ws_item list \<times> mock_status" where
  "start_service_router cd call_id ts gone received = (case received of
     [] \<Rightarrow> ([], MockWaiting)
   | register_bytes # rest \<Rightarrow> (case read_binary_frame cd (ItemOk (Binary register_bytes)) of
       None \<Rightarrow> ([gone], MockReturned)
     | Some reg_frame \<Rightarrow>
         if env_kind (fp_envelope reg_frame) \<noteq> MF_KIND_REGISTER then ([gone], MockPanicked)
         else (case mf_decode_register_body cd (fp_body_bytes reg_frame) of
           Inl _ \<Rightarrow> ([gone], MockPanicked)
         | Inr register_body \<Rightarrow>
             if reg_class register_body \<noteq> Service then ([gone], MockPanicked)
             else (case and_then (mf_encode_register_ack_body cd \<lparr>ack_accepted = True, ack_reason = None\<rparr>)
                     (mf_encode_frame cd \<lparr>env_v = 5, env_kind = MF_KIND_RESPONSE,
                        env_msg_id = env_msg_id (fp_envelope reg_frame), env_from = MF_ROUTER_PEER_ID,
                        env_to = reg_peer_id register_body, env_ts = 0\<rparr>) of
               Inl _ \<Rightarrow> ([gone], MockPanicked)
             | Inr ack_frame \<Rightarrow> (case and_then (encode_call_body cd \<lparr>call_function = ''add'',
                     call_args = [json_of_int 2, json_of_int 3], call_namespace = Some ''default''\<rparr>)
                   (mf_encode_frame cd (build_call_envelope call_id ts MF_ROUTER_PEER_ID (reg_peer_id register_body))) of
                 Inl _ \<Rightarrow> ([ItemOk (Binary ack_frame), gone], MockPanicked)
               | Inr call_frame \<Rightarrow>
                   (let sent = [ItemOk (Binary ack_frame), ItemOk (Binary call_frame)] in
                    case rest of
                      [] \<Rightarrow> (sent, MockWaiting)
                    | response_bytes # _ \<Rightarrow> (case read_binary_frame cd (ItemOk (Binary response_bytes)) of
                        None \<Rightarrow> (sent @ [gone], MockReturned)
                      | Some response_frame \<Rightarrow>
                          if env_kind (fp_envelope response_frame) \<noteq> MF_KIND_RESPONSE
                          then (sent @ [gone], MockPanicked)
                          else (case decode_response_body cd (fp_body_bytes response_frame) of
                            Inl _ \<Rightarrow> (sent @ [gone], MockPanicked)
                          | Inr response \<Rightarrow>
                              if resp_result response = json_of_int 5 then (sent @ [ItemOk Close], MockClosed)
                              else (sent @ [gone], MockPanicked)))))))))"

text \<open>
  The service and the mock router together. In each round the service runs on the items
  that the router wrote in answer to the frames of the round before; a run on more items
  writes the same frames and more, so the exchange settles.
\<close>

record mock_setup =
  mk_codec :: codec
  mk_os :: service_os
  mk_register_id :: string
  mk_disconnect_id :: string
  mk_call_id :: string
  mk_ts :: f64
  mk_gone :: ws_item
  mk_port :: u16

definition mock_context :: "mock_setup \<Rightarrow> ServiceContext" where
  "mock_context mk = \<lparr>ctx_namespace = ''default'', ctx_service_id = Some ''service-1'', ctx_entrypoint_path = None,
     ctx_endpoint = ws_url \<lparr>ep_host = ''127.0.0.1'', ep_port = mk_port mk\<rparr>, ctx_request_timeout = Some 2000,
     ctx_extra_functions = []\<rparr>"

definition mock_service ::
    "mock_setup \<Rightarrow> 'w worker \<Rightarrow> 'w ServiceWorld \<Rightarrow> ws_item list \<Rightarrow> (MultifrostError + unit) \<times> 'w ServiceWorld" where
  "mock_service mk worker w items =
     run (run_service_async (mk_codec mk) (mk_os mk) (Inr ()) None (mk_register_id mk) (mk_disconnect_id mk) worker
       (mock_context mk) items) w"

definition mock_reply :: "mock_setup \<Rightarrow> bytes list \<Rightarrow> ws_item list \<times> mock_status" where
  "mock_reply mk received = start_service_router (mk_codec mk) (mk_call_id mk) (mk_ts mk) (mk_gone mk) received"

fun mock_items :: "mock_setup \<Rightarrow> 'w worker \<Rightarrow> 'w ServiceWorld \<Rightarrow> nat \<Rightarrow> ws_item list" where
  "mock_items mk worker w 0 = []"
| "mock_items mk worker w (Suc n) =
     fst (mock_reply mk (sv_sent (snd (mock_service mk worker w (mock_items mk worker w n)))))"

text \<open>The test: the result of the service task after three rounds, for a worker.\<close>

definition run_service_async_over_mock_router :: "mock_setup \<Rightarrow> 'w worker \<Rightarrow> 'w ServiceWorld \<Rightarrow> bool" where
  "run_service_async_over_mock_router mk worker w \<longleftrightarrow>
     fst (mock_service mk worker w (mock_items mk worker w 3)) = Inr ()"

definition run_service_async_handles_calls_over_mock_router ::
    "mock_setup \<Rightarrow> json_access \<Rightarrow> unit ServiceWorld \<Rightarrow> bool" where
  "run_service_async_handles_calls_over_mock_router mk ja w =
     run_service_async_over_mock_router mk (add_worker ja) w"

section \<open>The tests of contexts pass\<close>

theorem context_tests_pass:
  assumes "\<And>p q. so_canonicalize os p = Some q \<Longrightarrow> q \<noteq> []" and "so_service_peer_id os = None"
    and "so_entrypoint_path os = None" and "so_current_exe os \<noteq> Some []" and "so_canonicalize os entrypoint \<noteq> None"
  shows "resolves_default_peer_id_from_current_exe os endpoint"
    "explicit_service_id_wins_over_other_sources os endpoint"
    "entrypoint_path_is_used_when_service_id_is_missing os endpoint entrypoint"
    "namespace_timeout_and_registered_functions_are_recorded endpoint"
proof -
  have ne: "canonical_peer_path os p \<noteq> []" if "p \<noteq> []" for p
  proof (cases "so_canonicalize os p")
    case (Some q)
    then show ?thesis using assms(1) [OF Some] by (simp add: canonical_peer_path_def)
  qed (use that in \<open>simp add: canonical_peer_path_def\<close>)
  have "canonical_peer_path os (case so_current_exe os of Some p \<Rightarrow> p | None \<Rightarrow> ''.'') \<noteq> []"
    by (rule ne, cases "so_current_exe os") (use assms(4) in simp_all)
  then show "resolves_default_peer_id_from_current_exe os endpoint"
    using assms(2,3)
    by (simp add: resolves_default_peer_id_from_current_exe_def resolve_peer_id_def new_context_def)
  show "explicit_service_id_wins_over_other_sources os endpoint"
    by (simp add: explicit_service_id_wins_over_other_sources_def resolve_peer_id_def with_service_id_def)
  show "entrypoint_path_is_used_when_service_id_is_missing os endpoint entrypoint"
    using assms(2,5)
    by (auto simp: entrypoint_path_is_used_when_service_id_is_missing_def resolve_peer_id_def
        with_entrypoint_path_def new_context_def canonical_peer_path_def)
  show "namespace_timeout_and_registered_functions_are_recorded endpoint"
    by (auto simp: namespace_timeout_and_registered_functions_are_recorded_def register_function_def
        with_timeout_def with_namespace_def new_context_def list_functions_def Let_def)
qed

section \<open>The service over the mock router\<close>

text \<open>The frames of the exchange survive the wire.\<close>

definition carries :: "codec \<Rightarrow> Envelope \<Rightarrow> bool" where
  "carries cd e \<longleftrightarrow> round_trips (enc_envelope cd) (dec_envelope cd) \<and> well_framed cd e"

lemma carries_frame:
  assumes "carries cd e"
  obtains f where "mf_encode_frame cd e b = Inr f" "mf_decode_frame cd f = Inr \<lparr>fp_envelope = e, fp_body_bytes = b\<rparr>"
proof -
  obtain f where "mf_encode_frame cd e b = Inr f"
    using client_frames.encode_succeeds assms unfolding carries_def by blast
  then show ?thesis using that client_frames.decode_encode assms unfolding carries_def by blast
qed

definition exchange_ok :: "mock_setup \<Rightarrow> f64 \<Rightarrow> bool" where
  "exchange_ok mk ts \<longleftrightarrow> (let cd = mk_codec mk in
     carries cd (build_register_envelope (mk_register_id mk) ts ''service-1'' Service) \<and>
     carries cd \<lparr>env_v = 5, env_kind = MF_KIND_RESPONSE, env_msg_id = mk_register_id mk, env_from = MF_ROUTER_PEER_ID,
       env_to = ''service-1'', env_ts = 0\<rparr> \<and>
     carries cd (build_call_envelope (mk_call_id mk) (mk_ts mk) MF_ROUTER_PEER_ID ''service-1'') \<and>
     carries cd (build_response_envelope ts ''service-1'' MF_ROUTER_PEER_ID (mk_call_id mk)) \<and>
     carries cd (build_disconnect_envelope ts ''service-1'' MF_ROUTER_PEER_ID (mk_disconnect_id mk)) \<and>
     round_trips (enc_register cd) (dec_register cd) \<and> encodes (enc_register cd) \<lparr>reg_peer_id = ''service-1'', reg_class = Service\<rparr> \<and>
     round_trips (enc_ack cd) (dec_ack cd) \<and> encodes (enc_ack cd) \<lparr>ack_accepted = True, ack_reason = None\<rparr> \<and>
     round_trips (enc_call cd) (dec_call cd) \<and>
     encodes (enc_call cd) \<lparr>call_function = ''add'', call_args = [json_of_int 2, json_of_int 3], call_namespace = Some ''default''\<rparr> \<and>
     round_trips (enc_response cd) (dec_response cd) \<and> encodes (enc_response cd) \<lparr>resp_result = json_of_int 5\<rparr>)"

lemma encoded:
  assumes "round_trips enc dec" "encodes enc x"
  obtains b where "enc x = Inr b" "dec b = Inr x"
  using assms by (cases "enc x") (auto simp: encodes_def round_tripsD)

lemma mock_peer_id: "resolve_peer_id os (mock_context mk) = Inr ''service-1''"
  by (simp add: resolve_peer_id_def mock_context_def)

abbreviation mock_register :: RegisterBody where
  "mock_register \<equiv> \<lparr>reg_peer_id = ''service-1'', reg_class = Service\<rparr>"

abbreviation mock_ack :: RegisterAckBody where
  "mock_ack \<equiv> \<lparr>ack_accepted = True, ack_reason = None\<rparr>"

abbreviation mock_call :: CallBody where
  "mock_call \<equiv> \<lparr>call_function = ''add'', call_args = [json_of_int 2, json_of_int 3], call_namespace = Some ''default''\<rparr>"

text \<open>The frames of the exchange and what their readers make of them.\<close>

definition exchange :: "mock_setup \<Rightarrow> f64 \<Rightarrow> bytes \<Rightarrow> bytes \<Rightarrow> bytes \<Rightarrow> bytes \<Rightarrow> bytes \<Rightarrow> bytes \<Rightarrow> bool" where
  "exchange mk ts rf rb af cf cb df \<longleftrightarrow> (let cd = mk_codec mk;
       call = build_call_envelope (mk_call_id mk) (mk_ts mk) MF_ROUTER_PEER_ID ''service-1'' in
     register_frame cd (mk_register_id mk) ts ''service-1'' Service = Inr rf \<and>
     read_binary_frame cd (ItemOk (Binary rf)) =
       Some \<lparr>fp_envelope = build_register_envelope (mk_register_id mk) ts ''service-1'' Service, fp_body_bytes = rb\<rparr> \<and>
     mf_decode_register_body cd rb = Inr mock_register \<and>
     and_then (mf_encode_register_ack_body cd mock_ack)
       (mf_encode_frame cd \<lparr>env_v = 5, env_kind = MF_KIND_RESPONSE, env_msg_id = mk_register_id mk,
          env_from = MF_ROUTER_PEER_ID, env_to = ''service-1'', env_ts = 0\<rparr>) = Inr af \<and>
     (\<forall>reason. register_reply cd reason (ItemOk (Binary af)) = Inr ()) \<and>
     and_then (encode_call_body cd mock_call) (mf_encode_frame cd call) = Inr cf \<and>
     mf_decode_frame cd cf = Inr \<lparr>fp_envelope = call, fp_body_bytes = cb\<rparr> \<and>
     dec_call cd cb = Inr mock_call \<and>
     disconnect_frame cd (mk_disconnect_id mk) ts ''service-1'' = Inr df)"

lemma exchange_frames:
  assumes "exchange_ok mk ts"
  shows "\<exists>rf rb af cf cb df. exchange mk ts rf rb af cf cb df"
proof -
  define cd where "cd = mk_codec mk"
  note ok = assms(1) [unfolded exchange_ok_def Let_def, folded cd_def]
  obtain rb where rb: "enc_register cd mock_register = Inr rb" "dec_register cd rb = Inr mock_register"
    using ok by (auto elim: encoded [of "enc_register cd" "dec_register cd"])
  obtain ab where ab: "enc_ack cd mock_ack = Inr ab" "dec_ack cd ab = Inr mock_ack"
    using ok by (auto elim: encoded [of "enc_ack cd" "dec_ack cd"])
  obtain cb where cb: "enc_call cd mock_call = Inr cb" "dec_call cd cb = Inr mock_call"
    using ok by (auto elim: encoded [of "enc_call cd" "dec_call cd"])
  have c: "carries cd (build_register_envelope (mk_register_id mk) ts ''service-1'' Service)"
    "carries cd \<lparr>env_v = 5, env_kind = MF_KIND_RESPONSE, env_msg_id = mk_register_id mk, env_from = MF_ROUTER_PEER_ID,
       env_to = ''service-1'', env_ts = 0\<rparr>"
    "carries cd (build_call_envelope (mk_call_id mk) (mk_ts mk) MF_ROUTER_PEER_ID ''service-1'')"
    "carries cd (build_disconnect_envelope ts ''service-1'' MF_ROUTER_PEER_ID (mk_disconnect_id mk))"
    using ok by blast+
  obtain rf where rf: "mf_encode_frame cd (build_register_envelope (mk_register_id mk) ts ''service-1'' Service) rb = Inr rf"
    "mf_decode_frame cd rf = Inr \<lparr>fp_envelope = build_register_envelope (mk_register_id mk) ts ''service-1'' Service, fp_body_bytes = rb\<rparr>"
    by (rule carries_frame [OF c(1)])
  obtain af where af: "mf_encode_frame cd \<lparr>env_v = 5, env_kind = MF_KIND_RESPONSE, env_msg_id = mk_register_id mk,
       env_from = MF_ROUTER_PEER_ID, env_to = ''service-1'', env_ts = 0\<rparr> ab = Inr af"
    "mf_decode_frame cd af = Inr \<lparr>fp_envelope = \<lparr>env_v = 5, env_kind = MF_KIND_RESPONSE, env_msg_id = mk_register_id mk,
       env_from = MF_ROUTER_PEER_ID, env_to = ''service-1'', env_ts = 0\<rparr>, fp_body_bytes = ab\<rparr>"
    by (rule carries_frame [OF c(2)])
  obtain cf where cf: "mf_encode_frame cd (build_call_envelope (mk_call_id mk) (mk_ts mk) MF_ROUTER_PEER_ID ''service-1'') cb = Inr cf"
    "mf_decode_frame cd cf = Inr \<lparr>fp_envelope = build_call_envelope (mk_call_id mk) (mk_ts mk) MF_ROUTER_PEER_ID ''service-1'',
       fp_body_bytes = cb\<rparr>"
    by (rule carries_frame [OF c(3)])
  obtain df where df: "mf_encode_frame cd (build_disconnect_envelope ts ''service-1'' MF_ROUTER_PEER_ID (mk_disconnect_id mk)) [] = Inr df"
    by (rule carries_frame [OF c(4)])
  have "exchange mk ts rf rb af cf cb df"
    by (simp add: exchange_def Let_def cd_def [symmetric] register_frame_def mf_encode_register_body_def rb rf read_binary_frame_def mf_decode_register_body_def
        mf_encode_register_ack_body_def ab af register_reply_def mf_decode_register_ack_body_def
        encode_call_body_def cb cf disconnect_frame_def df)
  then show ?thesis by blast
qed

text \<open>After the registration the mock router always writes the acknowledgement and the call.\<close>

lemma mock_reply_starts:
  assumes "exchange mk ts rf rb af cf cb df"
  shows "\<exists>xs. fst (mock_reply mk (rf # rest)) = ItemOk (Binary af) # ItemOk (Binary cf) # xs"
  using assms
  by (simp add: exchange_def mock_reply_def start_service_router_def build_register_envelope_def Let_def
      split: list.split option.split sum.split)

text \<open>The service writes its registration first, and ends well once it is acknowledged.\<close>

lemma mock_service_run:
  assumes ex: "exchange mk (mf_now_ts (sv_clock w)) rf rb af cf cb df"
    and socket: "\<And>f. sv_send_err w f = None" and fresh: "sv_sent w = []"
  shows "\<exists>rest. sv_sent (snd (mock_service mk worker w items)) = rf # rest"
    and "fst (mock_service mk worker w (ItemOk (Binary af) # xs)) = Inr ()"
proof -
  have frames: "register_frame (mk_codec mk) (mk_register_id mk) (mf_now_ts (sv_clock w)) ''service-1'' Service = Inr rf"
    "disconnect_frame (mk_codec mk) (mk_disconnect_id mk) (mf_now_ts (sv_clock w)) ''service-1'' = Inr df"
    "register_reply (mk_codec mk) reason (ItemOk (Binary af)) = Inr ()" for reason
    using ex by (simp_all add: exchange_def Let_def)
  note run = service_run [OF mock_peer_id [of "mk_os mk" mk] frames(1,2) socket, where worker = worker]
  show "\<exists>rest. sv_sent (snd (mock_service mk worker w items)) = rf # rest"
    using run [where items = items] fresh by (auto simp: mock_service_def split: sum.splits)
  show "fst (mock_service mk worker w (ItemOk (Binary af) # xs)) = Inr ()"
    using run [where items = "ItemOk (Binary af) # xs"] frames(3) by (auto simp: mock_service_def)
qed

text \<open>
  The assertions of the mock router do not decide the test. They fail in a task of their
  own, whose end the service takes for a closed connection: the test passes for every
  worker, also one that answers the call with a wrong value or an error.
\<close>

theorem mock_router_assertions_ignored:
  assumes "exchange_ok mk (mf_now_ts (sv_clock w))" and socket: "\<And>f. sv_send_err w f = None" and fresh: "sv_sent w = []"
  shows "run_service_async_over_mock_router mk worker w"
proof -
  obtain rf rb af cf cb df where ex: "exchange mk (mf_now_ts (sv_clock w)) rf rb af cf cb df"
    using exchange_frames [OF assms(1)] by blast
  obtain rest where "sv_sent (snd (mock_service mk worker w (mock_items mk worker w 2))) = rf # rest"
    using mock_service_run(1) [OF ex socket fresh] by blast
  then obtain xs where "mock_items mk worker w 3 = ItemOk (Binary af) # xs"
    using mock_reply_starts [OF ex, of rest] by (auto simp: numeral_eq_Suc)
  then show ?thesis
    using mock_service_run(2) [OF ex socket fresh] by (simp add: run_service_async_over_mock_router_def)
qed

text \<open>
  With the worker of the test the assertions hold: the service answers 2 + 3 with 5, the
  mock router closes the connection, and the exchange has settled.
\<close>

lemma add_worker_sum:
  assumes "json_access_ok ja"
  shows "add_worker ja ''add'' [json_of_int 2, json_of_int 3] st = (Inr (json_of_int 5), st)"
proof -
  have "as_i64 ja (json_of_int 2) = Some 2" "as_i64 ja (json_of_int 3) = Some 3"
    using assms [unfolded json_access_ok_def, THEN conjunct1, rule_format, of 2]
      assms [unfolded json_access_ok_def, THEN conjunct1, rule_format, of 3] by simp_all
  then show ?thesis by (simp add: add_worker_def arg_or_def)
qed

lemma add_worker_answers:
  assumes ok: "exchange_ok mk (mf_now_ts (sv_clock w))" and ex: "exchange mk ts rf rb af cf cb df"
    and socket: "\<And>f. sv_send_err w f = None" and ja: "json_access_ok ja" and w: "sv_sent w = [rf]"
  shows "\<exists>f reply. run (service_item (mk_codec mk) ''service-1'' (add_worker ja) (ItemOk (Binary cf))) w =
      (ServiceContinue, w\<lparr>sv_sent := [rf, f]\<rparr>) \<and>
    mf_decode_frame (mk_codec mk) f = Inr reply \<and> env_kind (fp_envelope reply) = MF_KIND_RESPONSE \<and>
    decode_response_body (mk_codec mk) (fp_body_bytes reply) = Inr \<lparr>resp_result = json_of_int 5\<rparr>"
proof -
  define cd where "cd = mk_codec mk"
  define call where "call = build_call_envelope (mk_call_id mk) (mk_ts mk) MF_ROUTER_PEER_ID ''service-1''"
  have frames: "mf_decode_frame cd cf = Inr \<lparr>fp_envelope = call, fp_body_bytes = cb\<rparr>" "dec_call cd cb = Inr mock_call"
    using ex by (simp_all add: exchange_def Let_def cd_def call_def)
  have env: "round_trips (enc_envelope cd) (dec_envelope cd)"
    "well_framed cd (build_response_envelope (mf_now_ts (sv_clock w)) ''service-1'' MF_ROUTER_PEER_ID (mk_call_id mk))"
    using ok by (simp_all add: exchange_ok_def carries_def Let_def cd_def)
  obtain b where b: "enc_response cd \<lparr>resp_result = json_of_int 5\<rparr> = Inr b" "dec_response cd b = Inr \<lparr>resp_result = json_of_int 5\<rparr>"
    using ok by (auto simp: exchange_ok_def Let_def cd_def elim: encoded [of "enc_response (mk_codec mk)" "dec_response (mk_codec mk)"])
  have out: "call_outcome cd (add_worker ja) \<lparr>fp_envelope = call, fp_body_bytes = cb\<rparr> (sv_worker w) =
      (Answer (Inr (json_of_int 5)), sv_worker w)"
    by (simp add: call_outcome_def frames(2) add_worker_sum [OF ja])
  have same: "w\<lparr>sv_worker := sv_worker w, sv_sent := sv_sent w @ [f]\<rparr> = w\<lparr>sv_sent := [rf, f]\<rparr>" for f
    using w by simp
  show ?thesis
    using service_item_answers [OF env(1) frames(1) _ _ out, of "''service-1''" b] env(2) b socket
    unfolding same
    by (auto simp: call_def build_call_envelope_def answer_envelope_def build_response_envelope_def mf_defs
        decode_response_body_def cd_def [symmetric])
qed

theorem mock_router_test_passes:
  assumes ok: "exchange_ok mk (mf_now_ts (sv_clock w))" and socket: "\<And>f. sv_send_err w f = None"
    and fresh: "sv_sent w = []" and ja: "json_access_ok ja"
  shows "run_service_async_handles_calls_over_mock_router mk ja w"
    and "snd (mock_reply mk (sv_sent (snd (mock_service mk (add_worker ja) w (mock_items mk (add_worker ja) w 2))))) = MockClosed"
    and "mock_items mk (add_worker ja) w 4 = mock_items mk (add_worker ja) w 3"
proof -
  show "run_service_async_handles_calls_over_mock_router mk ja w"
    using mock_router_assertions_ignored [OF ok socket fresh]
    by (simp add: run_service_async_handles_calls_over_mock_router_def)
  define cd ts where "cd = mk_codec mk" and "ts = mf_now_ts (sv_clock w)"
  obtain rf rb af cf cb df where ex: "exchange mk ts rf rb af cf cb df"
    using exchange_frames [OF ok] by (auto simp: ts_def)
  let ?run = "mock_service mk (add_worker ja) w"
  have frames: "register_frame cd (mk_register_id mk) ts ''service-1'' Service = Inr rf"
    "disconnect_frame cd (mk_disconnect_id mk) ts ''service-1'' = Inr df"
    "register_reply cd reason (ItemOk (Binary af)) = Inr ()" for reason
    using ex by (simp_all add: exchange_def Let_def cd_def)
  obtain f reply where f: "run (service_item cd ''service-1'' (add_worker ja) (ItemOk (Binary cf))) (w\<lparr>sv_sent := [rf]\<rparr>) =
      (ServiceContinue, w\<lparr>sv_sent := [rf, f]\<rparr>)" "mf_decode_frame cd f = Inr reply"
    "env_kind (fp_envelope reply) = MF_KIND_RESPONSE"
    "decode_response_body cd (fp_body_bytes reply) = Inr \<lparr>resp_result = json_of_int 5\<rparr>"
    using add_worker_answers [of mk "w\<lparr>sv_sent := [rf]\<rparr>", OF _ ex _ ja] ok socket by (auto simp: cd_def)
  note run = mock_service_def run_service_async_def mock_peer_id ptry_run sv_transmit_def send_disconnect_frame_def
    register_reply_def [of _ _ ItemEnd] cd_def [symmetric] ts_def [symmetric]
  have service: "sv_sent (snd (?run (ItemOk (Binary af) # ItemOk (Binary cf) # xs))) = [rf, f, df]"
    if "xs = [] \<or> xs = [ItemOk Close]" for xs
  proof -
    have "run (service_item cd ''service-1'' (add_worker ja) (ItemOk Close)) v = (ServiceBreak, v)" for v :: "unit ServiceWorld"
      by (simp add: service_item_def)
    then have "snd (run (service_loop cd ''service-1'' (add_worker ja) (ItemOk (Binary cf) # xs)) (w\<lparr>sv_sent := [rf]\<rparr>)) =
        w\<lparr>sv_sent := [rf, f]\<rparr>"
      using that f(1) by auto
    then show ?thesis using frames socket fresh by (simp add: run)
  qed
  have start: "sv_sent (snd (?run [])) = [rf]" using frames(1) socket fresh by (simp add: run)
  have reply: "mock_reply mk [rf] = ([ItemOk (Binary af), ItemOk (Binary cf)], MockWaiting)"
    "mock_reply mk [rf, f, df] = ([ItemOk (Binary af), ItemOk (Binary cf), ItemOk Close], MockClosed)"
    using ex f(2-4)
    by (simp_all add: exchange_def mock_reply_def start_service_router_def build_register_envelope_def Let_def
        cd_def [symmetric] read_binary_frame_def [of _ "ItemOk (Binary f)"])
  have items: "mock_items mk (add_worker ja) w 2 = [ItemOk (Binary af), ItemOk (Binary cf), ItemOk Close]"
    using reply start service [of "[]"] by (simp add: numeral_2_eq_2)
  then show "snd (mock_reply mk (sv_sent (snd (?run (mock_items mk (add_worker ja) w 2))))) = MockClosed"
    using reply(2) service by simp
  have "mock_items mk (add_worker ja) w 3 = mock_items mk (add_worker ja) w 2"
    using items reply(2) service by (simp add: numeral_3_eq_3 numeral_2_eq_2)
  then show "mock_items mk (add_worker ja) w 4 = mock_items mk (add_worker ja) w 3"
    by (simp add: numeral_eq_Suc)
qed

text \<open>The other worker of the tests knows no \<open>add\<close>: it answers with an error, and the test passes.\<close>

theorem mock_router_test_passes_echo:
  assumes "exchange_ok mk (mf_now_ts (sv_clock w))" and "\<And>f. sv_send_err w f = None" and "sv_sent w = []"
  shows "fst (echo_worker ''add'' args st) = Inl (FunctionNotFound ''add'') \<and>
    run_service_async_over_mock_router mk echo_worker w"
  using mock_router_assertions_ignored [OF assms] by (simp add: echo_worker_def)

text \<open>The hypotheses hold for the reference codec and identifiers of ordinary length.\<close>

lemma msgpack_exchange_ok:
  assumes "mk_codec mk = msgpack"
    and "length (mk_register_id mk) < 1000" "length (mk_call_id mk) < 1000" "length (mk_disconnect_id mk) < 1000"
  shows "exchange_ok mk ts"
proof -
  have "well_framed msgpack (build_register_envelope (mk_register_id mk) ts ''service-1'' Service)"
    "well_framed msgpack \<lparr>env_v = 5, env_kind = MF_KIND_RESPONSE, env_msg_id = mk_register_id mk,
       env_from = MF_ROUTER_PEER_ID, env_to = ''service-1'', env_ts = 0\<rparr>"
    "well_framed msgpack (build_call_envelope (mk_call_id mk) (mk_ts mk) MF_ROUTER_PEER_ID ''service-1'')"
    "well_framed msgpack (build_response_envelope ts ''service-1'' MF_ROUTER_PEER_ID (mk_call_id mk))"
    "well_framed msgpack (build_disconnect_envelope ts ''service-1'' MF_ROUTER_PEER_ID (mk_disconnect_id mk))"
    using assms(2-)
    by (intro msgpack_well_framed; simp add: build_register_envelope_def build_call_envelope_def build_response_envelope_def
        build_disconnect_envelope_def mf_defs PROTOCOL_VERSION_def)+
  moreover have "encodes (enc_register msgpack) mock_register" "encodes (enc_ack msgpack) mock_ack"
    "encodes (enc_call msgpack) mock_call" "encodes (enc_response msgpack) \<lparr>resp_result = json_of_int 5\<rparr>"
    by (simp_all add: encodes_def msgpack_def mk_enc_def str_ok_def call_ok_def args_ok_def json_of_int_def)
  ultimately show ?thesis by (simp add: exchange_ok_def Let_def assms(1) carries_def)
qed

end
