(* ===== verification/Spawned_Service.thy ===== *)
theory Spawned_Service
  imports Example_Clients
begin

text \<open>
  Programs that start their own service. The started process becomes live at its own time,
  when the router has handled its registration: calling it at once, as
  rust/examples/spawn.rs does, races with that, and waiting for it, as the test of
  rust/src/child.rs does, ends well if it registers before the deadline.
\<close>

section \<open>The started process registers\<close>

definition service_joins :: "'w surroundings \<Rightarrow> string \<Rightarrow> f64 \<Rightarrow> 'w example_run \<Rightarrow> 'w example_run" where
  "service_joins es m ts st = (case register_frame (es_codec es) m ts (es_service es) Service of
     Inl _ \<Rightarrow> st
   | Inr f \<Rightarrow> st\<lparr>ex_dep := (ex_dep st)\<lparr>dp_router :=
       snd (run (handshake (es_codec es) (es_service_sink es) (ItemOk (Binary f))) (dp_router (ex_dep st)))\<rparr>\<rparr>)"

text \<open>The messages about a service that is absent or joins can be written too.\<close>

definition join_wire_ok :: "'w surroundings \<Rightarrow> string \<Rightarrow> f64 \<Rightarrow> bool" where
  "join_wire_ok es m ts \<longleftrightarrow>
     (let cd = es_codec es; target = es_service es in
      well_framed cd (build_register_envelope m ts target Service) \<and>
      (\<forall>t. well_framed cd (build_envelope KIND_RESPONSE m ROUTER_PEER_ID target t)) \<and>
      enc_register cd \<lparr>reg_peer_id = target, reg_class = Service\<rparr> \<in> range Inr)"

definition absent_wire_ok :: "'w surroundings \<Rightarrow> bool" where
  "absent_wire_ok es \<longleftrightarrow>
     (let cd = es_codec es in
      enc_qexists cd (presence (es_service es) None) \<in> range Inr \<and>
      (\<forall>n t. well_framed cd (build_envelope KIND_ERROR (es_ids es n) ROUTER_PEER_ID ROUTER_PEER_ID t)) \<and>
      enc_error cd (build_error_body ''peer_not_found'' ''call target not found'') \<in> range Inr)"

definition service_absent :: "'w surroundings \<Rightarrow> 'w example_run \<Rightarrow> bool" where
  "service_absent es st \<longleftrightarrow> w_peers (dp_router (ex_dep st)) (es_service es) = None"

lemma service_joins_live:
  assumes "wire_ok es" and "join_wire_ok es m ts" and "caller_open es st" and "service_absent es st"
  shows "is_connected es (service_joins es m ts st) \<and> ex_out (service_joins es m ts st) = ex_out st \<and>
    ex_effects (service_joins es m ts st) = ex_effects st \<and> ex_next (service_joins es m ts st) = ex_next st \<and>
    (\<forall>x. x \<noteq> es_service es \<longrightarrow>
      w_peers (dp_router (ex_dep (service_joins es m ts st))) x = w_peers (dp_router (ex_dep st)) x)"
proof -
  let ?cd = "es_codec es" and ?w = "dp_router (ex_dep st)" and ?pid = "es_service es" and ?d = "es_service_sink es"
  have wf: "well_framed ?cd (build_register_envelope m ts ?pid Service)"
    "well_framed ?cd (build_envelope KIND_RESPONSE m ROUTER_PEER_ID ?pid (clock_ts ?w))"
    using assms(2) by (simp_all add: join_wire_ok_def Let_def)
  obtain rb ab where rb: "enc_register ?cd \<lparr>reg_peer_id = ?pid, reg_class = Service\<rparr> = Inr rb"
    and ab: "enc_ack ?cd build_ack_body = Inr ab"
    using assms(1,2) by (auto simp: wire_ok_def join_wire_ok_def Let_def)
  obtain f where f: "register_frame ?cd m ts ?pid Service = Inr f"
    using client_frames.encode_succeeds [OF wf(1), of rb] rb
    by (auto simp: register_frame_def mf_encode_register_body_def)
  obtain a where a: "ack_frame ?cd KIND_RESPONSE (clock_ts ?w) m ?pid = Inr a"
    using router_frames.encode_succeeds [OF wf(2), of ab] ab
    by (auto simp: ack_frame_def encode_register_ack_body_def)
  have ok: "w_peers ?w ?pid = None" "w_send_err ?w ?d a = None"
    using assms(3,4) by (simp_all add: service_absent_def caller_open_def Let_def)
  have "run (handshake ?cd ?d (ItemOk (Binary f))) ?w = ((Some ?pid, Inr (Some (?pid, Service))),
      ?w\<lparr>w_peers := (w_peers ?w)(?pid \<mapsto> fresh_record (w_instant ?w) ?pid Service ?d), w_sent := w_sent ?w @ [(?d, a)]\<rparr>)"
    using registration_round [OF wire_okD(1-3) [OF assms(1)] wf(1) f wf(2) a ok, of "[]"] by blast
  then show ?thesis
    using f assms(3)
    by (auto simp: service_joins_def connection_defs Let_def live_def fresh_record_def registry_wf_def)
qed

section \<open>Calling at once\<close>

lemma ex_call_misses:
  assumes "wire_ok es" and "absent_wire_ok es" and "caller_open es st" and "service_absent es st"
    and "caller_handle es handle"
    and "fn \<in> {''add'', ''multiply'', ''factorial'', ''fibonacci''}" and "args = map json_of_int ns" and "length ns \<le> 2"
  shows "\<exists>st'. ex_call es handle from_value fn args st = (Some (Inl (RouterUnavailable ''call target not found'')), st') \<and>
    ex_out st' = ex_out st \<and> ex_effects st' = ex_effects st"
proof -
  let ?cd = "es_codec es" and ?n = "ex_next st" and ?tr = "cr_transport handle" and ?dep = "ex_dep st"
  let ?e = "build_call_envelope (es_ids es ?n) (es_ts es ?n) (ct_peer_id ?tr) (es_service es)"
  have id: "ct_peer_id ?tr = es_uuid es" "ct_default_target_peer_id ?tr = Some (es_service es)"
    using assms(5) by (simp_all add: caller_handle_def)
  have wf: "well_framed ?cd ?e"
    "well_framed ?cd (build_envelope KIND_ERROR (es_ids es ?n) ROUTER_PEER_ID ROUTER_PEER_ID (clock_ts (dp_router ?dep)))"
    using assms(1,2) id by (simp_all add: wire_ok_def absent_wire_ok_def Let_def)
  have "enc_call ?cd \<lparr>call_function = fn, call_args = args, call_namespace = None\<rparr> \<in> range Inr"
    using assms(1,6-8) unfolding wire_ok_def Let_def by blast
  then obtain cb where cb: "enc_call ?cd \<lparr>call_function = fn, call_args = args, call_namespace = None\<rparr> = Inr cb" by blast
  obtain f where f: "mf_encode_frame ?cd ?e cb = Inr f" using client_frames.encode_succeeds [OF wf(1)] by blast
  have req: "call_request ?cd (es_ids es ?n) (es_ts es ?n) ?tr (es_service es) fn args = Inr (es_ids es ?n, f)"
    using cb f by (simp add: call_request_def encode_call_body_def Let_def build_call_envelope_def)
  obtain eb where eb: "enc_error ?cd (build_error_body ''peer_not_found'' ''call target not found'') = Inr eb"
    using assms(2) by (auto simp: absent_wire_ok_def Let_def)
  obtain g where g: "error_frame ?cd (clock_ts (dp_router ?dep)) (es_ids es ?n) ''peer_not_found'' ''call target not found'' = Inr g"
    using router_frames.encode_succeeds [OF wf(2), of eb] eb by (auto simp: error_frame_def encode_error_body_def)
  have st: "idle ?n (dp_client ?dep)" "live (dp_router ?dep) (es_service es) = None"
    "\<And>k g. w_send_err (dp_router ?dep) k g = None" "es_caller_sink es \<noteq> es_service_sink es"
    using assms(3,4) by (simp_all add: caller_open_def service_absent_def live_def Let_def)
  show ?thesis
    using whole_call_missing [where from_value = from_value and worker = "es_worker es" and ids = "es_ids es" and n = ?n,
        OF wire_okD(1,8) [OF assms(1)] wf(1) req st(2,3) wf(2) g st(1,4)] req id
    by (auto simp: ex_call_def handle_call_request_def default_call_request_def Let_def)
qed

lemma sbind_lift: "sbind (slift (Inr a)) f st = f a st"
  by (simp add: sbind_def slift_def)

lemma sbind_err: "m st = (Some (Inl err), st') \<Longrightarrow> sbind m f st = (Some (Inl err), st')"
  by (simp add: sbind_def)

text \<open>
  C31: the example \<open>spawn\<close> races with the worker it starts. If the worker's registration has
  not reached the router when the program makes its first call, the program has printed
  that the worker has started, the call fails with \<open>RouterUnavailable\<close>, and the program
  ends with that error, without stopping the process.
\<close>

theorem spawn_races_with_worker:
  assumes "wire_ok es" and "absent_wire_ok es" and "can_connect es st" and "service_absent es st"
    and "launch (spawn_command windows canonicalize (es_service es) (es_service es) None) = Inr child"
  shows "\<exists>st'. spawn_main rd es windows canonicalize launch (es_service es) st =
      (Some (Inl (RouterUnavailable ''call target not found'')), st') \<and>
    ex_out st' = ex_out st @ [''Spawning math worker...'', ''Worker started!'' @ nl, ''Calling remote functions...'' @ nl] \<and>
    ex_effects st' = ex_effects st"
proof -
  let ?st = "st\<lparr>ex_out := ex_out st @ [''Spawning math worker...'']\<rparr>" and ?sp = "\<lparr>svp_child = Some child\<rparr>"
  have spawned: "spawn_with_options windows canonicalize launch (es_service es) (es_service es) default_spawn_options = Inr ?sp"
    using assms(5) by (simp add: spawn_with_options_def default_spawn_options_def)
  have "can_connect es ?st" using assms(3) by (simp add: can_connect_def)
  then obtain handle st1 where c: "ex_connect es (es_service es) 10000 ?st = (Some (Inr handle), st1)"
      "caller_handle es handle" "caller_open es st1" "service_absent es st1"
      "ex_out st1 = ex_out ?st" "ex_effects st1 = ex_effects ?st"
    using ex_connect_connects [OF assms(1), of ?st 10000] assms(4) by (auto simp: service_absent_def)
  let ?handle = "with_service_process ?sp handle"
  let ?st2 = "st1\<lparr>ex_out := ex_out st1 @ [''Worker started!'' @ nl, ''Calling remote functions...'' @ nl]\<rparr>"
  have "caller_open es ?st2" "service_absent es ?st2"
    using c(3,4) by (simp_all add: caller_open_def service_absent_def)
  then obtain st3 where st3: "ex_call es ?handle (fv_i64 rd) ''add'' (map to_json_arg [ArgI32 10, ArgI32 20]) ?st2 =
      (Some (Inl (RouterUnavailable ''call target not found'')), st3)" "ex_out st3 = ex_out ?st2" "ex_effects st3 = ex_effects ?st2"
    using ex_call_misses [OF assms(1,2), of ?st2 ?handle "''add''" "map to_json_arg [ArgI32 10, ArgI32 20]" "[10, 20]"] c(2)
    by (auto simp: sint_uint)
  have "spawn_main rd es windows canonicalize launch (es_service es) st =
      (Some (Inl (RouterUnavailable ''call target not found'')), st3)"
    using st3(1) c(1) unfolding spawn_main_def sbind_println spawned sbind_lift Let_def
    by (simp add: sbind_def sbind_println print_call_def handle_start_def slift_def println_def)
  then show ?thesis using st3(2,3) c(5,6) by simp
qed

section \<open>Waiting for the service\<close>

text \<open>
  \<open>wait_for_peer_exists\<close>: each round asks the router and, if the answer is no, reads the
  clock and sleeps 50 ms. The list gives for each round the instant that is read and what
  the rest of the system does during the sleep; \<open>Polling\<close> is a loop that has not ended
  yet. A failed query panics, like the deadline.
\<close>

datatype wait_result = Appeared | Panicked | Polling

fun wait_for_peer_exists ::
    "'w surroundings \<Rightarrow> ConnectionRuntime \<Rightarrow> string \<Rightarrow> nat \<Rightarrow> (nat \<times> ('w example_run \<Rightarrow> 'w example_run)) list \<Rightarrow>
     'w example_run \<Rightarrow> wait_result \<times> 'w example_run" where
  "wait_for_peer_exists es handle peer_id deadline rounds st =
     (case ex_query_peer_exists es handle peer_id st of
        (Some (Inr True), st') \<Rightarrow> (Appeared, st')
      | (Some (Inr False), st') \<Rightarrow>
          (case rounds of
             [] \<Rightarrow> (Polling, st')
           | (now, others) # rest \<Rightarrow>
               if deadline \<le> now then (Panicked, st')
               else wait_for_peer_exists es handle peer_id deadline rest (others st'))
      | (Some (Inl _), st') \<Rightarrow> (Panicked, st')
      | (None, st') \<Rightarrow> (Polling, st'))"

declare wait_for_peer_exists.simps [simp del]

text \<open>
  While the service is absent and some identities are free; what the others do in a round
  keeps that, and the caller's connection open.
\<close>

definition waiting :: "'w surroundings \<Rightarrow> string set \<Rightarrow> 'w example_run \<Rightarrow> bool" where
  "waiting es free st \<longleftrightarrow> caller_open es st \<and> service_absent es st \<and> (\<forall>x \<in> free. w_peers (dp_router (ex_dep st)) x = None)"

definition unseen :: "'w example_run \<Rightarrow> 'w example_run \<Rightarrow> bool" where
  "unseen st st' \<longleftrightarrow> ex_out st' = ex_out st \<and> ex_effects st' = ex_effects st"

definition quiet :: "'w surroundings \<Rightarrow> string set \<Rightarrow> ('w example_run \<Rightarrow> 'w example_run) \<Rightarrow> bool" where
  "quiet es free others \<longleftrightarrow> (\<forall>st. waiting es free st \<longrightarrow> waiting es free (others st) \<and> unseen st (others st))"

lemma quiet_id: "quiet es free id"
  by (simp add: quiet_def unseen_def)

lemma ex_query_absent:
  assumes "wire_ok es" and "absent_wire_ok es" and "caller_handle es handle" and "waiting es free st"
  shows "\<exists>st'. ex_query_peer_exists es handle (es_service es) st = (Some (Inr False), st') \<and>
    waiting es free st' \<and> unseen st st'"
proof -
  have none: "live (dp_router (ex_dep st)) (es_service es) = None" and op: "caller_open es st"
    using assms(4) by (simp_all add: waiting_def service_absent_def live_def)
  obtain b where "enc_qexists (es_codec es) (presence (es_service es) (live (dp_router (ex_dep st)) (es_service es))) = Inr b"
    using assms(2) none by (auto simp: absent_wire_ok_def Let_def)
  from ex_query_answers [OF assms(1) op assms(3) this] show ?thesis
    using none assms(4) by (auto simp: waiting_def service_absent_def unseen_def)
qed

lemma wait_round:
  assumes "wire_ok es" and "absent_wire_ok es" and "caller_handle es handle" and "waiting es free st"
  shows "\<exists>st'. waiting es free st' \<and> unseen st st' \<and> (\<forall>deadline now others rest.
      wait_for_peer_exists es handle (es_service es) deadline ((now, others) # rest) st =
        (if deadline \<le> now then (Panicked, st')
         else wait_for_peer_exists es handle (es_service es) deadline rest (others st')))"
  using ex_query_absent [OF assms] by (auto simp: wait_for_peer_exists.simps [where rounds = "_ # _"])

lemma wait_quiet_rounds:
  assumes "wire_ok es" and "absent_wire_ok es" and "caller_handle es handle"
    and "\<forall>(now, others) \<in> set early. now < deadline \<and> quiet es free others" and "waiting es free st"
  shows "\<exists>st'. wait_for_peer_exists es handle (es_service es) deadline (early @ rest) st =
      wait_for_peer_exists es handle (es_service es) deadline rest st' \<and> waiting es free st' \<and> unseen st st'"
  using assms(4,5)
proof (induction early arbitrary: st)
  case Nil
  then show ?case by (auto simp: unseen_def)
next
  case (Cons r early)
  obtain now others where r: "r = (now, others)" "now < deadline" "quiet es free others"
    using Cons.prems(1) by (cases r) simp
  obtain st1 where st1: "waiting es free st1" "unseen st st1"
    "wait_for_peer_exists es handle (es_service es) deadline ((now, others) # early @ rest) st =
      wait_for_peer_exists es handle (es_service es) deadline (early @ rest) (others st1)"
    using wait_round [OF assms(1-3) Cons.prems(2)] r(2) by (meson not_less)
  moreover have "waiting es free (others st1)" "unseen st1 (others st1)"
    using r(3) st1(1) by (simp_all add: quiet_def)
  ultimately show ?case
    using Cons.IH [of "others st1"] Cons.prems(1) r(1) by (auto simp: unseen_def)
qed

text \<open>
  The loop ends well if the service registers in a round before the deadline, and panics
  at the deadline if it does not.
\<close>

lemma wait_ends_well:
  assumes "wire_ok es" and "absent_wire_ok es" and "join_wire_ok es m ts" and "caller_handle es handle"
    and "\<forall>(now, others) \<in> set early. now < deadline \<and> quiet es free others" and "now < deadline"
    and "waiting es free st" and "es_service es \<notin> free"
  shows "\<exists>st'. wait_for_peer_exists es handle (es_service es) deadline (early @ (now, service_joins es m ts) # rest) st =
      (Appeared, st') \<and> is_connected es st' \<and> unseen st st' \<and> (\<forall>x \<in> free. w_peers (dp_router (ex_dep st')) x = None)"
proof -
  let ?wait = "wait_for_peer_exists es handle (es_service es) deadline" and ?rest = "(now, service_joins es m ts) # rest"
  obtain st1 where st1: "?wait (early @ ?rest) st = ?wait ?rest st1" "waiting es free st1" "unseen st st1"
    using wait_quiet_rounds [OF assms(1,2,4,5,7)] by blast
  obtain st2 where st2: "?wait ?rest st1 = ?wait rest (service_joins es m ts st2)" "waiting es free st2" "unseen st1 st2"
    using wait_round [OF assms(1,2,4) st1(2)] assms(6) by (meson not_less)
  let ?st3 = "service_joins es m ts st2"
  have joined: "is_connected es ?st3" "unseen st2 ?st3" "\<forall>x \<in> free. w_peers (dp_router (ex_dep ?st3)) x = None"
    using service_joins_live [OF assms(1,3), of st2] st2(2) assms(8) unfolding waiting_def unseen_def by (metis (no_types))+
  obtain st4 where "ex_query_peer_exists es handle (es_service es) ?st3 = (Some (Inr True), st4)"
    "is_connected es st4" "unseen ?st3 st4" "w_peers (dp_router (ex_dep st4)) = w_peers (dp_router (ex_dep ?st3))"
    using ex_query_finds [OF assms(1) joined(1) assms(4)] by (auto simp: unseen_def)
  then show ?thesis
    using st1(1,3) st2(1,3) joined(2,3) by (auto simp: wait_for_peer_exists.simps [where rounds = rest] unseen_def)
qed

theorem wait_times_out:
  assumes "wire_ok es" and "absent_wire_ok es" and "caller_handle es handle"
    and "\<forall>(now, others) \<in> set early. now < deadline \<and> quiet es free others" and "deadline \<le> now"
    and "waiting es free st"
  shows "fst (wait_for_peer_exists es handle (es_service es) deadline (early @ (now, others) # rest) st) = Panicked"
proof -
  obtain st1 where st1: "wait_for_peer_exists es handle (es_service es) deadline (early @ (now, others) # rest) st =
      wait_for_peer_exists es handle (es_service es) deadline ((now, others) # rest) st1" "waiting es free st1"
    using wait_quiet_rounds [OF assms(1-4,6)] by blast
  then show ?thesis
    using wait_round [OF assms(1-3) st1(2)] assms(5) by (metis fst_conv)
qed

section \<open>Instances\<close>

text \<open>The reference codec carries these messages as well.\<close>

lemma msgpack_absent_wire_ok:
  assumes "es_codec es = msgpack" and len: "\<And>n. length (es_ids es n) \<le> 100" "length (es_service es) \<le> 100"
  shows "absent_wire_ok es"
proof -
  have wf: "well_framed msgpack (build_envelope KIND_ERROR (es_ids es n) ROUTER_PEER_ID ROUTER_PEER_ID t)" for n t
    using len(1) [of n] by (intro msgpack_well_framed) (simp_all add: build_envelope_def kind_defs ROUTER_PEER_ID_def)
  have "str_ok (es_service es)" using len(2) by (simp add: str_ok_def)
  then show ?thesis
    using wf assms(1)
    by (simp add: absent_wire_ok_def Let_def presence_def msgpack_def mk_enc_def build_error_body_def error_ok_def str_ok_def)
qed

lemma msgpack_join_wire_ok:
  assumes "es_codec es = msgpack" and "length m \<le> 100" and "length (es_service es) \<le> 100"
  shows "join_wire_ok es m ts"
proof -
  have "well_framed msgpack (build_register_envelope m ts (es_service es) Service)"
    "well_framed msgpack (build_envelope KIND_RESPONSE m ROUTER_PEER_ID (es_service es) t)" for t
    using assms(2,3)
    by (auto intro!: msgpack_well_framed
        simp: build_register_envelope_def build_envelope_def mf_defs kind_defs ROUTER_PEER_ID_def PROTOCOL_VERSION_def)
  moreover have "str_ok (es_service es)" using assms(3) by (simp add: str_ok_def)
  ultimately show ?thesis
    using assms(1) by (simp add: join_wire_ok_def Let_def msgpack_def mk_enc_def)
qed

theorem spawn_races_with_worker_witness:
  "\<exists>st'. spawn_main demo_readers (demo_surroundings\<lparr>es_service := ''/w''\<rparr>) False (\<lambda>_. None) (\<lambda>_. Inr 99) ''/w'' demo_run =
      (Some (Inl (RouterUnavailable ''call target not found'')), st') \<and>
    ex_out st' = [''Spawning math worker...'', ''Worker started!'' @ nl, ''Calling remote functions...'' @ nl] \<and>
    ex_effects st' = []"
proof -
  let ?es = "demo_surroundings\<lparr>es_service := ''/w''\<rparr>"
  have ok: "wire_ok ?es" "absent_wire_ok ?es"
    by (auto intro!: msgpack_wire_ok msgpack_absent_wire_ok simp: demo_surroundings_def)
  have start: "can_connect ?es demo_run" "service_absent ?es demo_run"
    using scene_wf
    by (simp_all add: can_connect_def service_absent_def demo_surroundings_def demo_run_def Let_def demo_start_def scene_def)
  have e: "es_service ?es = ''/w''" "ex_out demo_run = []" "ex_effects demo_run = []"
    by (simp_all add: demo_run_def)
  show ?thesis
    using spawn_races_with_worker [where launch = "\<lambda>_. Inr 99" and windows = False and canonicalize = "\<lambda>_. None" and child = 99
        and rd = demo_readers, OF ok start refl]
    unfolding e by (simp only: append_Nil)
qed

end
