(* ===== verification/Test_Deployment.thy ===== *)
theory Test_Deployment
  imports Spawned_Service
begin

text \<open>
  The test of rust/src/child.rs that builds the router and a worker, starts the worker as a
  service process and talks to it over two connections. What cargo, the operating system
  and the other processes do are arguments.
\<close>

section \<open>Building and the environment\<close>

text \<open>
  \<open>be_cargo\<close> says whether \<open>cargo\<close> succeeds with these arguments, in a given directory or
  the current one.
\<close>

record build_env =
  be_manifest_dir :: string
  be_parent :: "string \<Rightarrow> string option"
  be_join :: "string \<Rightarrow> string \<Rightarrow> string"
  be_cargo :: "string option \<Rightarrow> string list \<Rightarrow> bool"

definition repo_root :: "build_env \<Rightarrow> string option" where
  "repo_root be = be_parent be (be_manifest_dir be)"

definition build_router_binary :: "build_env \<Rightarrow> bool" where
  "build_router_binary be = (case repo_root be of
     None \<Rightarrow> False
   | Some dir \<Rightarrow> be_cargo be None [''build'', ''--manifest-path'', be_join be dir ''router/Cargo.toml'',
       ''--quiet'', ''--bin'', ''multifrost-router''])"

definition build_math_worker_example :: "build_env \<Rightarrow> bool" where
  "build_math_worker_example be =
     be_cargo be (Some (be_manifest_dir be)) [''build'', ''--example'', ''math_worker'', ''--quiet'']"

definition router_binary_path :: "build_env \<Rightarrow> string option" where
  "router_binary_path be = map_option (\<lambda>dir. be_join be dir ''router/target/debug/multifrost-router'') (repo_root be)"

definition math_worker_entrypoint_path :: "build_env \<Rightarrow> string" where
  "math_worker_entrypoint_path be = be_join be (be_manifest_dir be) ''examples/math_worker.rs''"

definition math_worker_binary_path :: "build_env \<Rightarrow> string" where
  "math_worker_binary_path be = be_join be (be_manifest_dir be) ''target/debug/examples/math_worker''"

record EnvVarGuard =
  guard_key :: string
  guard_original :: "string option"

definition drop_guard :: "EnvVarGuard \<Rightarrow> (string \<rightharpoonup> string) \<Rightarrow> (string \<rightharpoonup> string)" where
  "drop_guard g env = (case guard_original g of
     Some v \<Rightarrow> env(guard_key g \<mapsto> v)
   | None \<Rightarrow> env(guard_key g := None))"

definition set_env_var_str :: "string \<Rightarrow> string \<Rightarrow> (string \<rightharpoonup> string) \<Rightarrow> EnvVarGuard \<times> (string \<rightharpoonup> string)" where
  "set_env_var_str key v env = (\<lparr>guard_key = key, guard_original = env key\<rparr>, env(key \<mapsto> v))"

lemma guard_restores: "set_env_var_str key v env = (g, env') \<Longrightarrow> drop_guard g env' = env"
  by (auto simp: set_env_var_str_def drop_guard_def fun_upd_idem split: option.splits)

section \<open>A test with two connections\<close>

text \<open>
  The state is that of a program with a connection, the second connection, and the
  environment variables. A test step has no result when it panics or does not end.
\<close>

record 'w two_callers =
  tc_run :: "'w example_run"
  tc_other :: ClientSystem
  tc_env :: "string \<rightharpoonup> string"

type_synonym ('w, 'a) test = "'w two_callers \<Rightarrow> 'a option \<times> 'w two_callers"

definition tbind :: "('w, 'a) test \<Rightarrow> ('a \<Rightarrow> ('w, 'b) test) \<Rightarrow> ('w, 'b) test" where
  "tbind m f tc = (case m tc of (Some a, tc') \<Rightarrow> f a tc' | (None, tc') \<Rightarrow> (None, tc'))"

definition tunwrap :: "('w, 'a) script \<Rightarrow> ('w, 'a) test" where
  "tunwrap m tc = (case m (tc_run tc) of (r, st) \<Rightarrow>
     ((case r of Some (Inr a) \<Rightarrow> Some a | _ \<Rightarrow> None), tc\<lparr>tc_run := st\<rparr>))"

definition tassert :: "bool \<Rightarrow> ('w, unit) test" where
  "tassert b tc = (if b then Some () else None, tc)"

definition switch_caller :: "'w two_callers \<Rightarrow> 'w two_callers" where
  "switch_caller tc = tc\<lparr>tc_run := (tc_run tc)\<lparr>ex_dep := (ex_dep (tc_run tc))\<lparr>dp_client := tc_other tc\<rparr>\<rparr>,
     tc_other := dp_client (ex_dep (tc_run tc))\<rparr>"

definition on_second :: "('w, 'a) test \<Rightarrow> ('w, 'a) test" where
  "on_second m tc = (case m (switch_caller tc) of (r, tc') \<Rightarrow> (r, switch_caller tc'))"

definition twait ::
    "'w surroundings \<Rightarrow> ConnectionRuntime \<Rightarrow> string \<Rightarrow> nat \<Rightarrow> (nat \<times> ('w example_run \<Rightarrow> 'w example_run)) list \<Rightarrow>
     ('w, unit) test" where
  "twait es handle peer_id start rounds tc =
     (case wait_for_peer_exists es handle peer_id (start + 10000) rounds (tc_run tc) of
        (r, st) \<Rightarrow> (if r = Appeared then Some () else None, tc\<lparr>tc_run := st\<rparr>))"

definition test_options :: "string \<Rightarrow> u16 \<Rightarrow> ConnectOptions" where
  "test_options caller port = \<lparr>co_caller_peer_id = Some caller, co_request_timeout = Some 10000, co_router_port = Some port\<rparr>"

definition first_caller :: "'w surroundings \<Rightarrow> 'w surroundings" where
  "first_caller es = es\<lparr>es_uuid := ''caller-a''\<rparr>"

definition second_caller :: "'w surroundings \<Rightarrow> sink \<Rightarrow> 'w surroundings" where
  "second_caller es sink = es\<lparr>es_uuid := ''caller-b'', es_caller_sink := sink\<rparr>"

definition test_connect :: "'w surroundings \<Rightarrow> string \<Rightarrow> string \<Rightarrow> u16 \<Rightarrow> ('w, ConnectionRuntime) script" where
  "test_connect es caller target port =
     ex_open es target (connect_with_options (es_os es) (es_uuid es) target (test_options caller port))"

text \<open>What the test does on its second connection, up to the final stop; the result is its handle.\<close>

definition second_session :: "int_readers \<Rightarrow> 'w surroundings \<Rightarrow> u16 \<Rightarrow> string \<Rightarrow> ('w, ConnectionRuntime) test" where
  "second_session rd es port service_entrypoint =
     tbind (on_second (tunwrap (test_connect es ''caller-b'' service_entrypoint port))) (\<lambda>caller_handle.
     tbind (on_second (tunwrap (ex_query_peer_exists es caller_handle service_entrypoint))) (\<lambda>found.
     tbind (tassert found) (\<lambda>_.
     tbind (on_second (tunwrap (ex_call es caller_handle (fv_i64 rd) ''multiply'' [json_of_int 6, json_of_int 7]))) (\<lambda>product.
     tbind (tassert (product = 42)) (\<lambda>_. Pair (Some caller_handle))))))"

definition two_callers_session ::
    "int_readers \<Rightarrow> bool \<Rightarrow> (string \<Rightarrow> string option) \<Rightarrow> (Command \<Rightarrow> string + u32) \<Rightarrow> u16 \<Rightarrow> 'w surroundings \<Rightarrow> sink \<Rightarrow>
     nat \<Rightarrow> (nat \<times> ('w example_run \<Rightarrow> 'w example_run)) list \<Rightarrow> string \<Rightarrow> string \<Rightarrow> ('w, unit) test" where
  "two_callers_session rd windows canonicalize launch port es sink start rounds service_entrypoint service_binary =
     tbind (tunwrap (slift (spawn_with_options windows canonicalize launch service_entrypoint service_binary
       \<lparr>sp_caller_peer_id = Some ''caller-a'', sp_request_timeout = Some 10000, sp_router_port = Some port\<rparr>))) (\<lambda>service_process.
     tbind (tunwrap (test_connect (first_caller es) ''caller-a'' service_entrypoint port)) (\<lambda>service.
     let service_handle = with_service_process service_process service in
     tbind (twait (first_caller es) service_handle service_entrypoint start rounds) (\<lambda>_.
     tbind (tunwrap (ex_call (first_caller es) service_handle (fv_i64 rd) ''add'' [json_of_int 10, json_of_int 20])) (\<lambda>sum.
     tbind (tassert (sum = 30)) (\<lambda>_.
     tbind (second_session rd (second_caller es sink) port service_entrypoint) (\<lambda>caller_handle.
     tbind (tunwrap (ex_stop (first_caller es) service_handle)) (\<lambda>_.
     on_second (tunwrap (ex_stop (second_caller es sink) caller_handle)))))))))"

definition service_worker_bootstraps_router_and_second_worker_joins_existing_router ::
    "build_env \<Rightarrow> int_readers \<Rightarrow> bool \<Rightarrow> (string \<Rightarrow> string option) \<Rightarrow> (Command \<Rightarrow> string + u32) \<Rightarrow> u16 \<Rightarrow> 'w surroundings \<Rightarrow>
     sink \<Rightarrow> nat \<Rightarrow> (nat \<times> ('w example_run \<Rightarrow> 'w example_run)) list \<Rightarrow> ('w, unit) test" where
  "service_worker_bootstraps_router_and_second_worker_joins_existing_router be rd windows canonicalize launch port es sink
       start rounds tc =
     (if \<not> build_router_binary be \<or> \<not> build_math_worker_example be then (None, tc)
      else case router_binary_path be of
        None \<Rightarrow> (None, tc)
      | Some binary \<Rightarrow>
          (case set_env_var_str ''MULTIFROST_ROUTER_BIN'' binary (tc_env tc) of (router_bin, env) \<Rightarrow>
            (case two_callers_session rd windows canonicalize launch port es sink start rounds
                    (math_worker_entrypoint_path be) (math_worker_binary_path be) (tc\<lparr>tc_env := env\<rparr>) of
               (r, tc') \<Rightarrow> (r, tc'\<lparr>tc_env := drop_guard router_bin (tc_env tc')\<rparr>))))"

section \<open>The test passes\<close>

lemma tbind_unwrap:
  "m (tc_run tc) = (Some (Inr a), st) \<Longrightarrow> tbind (tunwrap m) f tc = f a (tc\<lparr>tc_run := st\<rparr>)"
  by (simp add: tbind_def tunwrap_def)

lemma tbind_assert: "b \<Longrightarrow> tbind (tassert b) f tc = f () tc"
  by (simp add: tbind_def tassert_def)

lemma switch_twice [simp]: "switch_caller (switch_caller tc) = tc"
  by (simp add: switch_caller_def)

text \<open>A step of the second connection, seen from the second connection.\<close>

lemma tbind_second:
  "m (tc_run (switch_caller tc)) = (Some (Inr a), st) \<Longrightarrow>
   tbind (on_second (tunwrap m)) f tc = f a (switch_caller ((switch_caller tc)\<lparr>tc_run := st\<rparr>))"
  by (simp add: tbind_def on_second_def tunwrap_def)

lemma ex_stop_ends:
  "\<exists>st'. ex_stop es handle st = (Some (Inr ()), st') \<and>
    ex_effects st' = ex_effects st @ (case cr_service_process handle of Some sp \<Rightarrow> snd (stop_process sp) | None \<Rightarrow> [])"
  by (auto simp: ex_stop_def handle_stop_def Let_def split: prod.splits option.splits)

lemma test_config:
  "\<exists>b config. connect_with_options os uuid target (test_options caller port) = (b, config) \<and>
     ctc_peer_id config = caller \<and> ctc_default_target_peer_id config = Some target"
  by (simp add: connect_with_options_def connect_caller_transport_def test_options_def Let_def)

lemma test_connects:
  assumes "wire_ok es" and "can_connect es st" and "es_uuid es = caller"
  shows "\<exists>handle st'. test_connect es caller (es_service es) port st = (Some (Inr handle), st') \<and>
    caller_handle es handle \<and> cr_service_process handle = None \<and> caller_open es st' \<and>
    (\<forall>x. x \<noteq> es_uuid es \<longrightarrow> w_peers (dp_router (ex_dep st')) x = w_peers (dp_router (ex_dep st)) x) \<and> unseen st st'"
proof -
  obtain b config where "connect_with_options (es_os es) (es_uuid es) (es_service es) (test_options caller port) = (b, config)"
    "ctc_peer_id config = caller" "ctc_default_target_peer_id config = Some (es_service es)"
    using test_config by blast
  then show ?thesis
    using ex_open_connects [OF assms(1,2), of config b] assms(3) by (auto simp: test_connect_def unseen_def)
qed

lemma multiply_answer:
  assumes "json_access_ok ja"
  shows "math_call ja ''multiply'' [json_of_int 6, json_of_int 7] = Inr (json_of_int (sint (42 :: 64 word)))"
  using json_access_simps(1) [OF assms, of 6] json_access_simps(1) [OF assms, of 7]
  by (simp add: math_call_def int_operands_def arg_or_def sint_uint)

text \<open>The second connection can be opened while the first is open.\<close>

lemma second_can_connect:
  assumes "is_connected (first_caller es) st" and "can_connect (first_caller es) st0"
    and "w_peers (dp_router (ex_dep st)) ''caller-b'' = None" and "es_service es \<noteq> ''caller-b''" and "sink \<noteq> es_service_sink es"
    and "\<And>g. cl_send_err (cs_client cs) g = None" and "\<And>k. cs_requests cs k = None"
  shows "can_connect (second_caller es sink) (st\<lparr>ex_dep := (ex_dep st)\<lparr>dp_client := cs\<rparr>\<rparr>)"
  using assms by (auto simp: can_connect_def second_caller_def first_caller_def connection_defs Let_def)

lemma second_part:
  fixes es sink
  defines "sec \<equiv> second_caller es sink"
  assumes "wire_ok sec" and "can_connect sec (tc_run (switch_caller tc))" and "service_live sec (tc_run (switch_caller tc))"
    and worker: "es_worker es = math_worker ja label" "json_access_ok ja" "int_readers_ok rd"
  shows "\<exists>caller tc'. second_session rd sec port (es_service es) tc = (Some caller, tc') \<and>
    cr_service_process caller = None \<and> ex_effects (tc_run tc') = ex_effects (tc_run tc) \<and> tc_env tc' = tc_env tc"
proof -
  let ?st = "tc_run (switch_caller tc)" and ?v = "json_of_int (sint (42 :: 64 word))"
  have sec: "es_service sec = es_service es" "es_worker sec = es_worker es" "es_uuid sec = ''caller-b''"
    by (simp_all add: sec_def second_caller_def)
  obtain caller st1 where st1: "test_connect sec ''caller-b'' (es_service es) port ?st = (Some (Inr caller), st1)"
      "caller_handle sec caller" "cr_service_process caller = None" "caller_open sec st1"
      "\<forall>x. x \<noteq> es_uuid sec \<longrightarrow> w_peers (dp_router (ex_dep st1)) x = w_peers (dp_router (ex_dep ?st)) x" "unseen ?st st1"
    using test_connects [OF assms(2,3) sec(3), of port] sec(1) by auto
  have "es_service sec \<noteq> es_uuid sec" using assms(3) by (auto simp: can_connect_def Let_def)
  then have con: "is_connected sec st1"
    using st1(4,5) assms(4) by (simp add: is_connected_def service_live_def live_def)
  obtain st2 where st2: "ex_query_peer_exists sec caller (es_service es) st1 = (Some (Inr True), st2)"
      "is_connected sec st2" "unseen st1 st2"
    using ex_query_finds [OF assms(2) con st1(2)] sec(1) by (auto simp: unseen_def)
  have "fv_i64 rd ?v = Inr 42" using worker(3) unfolding int_readers_ok_def by blast
  then obtain st3 where st3: "ex_call sec caller (fv_i64 rd) ''multiply'' [json_of_int 6, json_of_int 7] st2 = (Some (Inr 42), st3)"
      "unseen st2 st3"
    using ex_call_answers [where fn = "''multiply''" and ns = "[6, 7]" and from_value = "fv_i64 rd",
        OF assms(2) st2(2) st1(2) _ _ _ _ multiply_answer [OF worker(2)]] worker(1) sec(2)
    by (auto simp: unseen_def)
  let ?tc = "switch_caller ((switch_caller tc)\<lparr>tc_run := st3\<rparr>)"
  have "ex_effects (tc_run ?tc) = ex_effects (tc_run tc)" "tc_env ?tc = tc_env tc"
    using st1(6) st2(3) st3(2) by (simp_all add: unseen_def switch_caller_def)
  then show ?thesis
    using st1(1,3) st2(1) st3(1)
    by (intro exI [of _ caller] exI [of _ ?tc]) (simp add: second_session_def tbind_second tbind_assert)
qed

lemma session_passes:
  fixes es sink tc
  defines "fst_es \<equiv> first_caller es" and "sec \<equiv> second_caller es sink" and "st0 \<equiv> tc_run tc"
  assumes wire: "wire_ok fst_es" "wire_ok sec" "absent_wire_ok fst_es" "join_wire_ok fst_es m ts"
    and start: "can_connect fst_es st0" "service_absent fst_es st0" "w_peers (dp_router (ex_dep st0)) ''caller-b'' = None"
    and names: "es_service es \<noteq> ''caller-b''" "sink \<noteq> es_service_sink es"
    and second: "\<And>g. cl_send_err (cs_client (tc_other tc)) g = None" "\<And>k. cs_requests (tc_other tc) k = None"
    and worker: "es_worker es = math_worker ja label" "json_access_ok ja" "int_readers_ok rd"
    and launched: "launch (spawn_command windows canonicalize binary (es_service es) (Some port)) = Inr child"
    and rounds: "\<forall>(now, others) \<in> set early. now < began + 10000 \<and> quiet fst_es {''caller-b''} others" "now < began + 10000"
  shows "\<exists>tc'. two_callers_session rd windows canonicalize launch port es sink began
      (early @ (now, service_joins fst_es m ts) # rest) (es_service es) binary tc = (Some (), tc') \<and>
    ex_effects (tc_run tc') = ex_effects st0 @ [KillChild child, WaitChild child] \<and> tc_env tc' = tc_env tc"
proof -
  let ?sp = "\<lparr>svp_child = Some child\<rparr>" and ?rounds = "early @ (now, service_joins fst_es m ts) # rest"
  have es: "es_service fst_es = es_service es" "es_worker fst_es = es_worker es" "es_uuid fst_es = ''caller-a''"
    by (simp_all add: fst_es_def first_caller_def)
  obtain service st1 where st1: "test_connect fst_es ''caller-a'' (es_service es) port st0 = (Some (Inr service), st1)"
      "caller_handle fst_es service" "caller_open fst_es st1" "unseen st0 st1"
      "\<forall>x. x \<noteq> es_uuid fst_es \<longrightarrow> w_peers (dp_router (ex_dep st1)) x = w_peers (dp_router (ex_dep st0)) x"
    using test_connects [OF wire(1) start(1) es(3), of port] es(1) by auto
  let ?service = "with_service_process ?sp service"
  have "es_service fst_es \<noteq> es_uuid fst_es" using start(1) by (auto simp: can_connect_def Let_def)
  then have "waiting fst_es {''caller-b''} st1"
    using st1(3,5) start(2,3) by (simp add: waiting_def service_absent_def es(3))
  then obtain st2 where st2: "wait_for_peer_exists fst_es ?service (es_service es) (began + 10000) ?rounds st1 = (Appeared, st2)"
      "is_connected fst_es st2" "unseen st1 st2" "w_peers (dp_router (ex_dep st2)) ''caller-b'' = None"
    using wait_ends_well [OF wire(1,3,4) _ rounds, where handle = ?service and rest = rest] st1(2) names(1) es(1) by auto
  have "fv_i64 rd (json_of_int (sint (30 :: 64 word))) = Inr 30" using worker(3) unfolding int_readers_ok_def by blast
  then obtain st3 where st3: "ex_call fst_es ?service (fv_i64 rd) ''add'' [json_of_int 10, json_of_int 20] st2 = (Some (Inr 30), st3)"
      "is_connected fst_es st3" "w_peers (dp_router (ex_dep st3)) = w_peers (dp_router (ex_dep st2))" "unseen st2 st3"
    using ex_call_answers [where fn = "''add''" and ns = "[10, 20]" and from_value = "fv_i64 rd" and handle = ?service,
        OF wire(1) st2(2) _ _ _ _ _ math_answers(1) [OF worker(2)]] worker(1) es(2) st1(2)
    by (auto simp: unseen_def)
  let ?tc = "tc\<lparr>tc_run := st3\<rparr>"
  have "can_connect sec (tc_run (switch_caller ?tc))" "service_live sec (tc_run (switch_caller ?tc))"
    using second_can_connect [of es st3 st0 sink "tc_other tc"] st3(2,3) st2(4) start(1) names second
    by (simp_all add: switch_caller_def fst_es_def sec_def is_connected_def service_live_def first_caller_def second_caller_def)
  from second_part [OF wire(2) [unfolded sec_def] this [unfolded sec_def] worker, of port]
  obtain caller tc1 where tc1: "second_session rd sec port (es_service es) ?tc = (Some caller, tc1)"
      "cr_service_process caller = None" "ex_effects (tc_run tc1) = ex_effects st3" "tc_env tc1 = tc_env tc"
    unfolding sec_def by auto
  obtain st4 where st4: "ex_stop fst_es ?service (tc_run tc1) = (Some (Inr ()), st4)"
      "ex_effects st4 = ex_effects st3 @ [KillChild child, WaitChild child]"
    using ex_stop_ends [of fst_es ?service "tc_run tc1"] tc1(3)
    by (auto simp: with_service_process_def stop_process_def)
  let ?tc2 = "switch_caller (tc1\<lparr>tc_run := st4\<rparr>)"
  obtain st5 where st5: "ex_stop sec caller (tc_run ?tc2) = (Some (Inr ()), st5)" "ex_effects st5 = ex_effects st4"
    using ex_stop_ends [of sec caller "tc_run ?tc2"] tc1(2) by (auto simp: switch_caller_def)
  have spawned: "spawn_with_options windows canonicalize launch (es_service es) binary
       \<lparr>sp_caller_peer_id = Some ''caller-a'', sp_request_timeout = Some 10000, sp_router_port = Some port\<rparr> = Inr ?sp"
    using launched by (simp add: spawn_with_options_def)
  have "two_callers_session rd windows canonicalize launch port es sink began ?rounds (es_service es) binary tc =
      (Some (), switch_caller (?tc2\<lparr>tc_run := st5\<rparr>))"
    using st1(1) st2(1) st3(1) tc1(1) st4(1) st5(1)
    unfolding two_callers_session_def spawned fst_es_def [symmetric] sec_def [symmetric]
    by (simp add: tbind_unwrap slift_def twait_def tbind_assert st0_def Let_def tbind_def [of "twait _ _ _ _ _"] tbind_def [of "second_session _ _ _ _"]
        on_second_def tunwrap_def [of "ex_stop sec caller"])
  then show ?thesis
    using st5(2) st4(2) st3(4) st2(3) st1(4) tc1(4) by (auto simp: switch_caller_def unseen_def)
qed

text \<open>
  The test passes if cargo builds both programs, the worker's process can be started and
  its registration reaches the router before the deadline of the wait, whatever harmless
  thing other peers do until then. In the end the process has been killed and reaped, and
  the environment variable has its old value.
\<close>

theorem deployment_test_passes:
  assumes "be_parent be (be_manifest_dir be) = Some dir" and "\<And>cwd args. be_cargo be cwd args"
    and "es_service es = math_worker_entrypoint_path be"
    and "wire_ok (first_caller es)" and "wire_ok (second_caller es sink)"
    and "absent_wire_ok (first_caller es)" and "join_wire_ok (first_caller es) m ts"
    and "can_connect (first_caller es) (tc_run tc)" and "service_absent (first_caller es) (tc_run tc)"
    and "w_peers (dp_router (ex_dep (tc_run tc))) ''caller-b'' = None"
    and "es_service es \<noteq> ''caller-b''" and "sink \<noteq> es_service_sink es"
    and "\<And>g. cl_send_err (cs_client (tc_other tc)) g = None" and "\<And>k. cs_requests (tc_other tc) k = None"
    and "es_worker es = math_worker ja label" and "json_access_ok ja" and "int_readers_ok rd"
    and "launch (spawn_command windows canonicalize (math_worker_binary_path be) (es_service es) (Some port)) = Inr child"
    and "\<forall>(now, others) \<in> set early. now < began + 10000 \<and> quiet (first_caller es) {''caller-b''} others" and "now < began + 10000"
  shows "\<exists>tc'. service_worker_bootstraps_router_and_second_worker_joins_existing_router be rd windows canonicalize launch port
      es sink began (early @ (now, service_joins (first_caller es) m ts) # rest) tc = (Some (), tc') \<and>
    ex_effects (tc_run tc') = ex_effects (tc_run tc) @ [KillChild child, WaitChild child] \<and> tc_env tc' = tc_env tc"
proof -
  have built: "build_router_binary be" "build_math_worker_example be" "router_binary_path be \<noteq> None"
    using assms(1,2)
    by (simp_all add: build_router_binary_def build_math_worker_example_def router_binary_path_def repo_root_def)
  then obtain binary where binary: "router_binary_path be = Some binary" by blast
  obtain guard env where guard: "set_env_var_str ''MULTIFROST_ROUTER_BIN'' binary (tc_env tc) = (guard, env)"
    by (cases "set_env_var_str ''MULTIFROST_ROUTER_BIN'' binary (tc_env tc)")
  have "\<exists>tc'. two_callers_session rd windows canonicalize launch port es sink began
      (early @ (now, service_joins (first_caller es) m ts) # rest) (es_service es) (math_worker_binary_path be)
      (tc\<lparr>tc_env := env\<rparr>) = (Some (), tc') \<and>
    ex_effects (tc_run tc') = ex_effects (tc_run (tc\<lparr>tc_env := env\<rparr>)) @ [KillChild child, WaitChild child] \<and>
    tc_env tc' = tc_env (tc\<lparr>tc_env := env\<rparr>)"
    using assms(4-20) by (intro session_passes) simp_all
  then show ?thesis
    using built(1,2) binary guard guard_restores [OF guard] assms(3)
    by (auto simp: service_worker_bootstraps_router_and_second_worker_joins_existing_router_def)
qed

text \<open>An instance: the worker registers while the test sleeps for the second time.\<close>

definition demo_build :: build_env where
  "demo_build = \<lparr>be_manifest_dir = ''/r/rust'', be_parent = (\<lambda>_. Some ''/r''), be_join = (\<lambda>a b. a @ ''/'' @ b),
     be_cargo = (\<lambda>_ _. True)\<rparr>"

lemma deployment_test_instance:
  fixes env
  defines "es \<equiv> demo_surroundings\<lparr>es_service := math_worker_entrypoint_path demo_build\<rparr>"
    and "tc \<equiv> \<lparr>tc_run = demo_run, tc_other = demo_start, tc_env = env\<rparr>"
  shows "\<exists>tc'. service_worker_bootstraps_router_and_second_worker_joins_existing_router demo_build demo_readers False Some
      (\<lambda>_. Inr 99) 9000 es 5 0 [(10, id), (60, service_joins (first_caller es) ''j'' 0)] tc = (Some (), tc') \<and>
    ex_effects (tc_run tc') = [KillChild 99, WaitChild 99] \<and> tc_env tc' = env"
proof -
  have entry: "es_service es = ''/r/rust/examples/math_worker.rs''"
    by (simp add: es_def math_worker_entrypoint_path_def demo_build_def)
  have es: "es_codec es = msgpack" "es_worker es = math_worker demo_access ''math''" "es_caller_sink es = 4"
    "es_service_sink es = 7" "\<And>n. length (es_ids es n) = 1" "\<And>b. es_bootstrap es b = Inr ()" "\<And>u. es_ws es u = None"
    by (simp_all add: es_def demo_surroundings_def)
  have wire: "wire_ok (first_caller es)" "wire_ok (second_caller es 5)" "absent_wire_ok (first_caller es)"
    "join_wire_ok (first_caller es) ''j'' 0"
    by (auto intro!: msgpack_wire_ok msgpack_absent_wire_ok msgpack_join_wire_ok
        simp: first_caller_def second_caller_def es entry)
  have start: "can_connect (first_caller es) demo_run" "service_absent (first_caller es) demo_run"
    "w_peers (dp_router (ex_dep demo_run)) ''caller-b'' = None"
    using scene_wf
    by (simp_all add: can_connect_def service_absent_def first_caller_def es entry demo_run_def Let_def demo_start_def scene_def)
  have rest: "tc_run tc = demo_run" "tc_other tc = demo_start" "tc_env tc = env" "ex_effects demo_run = []"
    "es_service es = math_worker_entrypoint_path demo_build"
    by (simp_all add: tc_def demo_run_def es_def)
  have "\<exists>tc'. service_worker_bootstraps_router_and_second_worker_joins_existing_router demo_build demo_readers False Some
      (\<lambda>_. Inr 99) 9000 es 5 0 ([(10, id)] @ (60, service_joins (first_caller es) ''j'' 0) # []) tc = (Some (), tc') \<and>
    ex_effects (tc_run tc') = ex_effects (tc_run tc) @ [KillChild 99, WaitChild 99] \<and> tc_env tc' = tc_env tc"
    by (rule deployment_test_passes [where dir = "''/r''" and ja = demo_access and label = "''math''"])
      (use wire start demo_access_ok demo_readers_ok quiet_id es(2,4) rest entry
        in \<open>simp_all add: demo_build_def demo_start_def math_worker_entrypoint_path_def\<close>)
  then show ?thesis using rest by simp
qed

end
