(* ===== verification/Spec2Isabelle.thy ===== *)
theory Spec2Isabelle
  imports Router_Config Router_Delivery Client_Correlation Client_Service_Spec Client_Bootstrap_Once
    Client_Bootstrap_Termination
    Client_Latency Client_Logging_Spec Example_Clients Network_Spec Test_Call Test_Bootstrap
    Test_Metrics Test_Logging Test_Service Test_Deployment
begin

text \<open>
  Multifrost v5: verification of the Rust router and the Rust client library.

  \<^bold>\<open>The program.\<close> A router process (crate router/src) accepts WebSocket connections from
  peers. A peer registers under an identity as a \<open>service\<close> or a \<open>caller\<close>; the router
  keeps the live identities in an in-memory registry and forwards \<open>call\<close>, \<open>response\<close>,
  \<open>error\<close> and \<open>heartbeat\<close> frames by the identities in their envelopes, answers
  queries about the registry and removes a peer when its connection ends. The client
  library (crate rust/src) has a caller side, which sends requests over one connection
  and matches replies to them by message identifier; a service side, which dispatches
  calls to a user's worker; and a bootstrap that finds or starts the router under a lock
  file that all processes share.

  \<^bold>\<open>Modelling.\<close> Data is as in the source: structs are records, enums datatypes, \<open>u16\<close>
  and \<open>u32\<close> are words, an \<open>f64\<close> that is only copied is its 64-bit pattern, a
  \<open>String\<close> is its UTF-8 bytes, \<open>Result\<close> is a sum with the error on the left
  (\<open>MF_Prelude\<close>). Code that runs concurrently is split at its awaits. In the router and
  the service runtime a task is a resumption (\<open>Prog\<close>): a finite tree of atomic actions
  on a shared world, where one lock section or one socket send is one action; \<open>run\<close> is
  the undisturbed execution and \<open>guar\<close> states what every single action does in any state
  that other tasks may have produced. In the caller transport and the bootstrap a task is
  a program counter and an executable step function (\<open>client_exec\<close>, \<open>boot_exec\<close>).
  Loops over received messages are recursion over the list of items received; there is no
  fuel: every task between two received items is a finite tree, and the polling loops of
  the bootstrap take one step per iteration, with a bound on their number.

  \<^bold>\<open>Parameters.\<close> MessagePack (\<open>rmp_serde\<close>) is the record \<open>codec\<close> of \<open>Wire\<close>, with
  \<open>round_trips\<close> and \<open>error_round_trips\<close> as the hypotheses where a property needs them; \<open>Msgpack\<close> is a
  concrete codec that satisfies them, used only to instantiate properties. JSON of lock files and log
  lines (\<open>serde_json\<close>) and its accessors (\<open>json_access\<close>), fresh identifiers (\<open>uuid\<close>),
  the user's worker, \<open>serde_json::from_value\<close> at the caller's type, and the answers of the
  operating system are parameters too.

  \<^bold>\<open>Theories, in the order of the code.\<close>
  \<^item> \<open>Wire\<close>: envelope, bodies and frames of both crates.
  \<^item> \<open>Router_Protocol\<close> (router/src/error.rs, protocol.rs): frame and body codecs; the
    locale \<open>frame_format\<close> is the contract of a frame format and gives the round trip,
    injectivity and rejection lemmas for every crate that satisfies it.
  \<^item> \<open>Router_Registry\<close> (registry.rs): the registry operations; the locale
    \<open>live_registry\<close> states the laws the server relies on.
  \<^item> \<open>Router_Server\<close> (server.rs): every handler, the handshake, the message loop and the
    cleanup as resumptions.
  \<^item> \<open>Router_Routing\<close>: an abstract router and the proof that the handlers refine it.
  \<^item> \<open>Router_Connection\<close>: handshake, queries, heartbeats, disconnects and a whole
    connection that no other task disturbs, on every branch.
  \<^item> \<open>Router_System\<close> (\<open>serve\<close> and its spawned tasks): all connections interleaved as the
    step relation \<open>router_step\<close>; the guarantee of every action, and the invariant that
    every entry belongs to an unfinished connection, through the locale
    \<open>inductive_invariant\<close> of \<open>MF_Prelude\<close>, which also has the locales of relative
    invariants and of parts of a system that simulate it.
  \<^item> \<open>Router_Delivery\<close>: the same steps with labels, and audited runs that record which task
    wrote which frame, which items each connection took and which registrations were ever
    live; who receives which frame, in which order and from whom, under every interleaving,
    and the race between the class check and the delivery of a call.
  \<^item> \<open>Router_Config\<close> (config.rs, lib.rs): configuration and start-up.
  \<^item> \<open>Client_Message\<close> (rust/src/error.rs, message.rs): the client's codecs and envelope
    builders; the locale \<open>frame_pair\<close> gives interoperation with the router.
  \<^item> \<open>Client_Transport\<close> and \<open>Client_Correlation\<close> (caller_transport.rs): registration,
    requests, the pending map and the inbound task, all interleaved; correlation of
    replies, absence of lost wake-ups, and the ways to wait for ever.
  \<^item> \<open>Client_Service\<close> and \<open>Client_Service_Spec\<close> (child.rs): the service task, what it
    answers, and the process that runs it.
  \<^item> \<open>Client_Bootstrap\<close>, \<open>Client_Bootstrap_Spec\<close>, \<open>Client_Bootstrap_Once\<close> and
    \<open>Client_Bootstrap_Termination\<close> (router_bootstrap.rs): lock files, lock acquisition and
    router start by any number of calls of any number of processes; what a call's probes
    say about its result, which call starts and kills which router, and how many steps a
    call makes before it returns.
  \<^item> \<open>Float64\<close> and \<open>Float64_Order\<close>: IEEE 754 doubles on their bit patterns, with correct
    rounding, for the arithmetic of the metrics and the rendering of numbers; that rounding
    is monotone and how far it is from the exact value.
  \<^item> \<open>Client_Metrics\<close> and \<open>Client_Metrics_Spec\<close> (metrics.rs): the collector and its
    snapshot; the collector as a function of the history since the last reset, the balance
    of its counters, and its percentiles as exact quantiles.
  \<^item> \<open>Client_Latency\<close>: how accurate and how monotone a recorded latency is.
  \<^item> \<open>Client_Connection\<close> (process.rs, parent.rs): spawned service processes, connection
    options, builder, connection and handle; a spawned service finds its identity and its
    router in the environment that it is given.
  \<^item> \<open>Json\<close>, \<open>Client_Logging\<close> and \<open>Client_Logging_Spec\<close> (logging.rs): levels, entries,
    the logger and its two stock handlers; which lines a session prints, the
    names of events, and where the readable handler panics.
  \<^item> \<open>Client_Call\<close> (call_macro.rs): typed arguments, the call macros and the extractor.
  \<^item> \<open>Example_Workers\<close> (rust/examples): the two math workers against the factorial and the
    Fibonacci numbers.
  \<^item> \<open>Deployment\<close>: a caller, the router and a service connected by their sockets; frames
    carried from crate to crate, and whole registrations, queries and calls as the
    composition of the components' own steps.
  \<^item> \<open>Network\<close> and \<open>Network_Spec\<close>: the concurrent router with a Rust caller and a Rust
    service at their own pace and arbitrary other peers; that replies are genuine and calls
    execute at most once, and a complete run of such a network.
  \<^item> \<open>Example_Clients\<close> (rust/examples): the client programs on such a deployment.
  \<^item> \<open>Spawned_Service\<close>: programs that start their own service, which becomes live when its
    registration has reached the router: calling it at once, and waiting for it.
  \<^item> \<open>Test_Wire\<close>, \<open>Test_Call\<close>, \<open>Test_Bootstrap\<close>, \<open>Test_Metrics\<close>, \<open>Test_Logging\<close>,
    \<open>Test_Service\<close> and \<open>Test_Deployment\<close>: the unit tests of both crates (the \<open>tests\<close> module of each file) as
    propositions about the modelled operations, with the test's name. Each is proved for
    every behaviour of what it leaves open: how long a sleep takes, what the operating
    system answers, how tasks interleave, how a serialiser prints. \<open>Test_Metrics\<close> shows
    how late a sleep may be before the test of the percentiles fails, \<open>Test_Service\<close> that
    the test over the mock router passes for every worker that answers, and
    \<open>Test_Deployment\<close> runs the test with a spawned worker and two connections.
  \<^item> This theory: properties that span the crates, from a registration to a whole call
    and a typed call of the example's worker.

  \<^bold>\<open>Assumptions of the model.\<close> A socket either takes a whole frame or reports an error, and
  does so in one action: a send that blocks for ever is not represented, nor is a probe or
  system call of the bootstrap that never returns. Both crates use one \<open>codec\<close>, although
  their types of error details serialise differently: nothing in the crates sends details.
  All bootstrap calls have the same configuration, a failed system call has no effect,
  and the clock stands still during an undisturbed run of the service;
  a process whose clock is before the UNIX epoch is not considered in the bootstrap; UNIX
  times in lock files are rational numbers of seconds and their addition is a parameter;
  the liveness checks of one lock evaluation happen at one moment; paths are texts; memory
  is never exhausted; integer arithmetic wraps as in a release build.

  \<^bold>\<open>Not modelled.\<close> TCP, the WebSocket handshake and the tokio runtime; the accessors of
  the router's configuration, which are its record fields; the bindings in other languages.
  Of the tests: the integration tests under rust/tests and router/tests, which drive real
  sockets and processes; four helpers of child.rs that no test calls; the test that a
  listening WebSocket server is reachable; the round trip of a bare \<open>WireValue\<close> and the two
  tests of lock files with absent fields, which exercise serde alone.
\<close>

section \<open>Registration across the wire\<close>

text \<open>
  C18: the client's registration and the router's handshake fit together. The frame that
  \<open>connect\<close> or the service runtime writes for a free identity makes the router store
  exactly that identity and class for this connection and enter its message loop, and
  the frame the router writes back is read by the client as an accepted registration.
\<close>

theorem registration_succeeds:
  assumes "round_trips (enc_envelope cd) (dec_envelope cd)"
    and "round_trips (enc_register cd) (dec_register cd)" and "round_trips (enc_ack cd) (dec_ack cd)"
    and "well_framed cd (build_register_envelope m ts pid cls)"
    and "register_frame cd m ts pid cls = Inr f"
    and "well_framed cd (build_envelope KIND_RESPONSE m ROUTER_PEER_ID pid (clock_ts w))"
    and "ack_frame cd KIND_RESPONSE (clock_ts w) m pid = Inr a"
    and "w_peers w pid = None" and "w_send_err w c a = None"
  shows "run (handshake cd c (ItemOk (Binary f))) w = ((Some pid, Inr (Some (pid, cls))),
      w\<lparr>w_peers := (w_peers w)(pid \<mapsto> fresh_record (w_instant w) pid cls c), w_sent := w_sent w @ [(c, a)]\<rparr>) \<and>
    register_reply cd reason (ItemOk (Binary a)) = Inr ()"
  using assms by (rule registration_round)

theorem registration_succeeds_witness:
  "\<exists>f a. register_frame msgpack ''m1'' 0 ''new'' Caller = Inr f \<and>
     run (handshake msgpack 4 (ItemOk (Binary f))) scene = ((Some ''new'', Inr (Some (''new'', Caller))),
       scene\<lparr>w_peers := (w_peers scene)(''new'' \<mapsto> fresh_record 0 ''new'' Caller 4), w_sent := [(4, a)]\<rparr>) \<and>
     register_reply msgpack ''no'' (ItemOk (Binary a)) = Inr ()"
proof -
  have wf: "well_framed msgpack (build_register_envelope ''m1'' 0 ''new'' Caller)"
    by (rule msgpack_well_framed) (simp_all add: build_register_envelope_def mf_defs PROTOCOL_VERSION_def)
  have wa: "well_framed msgpack (build_envelope KIND_RESPONSE ''m1'' ROUTER_PEER_ID ''new'' (clock_ts scene))"
    by (rule msgpack_well_framed) (simp_all add: build_envelope_def KIND_RESPONSE_def ROUTER_PEER_ID_def)
  have "mf_encode_register_body msgpack \<lparr>reg_peer_id = ''new'', reg_class = Caller\<rparr> \<in> range Inr"
    by (simp add: mf_encode_register_body_def msgpack_def mk_enc_def str_ok_def)
  then obtain f where f: "register_frame msgpack ''m1'' 0 ''new'' Caller = Inr f"
    using client_frames.encode_succeeds [OF wf] by (fastforce simp: register_frame_def)
  obtain a where a: "ack_frame msgpack KIND_RESPONSE (clock_ts scene) ''m1'' ''new'' = Inr a"
    using msgpack_ack_frame [of KIND_RESPONSE "''m1''" "''new''"] by (auto simp: KIND_RESPONSE_def)
  have w: "w_peers scene ''new'' = None" "w_instant scene = 0" "w_sent scene = []"
    by (simp_all add: scene_def)
  show ?thesis
    using registration_succeeds [OF msgpack_round_trips(1-3) wf f wa a w(1), of 4 "''no''"] f w by auto
qed

section \<open>A call from end to end\<close>

text \<open>
  C1: a call returns what the worker answered. A caller with an open connection and no
  outstanding request calls a live service: the request registers itself and sends its
  frame, the router forwards it unchanged, the service runs the worker once on the call's
  function and arguments and writes one reply, the router forwards that unchanged to the
  caller, and the inbound task wakes the request with it. The call's result is the
  worker's value as the caller's type, or \<open>RemoteCallError\<close> with the text of the worker's
  error; the caller has no outstanding request again, the router has written exactly
  these two frames, and the registry is as before.
\<close>

theorem end_to_end_call:
  assumes "round_trips (enc_envelope cd) (dec_envelope cd)" and "round_trips (enc_call cd) (dec_call cd)"
    and "round_trips (enc_response cd) (dec_response cd)" and "error_round_trips cd"
    and "idle n (dp_client s)"
    and "well_framed cd (build_call_envelope (ids n) ts (ct_peer_id tr) target)"
    and "call_request cd (ids n) ts tr target fn args = Inr (m, f)"
    and "live (dp_router s) (ct_peer_id tr) = Some (Caller, c)" and "live (dp_router s) target = Some (Service, d)"
    and "\<And>k g. w_send_err (dp_router s) k g = None" and "\<And>g. sv_send_err (dp_service s) g = None"
    and "worker fn args (sv_worker (dp_service s)) = (res, st)"
    and "answer_body cd (Answer res) = Inr b"
    and "well_framed cd (answer_envelope (mf_now_ts (sv_clock (dp_service s))) target
      (build_call_envelope (ids n) ts (ct_peer_id tr) target) (Answer res))"
    and "c \<noteq> d"
  shows "\<exists>t g reply. whole_call cd tr ids worker target c d n f s = Some t \<and>
    returned_frame n t = Some (Inr reply) \<and>
    call_result cd from_value reply = (case res of
      Inr v \<Rightarrow> map_err JsonError (from_value v) | Inl err \<Rightarrow> Inl (RemoteCallError (error_text err))) \<and>
    idle (Suc n) (dp_client t) \<and>
    dp_router t = (dp_router s)\<lparr>w_sent := w_sent (dp_router s) @ [(d, f), (c, g)]\<rparr> \<and>
    dp_service t = (dp_service s)\<lparr>sv_worker := st, sv_sent := sv_sent (dp_service s) @ [g]\<rparr>"
  using assms by (rule whole_call_returns)

lemma demo_call_request:
  "\<exists>f. call_request msgpack ''m1'' 0 (demo_transport None) ''svc'' ''add'' [VPosInt 1, VPosInt 2] = Inr (''m1'', f)"
proof -
  have "well_framed msgpack (build_call_envelope ''m1'' 0 ''cli'' ''svc'')"
    by (rule msgpack_well_framed) (simp_all add: build_call_envelope_def mf_defs PROTOCOL_VERSION_def)
  then obtain f where "mf_encode_frame msgpack (build_call_envelope ''m1'' 0 ''cli'' ''svc'') (mp_call demo_call) = Inr f"
    using client_frames.encode_succeeds by blast
  moreover have "encode_call_body msgpack demo_call = Inr (mp_call demo_call)"
    by (simp add: encode_call_body_def msgpack_def mk_enc_def demo_call_def call_ok_def args_ok_def str_ok_def)
  ultimately show ?thesis
    unfolding demo_call_def
    by (simp add: call_request_def demo_transport_def Let_def) (simp add: build_call_envelope_def)
qed

definition demo_deployment :: "'w ServiceWorld \<Rightarrow> 'w Deployment" where
  "demo_deployment sw = \<lparr>dp_client = demo_start, dp_router = scene, dp_service = sw\<rparr>"

lemma demo_deployment_sel [simp]: "dp_client (demo_deployment sw) = demo_start"
  "dp_router (demo_deployment sw) = scene" "dp_service (demo_deployment sw) = sw" "idle 0 demo_start"
  by (simp_all add: demo_deployment_def idle_def demo_start_def)

theorem end_to_end_call_witness:
  "\<exists>f t reply. call_request msgpack ''m1'' 0 (demo_transport None) ''svc'' ''add'' [VPosInt 1, VPosInt 2] = Inr (''m1'', f) \<and>
    whole_call msgpack (demo_transport None) (\<lambda>_. ''m1'') demo_worker ''svc'' 9 7 0 f (demo_deployment demo_world) = Some t \<and>
    returned_frame 0 t = Some (Inr reply) \<and> call_result msgpack Inr reply = Inr (VBool True) \<and>
    sv_worker (dp_service t) = 1 \<and> idle 1 (dp_client t)"
proof -
  obtain f where f: "call_request msgpack ''m1'' 0 (demo_transport None) ''svc'' ''add'' [VPosInt 1, VPosInt 2] = Inr (''m1'', f)"
    using demo_call_request by blast
  have id: "ct_peer_id (demo_transport None) = ''cli''" by (simp add: demo_transport_def)
  have wf: "well_framed msgpack (build_call_envelope ''m1'' 0 (ct_peer_id (demo_transport None)) ''svc'')"
    by (rule msgpack_well_framed) (simp_all add: id build_call_envelope_def mf_defs PROTOCOL_VERSION_def)
  have wa: "well_framed msgpack (answer_envelope (mf_now_ts (sv_clock demo_world)) ''svc''
      (build_call_envelope ''m1'' 0 (ct_peer_id (demo_transport None)) ''svc'') (Answer (Inr (VBool True))))"
    by (rule msgpack_well_framed) (simp_all add: id answer_envelope_def build_call_envelope_def PROTOCOL_VERSION_def)
  have body: "answer_body msgpack (Answer (Inr (VBool True))) = Inr (mp_response \<lparr>resp_result = VBool True\<rparr>)"
    by (simp add: msgpack_def mk_enc_def)
  have lv: "live scene (ct_peer_id (demo_transport None)) = Some (Caller, 9)" by (simp add: id scene_live)
  have wk: "demo_worker ''add'' [VPosInt 1, VPosInt 2] (sv_worker demo_world) = (Inr (VBool True), 1)"
    by (simp add: demo_worker_def demo_world_def)
  have se: "sv_send_err demo_world g = None" for g by (simp add: demo_world_def)
  show ?thesis
    using end_to_end_call [where s = "demo_deployment demo_world" and ids = "\<lambda>_. ''m1''" and n = 0 and worker = demo_worker
        and tr = "demo_transport None" and cd = msgpack and ts = 0 and target = "''svc''" and fn = "''add''"
        and args = "[VPosInt 1, VPosInt 2]" and m = "''m1''" and f = f and c = 9 and d = 7 and res = "Inr (VBool True)"
        and st = 1 and b = "mp_response \<lparr>resp_result = VBool True\<rparr>" and from_value = Inr]
      f wf wa body lv wk se scene_live(1)
    by (fastforce simp: map_err_def)
qed

text \<open>
  C37: a call to an identity that is not live reaches the caller as
  \<open>RouterUnavailable\<close>. The router answers with one error frame of code
  \<open>peer_not_found\<close>; the caller's inbound task accepts it for the request, and the
  call fails with \<open>RouterUnavailable\<close> and the router's message, although the router
  is there and the library has an error \<open>PeerNotFound\<close>. The caller has no outstanding
  request again, and no service has seen the call.
\<close>

theorem missing_target_reads_as_router_unavailable:
  assumes "round_trips (enc_envelope cd) (dec_envelope cd)" and "error_round_trips cd"
    and "well_framed cd (build_call_envelope (ids n) ts (ct_peer_id tr) target)"
    and "call_request cd (ids n) ts tr target fn args = Inr (m, f)"
    and "live (dp_router s) target = None" and "\<And>k g. w_send_err (dp_router s) k g = None"
    and "well_framed cd (build_envelope KIND_ERROR (ids n) ROUTER_PEER_ID ROUTER_PEER_ID (clock_ts (dp_router s)))"
    and "error_frame cd (clock_ts (dp_router s)) (ids n) ''peer_not_found'' ''call target not found'' = Inr g"
    and "idle n (dp_client s)" and "c \<noteq> d"
  shows "\<exists>t reply. whole_call cd tr ids worker target c d n f s = Some t \<and>
    returned_frame n t = Some (Inr reply) \<and>
    call_result cd from_value reply = Inl (RouterUnavailable ''call target not found'') \<and>
    idle (Suc n) (dp_client t) \<and> dp_service t = dp_service s \<and>
    dp_router t = (dp_router s)\<lparr>w_sent := w_sent (dp_router s) @ [(c, g)]\<rparr>"
  using assms by (rule whole_call_missing)

theorem missing_target_reads_as_router_unavailable_witness:
  "\<exists>f t reply. call_request msgpack ''m1'' 0 (demo_transport None) ''gone'' ''add'' [] = Inr (''m1'', f) \<and>
    whole_call msgpack (demo_transport None) (\<lambda>_. ''m1'') demo_worker ''gone'' 9 7 0 f (demo_deployment demo_world) = Some t \<and>
    returned_frame 0 t = Some (Inr reply) \<and>
    call_result msgpack Inr reply = (Inl (RouterUnavailable ''call target not found'') :: MultifrostError + Value)"
proof -
  let ?b = "\<lparr>call_function = ''add'', call_args = [], call_namespace = None\<rparr>"
  have id: "ct_peer_id (demo_transport None) = ''cli''" by (simp add: demo_transport_def)
  have wf: "well_framed msgpack (build_call_envelope ''m1'' 0 (ct_peer_id (demo_transport None)) ''gone'')"
    by (rule msgpack_well_framed) (simp_all add: id build_call_envelope_def mf_defs PROTOCOL_VERSION_def)
  have "encode_call_body msgpack ?b = Inr (mp_call ?b)"
    by (simp add: encode_call_body_def msgpack_def mk_enc_def call_ok_def args_ok_def str_ok_def)
  then obtain f where f: "call_request msgpack ''m1'' 0 (demo_transport None) ''gone'' ''add'' [] = Inr (''m1'', f)"
    using client_frames.encode_succeeds [OF wf, of "mp_call ?b"]
    by (auto simp: call_request_def Let_def) (simp add: build_call_envelope_def)
  have wr: "well_framed msgpack (build_envelope KIND_ERROR ''m1'' ROUTER_PEER_ID ROUTER_PEER_ID (clock_ts scene))"
    by (rule msgpack_well_framed) (simp_all add: build_envelope_def KIND_ERROR_def ROUTER_PEER_ID_def)
  have "encode_error_body msgpack (build_error_body ''peer_not_found'' ''call target not found'') \<in> range Inr"
    by (simp add: encode_error_body_def msgpack_def mk_enc_def build_error_body_def error_ok_def str_ok_def)
  then obtain g where g: "error_frame msgpack (clock_ts scene) ''m1'' ''peer_not_found'' ''call target not found'' = Inr g"
    using router_frames.encode_succeeds [OF wr] by (fastforce simp: error_frame_def)
  have lv: "live scene ''gone'' = None" by (simp add: live_def scene_def)
  show ?thesis
    using missing_target_reads_as_router_unavailable [where s = "demo_deployment demo_world" and ids = "\<lambda>_. ''m1''" and n = 0
        and worker = demo_worker and from_value = Inr and cd = msgpack and ts = 0 and tr = "demo_transport None"
        and target = "''gone''" and fn = "''add''" and args = "[]" and m = "''m1''" and f = f and g = g and c = 9 and d = 7]
      wf f wr g lv by auto
qed

section \<open>A typed call of the math worker\<close>

text \<open>
  C10: \<open>call!(handle, add(a, b))\<close> adds. The request that the macro sends through an open
  handle to a live service that runs the example's math worker is handled by one call of
  the worker, which prints one line, and the call returns the sum of the two 64-bit
  integers. The trait method \<open>call_fn\<close> sends the same request.
\<close>

theorem macro_call_adds:
  fixes a b :: "64 word"
  assumes "round_trips (enc_envelope cd) (dec_envelope cd)" and "round_trips (enc_call cd) (dec_call cd)"
    and "round_trips (enc_response cd) (dec_response cd)" and "error_round_trips cd"
    and "json_access_ok ja" and "from_value (json_of_int (sint (a + b))) = Inr (a + b)"
    and "idle n (dp_client s)"
    and "ct_default_target_peer_id (cr_transport handle) = Some target"
    and "ct_peer_id (cr_transport handle) = caller"
    and "well_framed cd (build_call_envelope (ids n) ts caller target)"
    and "call_macro cd (ids n) ts handle ''add'' [ArgI64 a, ArgI64 b] = Inr (m, f)"
    and "live (dp_router s) caller = Some (Caller, c)" and "live (dp_router s) target = Some (Service, d)"
    and "\<And>k g. w_send_err (dp_router s) k g = None" and "\<And>g. sv_send_err (dp_service s) g = None"
    and "enc_response cd \<lparr>resp_result = json_of_int (sint (a + b))\<rparr> = Inr body"
    and "well_framed cd (answer_envelope (mf_now_ts (sv_clock (dp_service s))) target
      (build_call_envelope (ids n) ts caller target) (Answer (Inr (json_of_int (sint (a + b))))))"
    and "c \<noteq> d"
  shows "\<exists>t reply. whole_call cd (cr_transport handle) ids (math_worker ja label) target c d n f s = Some t \<and>
    returned_frame n t = Some (Inr reply) \<and> call_result cd from_value reply = Inr (a + b) \<and>
    sv_worker (dp_service t) = sv_worker (dp_service s) @ [''['' @ label @ ''] handling add''] \<and>
    call_fn cd (ids n) ts handle ''add'' (Args2 (ArgI64 a) (ArgI64 b)) = Inr (m, f)"
proof -
  let ?tr = "cr_transport handle" and ?args = "[json_of_int (sint a), json_of_int (sint b)]" and ?sw = "dp_service s"
  have req: "call_request cd (ids n) ts ?tr target ''add'' ?args = Inr (m, f)"
    using assms(8,11) by (simp add: call_macro_def handle_call_request_def default_call_request_def)
  have wk: "math_worker ja label ''add'' ?args (sv_worker ?sw) =
      (Inr (json_of_int (sint (a + b))), sv_worker ?sw @ [''['' @ label @ ''] handling add''])"
    using json_access_simps [OF assms(5)] by (simp add: math_worker_def math_call_def int_operands_def arg_or_def)
  have body: "answer_body cd (Answer (Inr (json_of_int (sint (a + b))))) = Inr body"
    using assms(16) by simp
  have wf: "well_framed cd (build_call_envelope (ids n) ts (ct_peer_id ?tr) target)"
    and wa: "well_framed cd (answer_envelope (mf_now_ts (sv_clock ?sw)) target
      (build_call_envelope (ids n) ts (ct_peer_id ?tr) target) (Answer (Inr (json_of_int (sint (a + b))))))"
    and lv: "live (dp_router s) (ct_peer_id ?tr) = Some (Caller, c)"
    using assms(9,10,12,17) by simp_all
  have fn: "call_fn cd (ids n) ts handle ''add'' (Args2 (ArgI64 a) (ArgI64 b)) = Inr (m, f)"
    using assms(11) by (simp add: call_fn_macro)
  obtain t g reply where t: "whole_call cd ?tr ids (math_worker ja label) target c d n f s = Some t"
      "returned_frame n t = Some (Inr reply)" "call_result cd from_value reply = Inr (a + b)"
      "dp_service t = ?sw\<lparr>sv_worker := sv_worker ?sw @ [''['' @ label @ ''] handling add''], sv_sent := sv_sent ?sw @ [g]\<rparr>"
    using whole_call_returns [where from_value = from_value and worker = "math_worker ja label" and ids = ids and n = n,
        OF assms(1-4,7) wf req lv assms(13-15) wk body wa assms(18)] assms(6) by auto
  then show ?thesis using fn by simp
qed

definition demo_handle :: ConnectionRuntime where
  "demo_handle = from_transport ((demo_transport None)\<lparr>ct_default_target_peer_id := Some ''svc''\<rparr>) (Some ''svc'')"

theorem macro_call_adds_witness:
  "\<exists>f t reply. call_macro msgpack ''m1'' 0 demo_handle ''add'' [ArgI64 1, ArgI64 2] = Inr (''m1'', f) \<and>
    whole_call msgpack (cr_transport demo_handle) (\<lambda>_. ''m1'') (math_worker demo_access ''math'') ''svc'' 9 7 0 f
      (demo_deployment \<lparr>sv_sent = [], sv_send_err = (\<lambda>_. None), sv_clock = Some 0, sv_log = [], sv_worker = []\<rparr>) = Some t \<and>
    returned_frame 0 t = Some (Inr reply) \<and> call_result msgpack (ok_or [] \<circ> as_i64 demo_access) reply = Inr 3 \<and>
    sv_worker (dp_service t) = [''[math] handling add'']"
proof -
  have id: "ct_default_target_peer_id (cr_transport demo_handle) = Some ''svc''"
    "ct_peer_id (cr_transport demo_handle) = ''cli''"
    by (simp_all add: demo_handle_def demo_transport_def from_transport_def)
  have wf: "well_framed msgpack (build_call_envelope ''m1'' 0 ''cli'' ''svc'')"
    by (rule msgpack_well_framed) (simp_all add: build_call_envelope_def mf_defs PROTOCOL_VERSION_def)
  let ?sw = "\<lparr>sv_sent = [], sv_send_err = (\<lambda>_. None), sv_clock = Some 0, sv_log = [], sv_worker = []\<rparr>"
  let ?v = "json_of_int (sint (1 + 2 :: 64 word))"
  have args: "to_json_arg (ArgI64 1) = VPosInt 1" "to_json_arg (ArgI64 2) = VPosInt 2"
    by (simp_all add: json_of_int_def sint_uint)
  obtain f where f: "call_macro msgpack ''m1'' 0 demo_handle ''add'' [ArgI64 1, ArgI64 2] = Inr (''m1'', f)"
    using demo_call_request
    by (auto simp: call_macro_def handle_call_request_def default_call_request_def id args call_request_def
        demo_transport_def simp del: to_json_arg.simps)
  have wa: "well_framed msgpack (answer_envelope (mf_now_ts (Some 0)) ''svc''
      (build_call_envelope ''m1'' 0 ''cli'' ''svc'') (Answer (Inr ?v)))"
    by (rule msgpack_well_framed) (simp_all add: answer_envelope_def build_call_envelope_def PROTOCOL_VERSION_def)
  have body: "enc_response msgpack \<lparr>resp_result = ?v\<rparr> = Inr (mp_response \<lparr>resp_result = ?v\<rparr>)"
    by (simp add: json_of_int_def sint_uint msgpack_def mk_enc_def)
  have fv: "(ok_or [] \<circ> as_i64 demo_access) ?v = Inr (1 + 2)"
    using json_access_simps(1) [OF demo_access_ok, of "1 + 2"] by simp
  have sum: "1 + 2 = (3 :: 64 word)" by simp
  show ?thesis
    using macro_call_adds [where s = "demo_deployment ?sw" and ids = "\<lambda>_. ''m1''" and n = 0
        and from_value = "ok_or [] \<circ> as_i64 demo_access" and a = 1 and b = 2 and label = "''math''" and c = 9 and d = 7,
        OF msgpack_round_trips(1,7,8,9) demo_access_ok fv _ id wf f] body wa f scene_live
    by (fastforce simp: sum)
qed

section \<open>The port setting\<close>

text \<open>
  Router and clients agree on every port setting that the router accepts. When the
  router refuses the setting of \<open>MULTIFROST_ROUTER_PORT\<close>, a client with the same
  environment goes on silently, with port 0 or with the default port.
\<close>

theorem port_settings_agree:
  "case parse_port (bo_router_port os) of
     Inr port \<Rightarrow> router_port_from_env os = port
   | Inl _ \<Rightarrow> router_port_from_env os \<in> {0, 9981}"
  by (auto simp: parse_port_def router_port_from_env_def DEFAULT_PORT_def DEFAULT_ROUTER_PORT_def
      split: option.splits)

end
